(* ===== verification/Prelude.thy ===== *)
theory Prelude
  imports Main "HOL-Library.Word" "HOL-Library.List_Lexorder" "HOL-Library.Signed_Division"
    "HOL-Library.Multiset"
begin

text \<open>
  Shared vocabulary of the development.
  \<^item> Types: \<open>byte\<close> strings for Go's \<open>[]byte\<close>, \<open>uint256\<close> for the 256-bit amounts.
  \<^item> Go's fixed-width signed integers: a Go \<open>int64\<close> or \<open>int32\<close> is an \<open>int\<close>, and every
    arithmetic operation of the source is followed by \<open>i64\<close> or \<open>i32\<close>, the two's complement
    wrap-around. Division is the truncating \<open>sdiv\<close>.
  \<^item> Go loops that recur in several components: the backward search-and-remove loop
    (\<open>remove_last\<close>) and \<open>sort.Sort\<close> (\<open>sort_by\<close>).
  \<^item> Sums over the values of finite maps (\<open>msum\<close>), used for every conservation statement.
\<close>

named_theorems go_int \<open>wrap-around arithmetic of Go's fixed-width integers\<close>

type_synonym byte = "8 word"
type_synonym bytes = "byte list"
type_synonym addr = bytes
type_synonym uint256 = "256 word"

section \<open>Fixed-width integers\<close>

definition i64 :: "int \<Rightarrow> int" where
  "i64 x = (x + 2 ^ 63) mod 2 ^ 64 - 2 ^ 63"

definition in64 :: "int \<Rightarrow> bool" where
  "in64 x \<longleftrightarrow> - (2 ^ 63) \<le> x \<and> x < 2 ^ 63"

definition i32 :: "int \<Rightarrow> int" where
  "i32 x = (x + 2 ^ 31) mod 2 ^ 32 - 2 ^ 31"

definition in32 :: "int \<Rightarrow> bool" where
  "in32 x \<longleftrightarrow> - (2 ^ 31) \<le> x \<and> x < 2 ^ 31"

definition u64 :: "int \<Rightarrow> int" where
  "u64 x = x mod 2 ^ 64"

lemma i64_id [simp]: "in64 x \<Longrightarrow> i64 x = x"
  by (simp add: i64_def in64_def)

lemma i32_id [simp]: "in32 x \<Longrightarrow> i32 x = x"
  by (simp add: i32_def in32_def)

lemma in64_i64 [simp]: "in64 (i64 x)"
proof -
  have "0 \<le> (x + 2 ^ 63) mod 2 ^ 64 \<and> (x + 2 ^ 63) mod 2 ^ 64 < (2 ^ 64 :: int)" by simp
  then show ?thesis by (simp add: i64_def in64_def)
qed

lemma in32_i32 [simp]: "in32 (i32 x)"
proof -
  have "0 \<le> (x + 2 ^ 31) mod 2 ^ 32 \<and> (x + 2 ^ 31) mod 2 ^ 32 < (2 ^ 32 :: int)" by simp
  then show ?thesis by (simp add: i32_def in32_def)
qed

lemma i64_eqI: "(x - y) mod 2 ^ 64 = 0 \<Longrightarrow> i64 x = i64 y"
proof -
  assume "(x - y) mod 2 ^ 64 = 0"
  then have "(x + 2 ^ 63) mod 2 ^ 64 = (y + 2 ^ 63) mod (2 ^ 64 :: int)"
    by (simp add: mod_eq_dvd_iff mod_0_imp_dvd)
  then show ?thesis by (simp add: i64_def)
qed

lemma i64_cong_mod: "(i64 x - x) mod 2 ^ 64 = 0"
proof -
  have "i64 x - x = (x + 2 ^ 63) mod 2 ^ 64 - (x + 2 ^ 63)" by (simp add: i64_def)
  also have "\<dots> mod 2 ^ 64 = 0" by (metis mod_diff_left_eq diff_self mod_0)
  finally show ?thesis .
qed

lemma i64_add_left [simp, go_int]: "i64 (i64 x + y) = i64 (x + y)"
  using i64_cong_mod[of x] by (intro i64_eqI) simp

lemma i64_add_right [simp, go_int]: "i64 (x + i64 y) = i64 (x + y)"
  using i64_add_left[of y x] by (simp add: add.commute)

lemma i64_diff_left [simp, go_int]: "i64 (i64 x - y) = i64 (x - y)"
  using i64_add_left[of x "- y"] by simp

lemma i64_diff_right [simp, go_int]: "i64 (x - i64 y) = i64 (x - y)"
proof (rule i64_eqI)
  have "2 ^ 64 dvd - (i64 y - y)"
    using i64_cong_mod[of y] by (subst dvd_minus_iff) (rule mod_0_imp_dvd)
  then show "(x - i64 y - (x - y)) mod 2 ^ 64 = 0" by simp
qed

lemma i64_i64 [simp, go_int]: "i64 (i64 x) = i64 x"
  by simp

lemma i64_0 [simp]: "i64 0 = 0" by (simp add: i64_def)

lemma in64_0 [simp]: "in64 0" by (simp add: in64_def)

lemma sdiv_nonneg [simp, go_int]: "0 \<le> x \<Longrightarrow> 0 < y \<Longrightarrow> x sdiv y = x div (y :: int)"
  by (cases "x = 0") (simp_all add: signed_divide_int_def)

section \<open>Searching and removing\<close>

text \<open>
  The loop \<open>for i := len(xs)-1; i >= 0; i-- { if p(xs[i]) { remove xs[i]; return xs[i] } }\<close>:
  the last match and the list without it.
\<close>

fun remove_last :: "('a \<Rightarrow> bool) \<Rightarrow> 'a list \<Rightarrow> ('a \<times> 'a list) option" where
  "remove_last p [] = None"
| "remove_last p (x # xs) =
     (case remove_last p xs of
        Some (y, ys) \<Rightarrow> Some (y, x # ys)
      | None \<Rightarrow> if p x then Some (x, xs) else None)"

lemma remove_last_None [simp]: "remove_last p xs = None \<longleftrightarrow> (\<forall>x \<in> set xs. \<not> p x)"
  by (induction xs) (auto split: option.splits)

lemma remove_last_Some:
  "remove_last p xs = Some (y, ys) \<Longrightarrow>
     \<exists>us vs. xs = us @ y # vs \<and> ys = us @ vs \<and> p y \<and> (\<forall>v \<in> set vs. \<not> p v)"
proof (induction xs arbitrary: ys)
  case Nil
  then show ?case by simp
next
  case (Cons x xs)
  show ?case
  proof (cases "remove_last p xs")
    case None
    with Cons.prems have "y = x" "ys = xs" "p x" by (auto split: if_splits)
    moreover from None have "\<forall>v \<in> set xs. \<not> p v" by simp
    ultimately show ?thesis by (metis append_Nil)
  next
    case (Some r)
    obtain z zs where r: "r = (z, zs)" by (cases r)
    with Some Cons.prems have y: "z = y" "ys = x # zs" by auto
    with Some r Cons.IH obtain us vs where
      "xs = us @ y # vs" "zs = us @ vs" "p y" "\<forall>v \<in> set vs. \<not> p v" by blast
    with y show ?thesis by (metis append_Cons)
  qed
qed

lemma remove_last_mset: "remove_last p xs = Some (y, ys) \<Longrightarrow> mset xs = add_mset y (mset ys)"
  by (auto dest: remove_last_Some)

lemma remove_last_sum:
  fixes f :: "'a \<Rightarrow> int"
  shows "remove_last p xs = Some (y, ys) \<Longrightarrow> sum_list (map f ys) = sum_list (map f xs) - f y"
  by (auto dest!: remove_last_Some)

lemma remove_last_pred: "remove_last p xs = Some (y, ys) \<Longrightarrow> p y \<and> y \<in> set xs \<and> set ys \<subseteq> set xs"
  by (auto dest!: remove_last_Some)

lemma remove_last_distinct:
  "remove_last p xs = Some (y, ys) \<Longrightarrow> distinct xs \<Longrightarrow> distinct ys \<and> set ys = set xs - {y}"
  by (auto dest!: remove_last_Some)

lemma find_SomeD: "List.find p xs = Some x \<Longrightarrow> x \<in> set xs \<and> p x"
  by (auto simp: find_Some_iff)

section \<open>sort.Sort\<close>

text \<open>
  \<open>sort.Sort\<close> with the given \<open>Less\<close>: insertion from left to right. Where \<open>Less\<close> is total on
  the elements the result does not depend on the algorithm (\<open>sort_by_unique\<close>).
\<close>

fun insert_by :: "('a \<Rightarrow> 'a \<Rightarrow> bool) \<Rightarrow> 'a \<Rightarrow> 'a list \<Rightarrow> 'a list" where
  "insert_by lt x [] = [x]"
| "insert_by lt x (y # ys) = (if lt x y then x # y # ys else y # insert_by lt x ys)"

definition sort_by :: "('a \<Rightarrow> 'a \<Rightarrow> bool) \<Rightarrow> 'a list \<Rightarrow> 'a list" where
  "sort_by lt xs = fold (insert_by lt) xs []"

text \<open>Strict weak orders, the contract that \<open>sort.Interface\<close> asks of \<open>Less\<close>.\<close>

definition swo :: "('a \<Rightarrow> 'a \<Rightarrow> bool) \<Rightarrow> bool" where
  "swo lt \<longleftrightarrow> (\<forall>x y. lt x y \<longrightarrow> \<not> lt y x) \<and> (\<forall>x y z. lt x y \<longrightarrow> lt x z \<or> lt z y)"

lemma swo_asym: "swo lt \<Longrightarrow> lt x y \<Longrightarrow> \<not> lt y x"
  unfolding swo_def by blast

lemma swo_trans: "swo lt \<Longrightarrow> lt x y \<Longrightarrow> lt y z \<Longrightarrow> lt x z"
  unfolding swo_def by blast

lemma swo_not_trans: "swo lt \<Longrightarrow> \<not> lt y x \<Longrightarrow> \<not> lt z y \<Longrightarrow> \<not> lt z x"
  unfolding swo_def by blast

lemma mset_insert_by [simp]: "mset (insert_by lt x xs) = add_mset x (mset xs)"
  by (induction xs) auto

lemma mset_fold_insert_by: "mset (fold (insert_by lt) xs acc) = mset xs + mset acc"
  by (induction xs arbitrary: acc) auto

lemma mset_sort_by [simp]: "mset (sort_by lt xs) = mset xs"
  by (simp add: sort_by_def mset_fold_insert_by)

lemma set_sort_by [simp]: "set (sort_by lt xs) = set xs"
  by (metis mset_sort_by set_mset_mset)

lemma length_sort_by [simp]: "length (sort_by lt xs) = length xs"
  by (metis mset_sort_by size_mset)

lemma distinct_sort_by [simp]: "distinct (sort_by lt xs) = distinct xs"
  by (metis mset_sort_by mset_eq_imp_distinct_iff)

lemma set_insert_by [simp]: "set (insert_by lt x xs) = insert x (set xs)"
  by (metis mset_insert_by set_mset_add_mset_insert set_mset_mset)

abbreviation sorted_by :: "('a \<Rightarrow> 'a \<Rightarrow> bool) \<Rightarrow> 'a list \<Rightarrow> bool" where
  "sorted_by lt \<equiv> sorted_wrt (\<lambda>x y. \<not> lt y x)"

lemma sorted_insert_by: "swo lt \<Longrightarrow> sorted_by lt xs \<Longrightarrow> sorted_by lt (insert_by lt x xs)"
proof (induction xs)
  case Nil
  then show ?case by simp
next
  case (Cons y ys)
  from Cons.prems have y: "\<forall>z \<in> set ys. \<not> lt z y" and ys: "sorted_by lt ys" by auto
  show ?case
  proof (cases "lt x y")
    case True
    with Cons.prems(1) have "\<not> lt y x" by (rule swo_asym)
    moreover have "\<not> lt z x" if "z \<in> set ys" for z
      using that y Cons.prems(1) \<open>\<not> lt y x\<close> swo_not_trans[of lt y x z] by blast
    ultimately show ?thesis using True y ys by simp
  next
    case False
    with Cons y ys show ?thesis by simp
  qed
qed

lemma sorted_fold_insert_by:
  "swo lt \<Longrightarrow> sorted_by lt acc \<Longrightarrow> sorted_by lt (fold (insert_by lt) xs acc)"
  by (induction xs arbitrary: acc) (auto intro: sorted_insert_by)

lemma sorted_sort_by: "swo lt \<Longrightarrow> sorted_by lt (sort_by lt xs)"
  by (simp add: sort_by_def sorted_fold_insert_by)

lemma sorted_by_unique:
  assumes "swo lt" "mset xs = mset ys" "sorted_by lt xs" "sorted_by lt ys"
    and "\<forall>x \<in> set xs. \<forall>y \<in> set xs. x \<noteq> y \<longrightarrow> lt x y \<or> lt y x"
  shows "xs = ys"
  using assms(2-)
proof (induction xs arbitrary: ys)
  case Nil
  then show ?case by simp
next
  case (Cons x xs)
  then obtain y ys' where ys: "ys = y # ys'" by (cases ys) auto
  have s: "set (x # xs) = set ys" using Cons.prems(1) by (metis set_mset_mset)
  have "y \<in> set (x # xs)" "x \<in> set ys" using s ys by auto
  have "x = y"
  proof (rule ccontr)
    assume ne: "x \<noteq> y"
    with \<open>y \<in> set (x # xs)\<close> Cons.prems(2) have "\<not> lt y x" by auto
    moreover from ne \<open>x \<in> set ys\<close> ys Cons.prems(3) have "\<not> lt x y" by auto
    ultimately show False using ne Cons.prems(4) \<open>y \<in> set (x # xs)\<close> by (meson list.set_intros(1))
  qed
  moreover have "xs = ys'"
    using Cons.IH[of ys'] Cons.prems ys \<open>x = y\<close> by simp
  ultimately show ?case using ys by simp
qed

lemma sort_by_unique:
  assumes "swo lt" "mset xs = mset ys" "sorted_by lt ys"
    and "\<forall>x \<in> set xs. \<forall>y \<in> set xs. x \<noteq> y \<longrightarrow> lt x y \<or> lt y x"
  shows "sort_by lt xs = ys"
proof (rule sorted_by_unique[OF assms(1)])
  show "mset (sort_by lt xs) = mset ys" using assms(2) by simp
  show "sorted_by lt (sort_by lt xs)" using assms(1) by (rule sorted_sort_by)
  show "sorted_by lt ys" by (rule assms(3))
  show "\<forall>x \<in> set (sort_by lt xs). \<forall>y \<in> set (sort_by lt xs). x \<noteq> y \<longrightarrow> lt x y \<or> lt y x"
    using assms(4) by simp
qed

section \<open>Sums over finite maps\<close>

definition msum :: "('v \<Rightarrow> 'n::ab_group_add) \<Rightarrow> ('k \<rightharpoonup> 'v) \<Rightarrow> 'n" where
  "msum f m = (\<Sum>k \<in> dom m. f (the (m k)))"

definition mval :: "('v \<Rightarrow> 'n::ab_group_add) \<Rightarrow> ('k \<rightharpoonup> 'v) \<Rightarrow> 'k \<Rightarrow> 'n" where
  "mval f m k = (case m k of None \<Rightarrow> 0 | Some v \<Rightarrow> f v)"

lemma mval_simps [simp]:
  "m k = Some v \<Longrightarrow> mval f m k = f v"
  "m k = None \<Longrightarrow> mval f m k = 0"
  by (auto simp: mval_def)

lemma msum_empty [simp]: "msum f Map.empty = 0"
  by (simp add: msum_def)

lemma msum_delete: "finite (dom m) \<Longrightarrow> msum f (m(k := None)) = msum f m - mval f m k"
proof (cases "m k")
  case None
  then have "m(k := None) = m" by (simp add: fun_upd_idem)
  with None show ?thesis by simp
next
  case (Some v)
  assume fin: "finite (dom m)"
  have k: "k \<in> dom m" using Some by auto
  have "msum f (m(k := None)) = (\<Sum>i \<in> dom m - {k}. f (the (m i)))"
    by (auto simp: msum_def intro!: sum.cong split: if_splits)
  also have "\<dots> = msum f m - f v"
    using sum.remove[OF fin k, of "\<lambda>i. f (the (m i))"] Some by (simp add: msum_def)
  finally show ?thesis using Some by simp
qed

lemma msum_update: "finite (dom m) \<Longrightarrow> msum f (m(k \<mapsto> v)) = msum f m - mval f m k + f v"
proof -
  assume fin: "finite (dom m)"
  have "msum f (m(k \<mapsto> v)) = f v + (\<Sum>i \<in> dom m - {k}. f (the ((m(k \<mapsto> v)) i)))"
    using fin sum.insert_remove[of "dom m" "\<lambda>i. f (the ((m(k \<mapsto> v)) i))" k]
    by (simp add: msum_def)
  also have "(\<Sum>i \<in> dom m - {k}. f (the ((m(k \<mapsto> v)) i))) = msum f (m(k := None))"
    unfolding msum_def by (rule sum.cong) auto
  finally show ?thesis unfolding msum_delete[OF fin] by (simp only: add.commute)
qed

lemma msum_cong: "(\<And>k v. m k = Some v \<Longrightarrow> f v = g v) \<Longrightarrow> msum f m = msum g m"
  by (auto simp: msum_def intro!: sum.cong)

end
