(* ===== verification/Xerrors.thy ===== *)
theory Xerrors
  imports Prelude "HOL-Library.Sublist"
begin

text \<open>
  The error values of the node (\<open>src/types/xerrors/xerror.go\<close>). An \<open>xerror\<close> has a code, a
  message and an optional cause; a cause is again an \<open>xerror\<close> (\<open>EXerr\<close>), a plain Go error with its
  text (\<open>EFmt\<close>) or the result of \<open>errors.Join\<close> (\<open>EJoin\<close>). Every fallible operation of the
  development returns \<open>xerror + 'a\<close>. Where the source formats arguments into a message with
  \<open>Wrapf\<close> the model keeps the literal text of the message and leaves the arguments out.
\<close>

datatype xerror = XErr nat string "goerror option"
  and goerror = EXerr xerror | EFmt string | EJoin goerror goerror

type_synonym 'a res = "xerror + 'a"

text \<open>A call that may panic: integer division by zero, a slice out of range, an explicit \<open>panic\<close>.\<close>

datatype 'a go = Panic | Ret 'a

section \<open>Construction and inspection\<close>

definition ErrCodeOrdinary :: nat where "ErrCodeOrdinary = 1"

definition New :: "nat \<Rightarrow> string \<Rightarrow> xerror" where
  "New c m = XErr c m None"

definition NewOrdinary :: "string \<Rightarrow> xerror" where
  "NewOrdinary m = XErr ErrCodeOrdinary m None"

fun Code :: "xerror \<Rightarrow> nat" where
  "Code (XErr c m k) = c"

fun Msg :: "xerror \<Rightarrow> string" where
  "Msg (XErr c m k) = m"

fun Cause :: "xerror \<Rightarrow> goerror option" where
  "Cause (XErr c m k) = k"

fun Error :: "xerror \<Rightarrow> string"
  and goError :: "goerror \<Rightarrow> string" where
  "Error (XErr c m None) = m"
| "Error (XErr c m (Some k)) = m @ [CHR 0x0A, CHR 0x09] @ goError k"
| "goError (EXerr x) = Error x"
| "goError (EFmt s) = s"
| "goError (EJoin a b) = goError a @ [CHR 0x0A] @ goError b"

definition From :: "goerror option \<Rightarrow> xerror option" where
  "From err = (case err of None \<Rightarrow> None | Some e \<Rightarrow> Some (NewOrdinary (goError e)))"

text \<open>
  \<open>Wrap\<close> descends along causes that are themselves \<open>xerror\<close>s and attaches the new error at
  the innermost one; a plain cause is joined with it.
\<close>

fun Wrap :: "xerror \<Rightarrow> goerror \<Rightarrow> xerror" where
  "Wrap (XErr c m None) e = XErr c m (Some e)"
| "Wrap (XErr c m (Some (EXerr x))) e = XErr c m (Some (EXerr (Wrap x e)))"
| "Wrap (XErr c m (Some (EFmt s))) e = XErr c m (Some (EJoin (EFmt s) e))"
| "Wrap (XErr c m (Some (EJoin a b))) e = XErr c m (Some (EJoin (EJoin a b) e))"

definition Wrapf :: "xerror \<Rightarrow> string \<Rightarrow> xerror" where
  "Wrapf x s = Wrap x (EXerr (New ErrCodeOrdinary s))"

text \<open>\<open>errors.Is\<close> on a cause that is not an \<open>xerror\<close>: it only looks inside joined errors.\<close>

fun goerror_Is :: "goerror \<Rightarrow> xerror \<Rightarrow> bool" where
  "goerror_Is (EXerr x) other = (x = other)"
| "goerror_Is (EFmt s) other = False"
| "goerror_Is (EJoin a b) other = (goerror_Is a other \<or> goerror_Is b other)"

fun Contains :: "xerror \<Rightarrow> xerror \<Rightarrow> bool" where
  "Contains (XErr c m k) other =
     (if c = Code other \<and> sublist (Error other) (Error (XErr c m k)) then True
      else (case k of
              None \<Rightarrow> False
            | Some (EXerr x) \<Rightarrow> Contains x other
            | Some (EFmt s) \<Rightarrow> goerror_Is (EFmt s) other
            | Some (EJoin a b) \<Rightarrow> goerror_Is (EJoin a b) other))"

definition Equal :: "xerror \<Rightarrow> xerror \<Rightarrow> bool" where
  "Equal x other \<longleftrightarrow> Code x = Code other"

section \<open>The sentinel errors\<close>

definition ErrOverFlow :: xerror where "ErrOverFlow = New 1 ''overflow''"
definition ErrInitChain :: xerror where "ErrInitChain = New 2 ''InitChain failed''"
definition ErrCheckTx :: xerror where "ErrCheckTx = New 3 ''CheckTx failed''"
definition ErrBeginBlock :: xerror where "ErrBeginBlock = New 4 ''BeginBlock failed''"
definition ErrDeliverTx :: xerror where "ErrDeliverTx = New 5 ''DeliverTx failed''"
definition ErrNotFoundAccount :: xerror where "ErrNotFoundAccount = New 8 ''not found account''"
definition ErrInvalidTrx :: xerror where "ErrInvalidTrx = New 10 ''invalid transaction''"
definition ErrNotFoundDelegatee :: xerror where "ErrNotFoundDelegatee = New 12 ''not found delegatee''"
definition ErrNotFoundStake :: xerror where "ErrNotFoundStake = New 13 ''not found stake''"
definition ErrNotFoundProposal :: xerror where "ErrNotFoundProposal = New 14 ''not found proposal''"
definition ErrNotFoundVoter :: xerror where "ErrNotFoundVoter = New 15 ''not found voter''"
definition ErrUpdatableStakeRatio :: xerror where
  "ErrUpdatableStakeRatio = New 17 ''exceeded updatable stake ratio''"
definition ErrNotFoundResult :: xerror where "ErrNotFoundResult = New 1003 ''not found result''"

definition ErrInvalidGas :: xerror where
  "ErrInvalidGas = Wrap ErrInvalidTrx (EXerr (NewOrdinary ''invalid gas''))"
definition ErrInvalidGasPrice :: xerror where
  "ErrInvalidGasPrice = Wrap ErrInvalidTrx (EXerr (NewOrdinary ''invalid gas price''))"
definition ErrInvalidAddress :: xerror where
  "ErrInvalidAddress = Wrap ErrInvalidTrx (EXerr (NewOrdinary ''invalid address''))"
definition ErrInvalidNonce :: xerror where
  "ErrInvalidNonce = Wrap ErrInvalidTrx (EXerr (NewOrdinary ''invalid nonce''))"
definition ErrInvalidAmount :: xerror where
  "ErrInvalidAmount = Wrap ErrInvalidTrx (EXerr (NewOrdinary ''invalid amount''))"
definition ErrInsufficientFund :: xerror where
  "ErrInsufficientFund = Wrap ErrInvalidTrx (EXerr (NewOrdinary ''insufficient fund''))"
definition ErrInvalidTrxType :: xerror where
  "ErrInvalidTrxType = Wrap ErrInvalidTrx (EXerr (NewOrdinary ''wrong transaction type''))"
definition ErrInvalidTrxPayloadType :: xerror where
  "ErrInvalidTrxPayloadType = Wrap ErrInvalidTrx (EXerr (NewOrdinary ''wrong transaction payload type''))"
definition ErrInvalidTrxPayloadParams :: xerror where
  "ErrInvalidTrxPayloadParams =
     Wrap ErrInvalidTrx (EXerr (NewOrdinary ''invalid params of transaction payload''))"
definition ErrInvalidTrxSig :: xerror where
  "ErrInvalidTrxSig = Wrap ErrInvalidTrx (EXerr (NewOrdinary ''invalid signature''))"

definition ErrUnknownTrxType :: xerror where
  "ErrUnknownTrxType = NewOrdinary ''unknown transaction type''"
definition ErrNoRight :: xerror where "ErrNoRight = NewOrdinary ''no right''"
definition ErrNotVotingPeriod :: xerror where "ErrNotVotingPeriod = NewOrdinary ''not voting period''"
definition ErrDuplicatedKey :: xerror where "ErrDuplicatedKey = NewOrdinary ''already existed key''"
definition ErrInvalidAccountType :: xerror where
  "ErrInvalidAccountType = New 9 ''invalid account type''"

section \<open>Wrapping keeps what it wraps\<close>

lemma Code_Wrap [simp]: "Code (Wrap x e) = Code x"
  by (induction x e rule: Wrap.induct) auto

lemma Error_Wrap_prefix: "\<exists>s. Error (Wrap x e) = Error x @ s"
proof (induction x e rule: Wrap.induct)
  case (2 c m x e)
  then obtain s where "Error (Wrap x e) = Error x @ s" by blast
  then show ?case by simp
qed auto

lemma Contains_same: "Code x = Code y \<Longrightarrow> sublist (Error y) (Error x) \<Longrightarrow> Contains x y"
  by (cases x) (auto simp del: Error.simps)

lemma Contains_Wrap_self [simp]: "Contains (Wrap x e) x"
proof -
  obtain s where "Error (Wrap x e) = [] @ Error x @ s" using Error_Wrap_prefix by auto
  then have "sublist (Error x) (Error (Wrap x e))" unfolding sublist_def by blast
  then show ?thesis by (intro Contains_same) auto
qed

lemma Contains_refl [simp]: "Contains x x"
  by (rule Contains_same) auto

text \<open>
  Wrapping an error never hides it and never changes its code: the error that results from
  wrapping any sequence of errors into \<open>x\<close> still contains \<open>x\<close>, whatever is
  wrapped and however often. The handlers rely on it when they test
  \<open>xerr.Contains(xerrors.ErrNotFoundResult)\<close> on an error that callers may have wrapped.
\<close>

theorem Wrap_keeps_contained:
  "Code (foldl Wrap x es) = Code x \<and> Contains (foldl Wrap x es) x"
proof -
  have "Code (foldl Wrap x es) = Code x \<and> (\<exists>s. Error (foldl Wrap x es) = Error x @ s)"
  proof (induction es rule: rev_induct)
    case (snoc e es)
    then obtain s where s: "Error (foldl Wrap x es) = Error x @ s"
      and c: "Code (foldl Wrap x es) = Code x" by blast
    from Error_Wrap_prefix[of "foldl Wrap x es" e] s
    show ?case using c by auto
  qed simp
  then obtain s where c: "Code (foldl Wrap x es) = Code x"
    and s: "Error (foldl Wrap x es) = [] @ Error x @ s" by auto
  then have "sublist (Error x) (Error (foldl Wrap x es))" unfolding sublist_def by blast
  with c show ?thesis by (auto intro: Contains_same)
qed

end
