(* ===== verification/Bytes_Codec.thy ===== *)
theory Bytes_Codec
  imports Xerrors
begin

text \<open>
  Byte strings and their text forms: \<open>src/types/bytes/hex_bytes.go\<close>, \<open>src/types/address.go\<close> and
  the block padding of \<open>src/types/crypto/crypto.go\<close> that wallet keys are encrypted with.
  A Go \<open>string\<close> or JSON text is a \<open>string\<close>, a \<open>[]byte\<close> is a list of 8-bit words. The decoders of
  \<open>encoding/hex\<close> and \<open>encoding/base64\<close> are written out.
\<close>

section \<open>Comparison\<close>

fun bytes_Compare :: "bytes \<Rightarrow> bytes \<Rightarrow> int" where
  "bytes_Compare [] [] = 0"
| "bytes_Compare [] (y # ys) = -1"
| "bytes_Compare (x # xs) [] = 1"
| "bytes_Compare (x # xs) (y # ys) =
     (if x < y then -1 else if y < x then 1 else bytes_Compare xs ys)"

definition HexBytes_Compare :: "bytes \<Rightarrow> bytes \<Rightarrow> int" where
  "HexBytes_Compare h1 h2 = bytes_Compare h1 h2"

definition bytes_Equal :: "bytes \<Rightarrow> bytes \<Rightarrow> bool" where
  "bytes_Equal h1 h2 \<longleftrightarrow> h1 = h2"

definition bytes_Copy :: "bytes \<Rightarrow> bytes" where
  "bytes_Copy s = take (length s) s"

definition Array20 :: "bytes \<Rightarrow> bytes" where
  "Array20 hb = (let n = min 20 (length hb) in take n hb @ replicate (20 - n) 0)"

definition Array32 :: "bytes \<Rightarrow> bytes" where
  "Array32 hb = (let n = min 32 (length hb) in take n hb @ replicate (32 - n) 0)"

lemma bytes_Compare_less [simp]: "bytes_Compare xs ys < 0 \<longleftrightarrow> xs < ys"
  by (induction xs ys rule: bytes_Compare.induct) auto

lemma bytes_Compare_eq [simp]: "bytes_Compare xs ys = 0 \<longleftrightarrow> xs = ys"
  by (induction xs ys rule: bytes_Compare.induct) auto

lemma bytes_Copy_id [simp]: "bytes_Copy s = s"
  by (simp add: bytes_Copy_def)

lemma length_Array [simp]: "length (Array20 hb) = 20" "length (Array32 hb) = 32"
  by (simp_all add: Array20_def Array32_def Let_def)

section \<open>Hexadecimal text\<close>

definition hextable :: string where
  "hextable = ''0123456789abcdef''"

definition hex_EncodeToString :: "bytes \<Rightarrow> string" where
  "hex_EncodeToString bs =
     concat (map (\<lambda>b. [hextable ! (unat b div 16), hextable ! (unat b mod 16)]) bs)"

definition fromHexChar :: "char \<Rightarrow> nat option" where
  "fromHexChar c = (let n = of_char c :: nat in
     if 48 \<le> n \<and> n \<le> 57 then Some (n - 48)
     else if 97 \<le> n \<and> n \<le> 102 then Some (n - 97 + 10)
     else if 65 \<le> n \<and> n \<le> 70 then Some (n - 65 + 10)
     else None)"

fun hex_DecodeString :: "string \<Rightarrow> goerror + bytes" where
  "hex_DecodeString [] = Inr []"
| "hex_DecodeString [c] = (case fromHexChar c of
      None \<Rightarrow> Inl (EFmt ''encoding/hex: invalid byte'')
    | Some _ \<Rightarrow> Inl (EFmt ''encoding/hex: odd length hex string''))"
| "hex_DecodeString (c # d # s) =
     (case fromHexChar c of
        None \<Rightarrow> Inl (EFmt ''encoding/hex: invalid byte'')
      | Some a \<Rightarrow> (case fromHexChar d of
          None \<Rightarrow> Inl (EFmt ''encoding/hex: invalid byte'')
        | Some b \<Rightarrow> (case hex_DecodeString s of
            Inl e \<Rightarrow> Inl e
          | Inr r \<Rightarrow> Inr (word_of_nat (a * 16 + b) # r))))"

definition toUpper :: "char \<Rightarrow> char" where
  "toUpper c = (let n = of_char c :: nat in
     if 97 \<le> n \<and> n \<le> 122 then char_of (n - 32) else c)"

definition HexBytes_String :: "bytes \<Rightarrow> string" where
  "HexBytes_String hb = map toUpper (hex_EncodeToString hb)"

definition HexBytes_MarshalJSON :: "bytes \<Rightarrow> string" where
  "HexBytes_MarshalJSON hb =
     (let s = map toUpper (hex_EncodeToString hb) in [CHR 0x22] @ s @ [CHR 0x22])"

definition trim_0x :: "string \<Rightarrow> string" where
  "trim_0x s = (if take 2 s = ''0x'' then drop 2 s else s)"

definition isHex :: "string \<Rightarrow> bool" where
  "isHex s = (if length s mod 2 \<noteq> 0 then False
     else list_all (\<lambda>c. fromHexChar c \<noteq> None) (trim_0x s))"

definition b64_val :: "char \<Rightarrow> nat option" where
  "b64_val c = (let n = of_char c :: nat in
     if 65 \<le> n \<and> n \<le> 90 then Some (n - 65)
     else if 97 \<le> n \<and> n \<le> 122 then Some (n - 97 + 26)
     else if 48 \<le> n \<and> n \<le> 57 then Some (n - 48 + 52)
     else if n = 43 then Some 62
     else if n = 47 then Some 63
     else None)"

text \<open>Decoding quanta of four characters; only the last one may be padded with \<open>=\<close>.\<close>

fun b64_quanta :: "string \<Rightarrow> bytes option" where
  "b64_quanta [] = Some []"
| "b64_quanta (a # b # c # d # s) =
     (case (b64_val a, b64_val b) of
        (Some va, Some vb) \<Rightarrow>
          let b1 = word_of_nat (va * 4 + vb div 16) in
          if d = CHR ''='' \<and> c = CHR ''='' \<and> s = [] then Some [b1]
          else (case b64_val c of
             None \<Rightarrow> None
           | Some vc \<Rightarrow>
               let b2 = word_of_nat ((vb mod 16) * 16 + vc div 4) in
               if d = CHR ''='' \<and> s = [] then Some [b1, b2]
               else (case (b64_val d, b64_quanta s) of
                  (Some vd, Some r) \<Rightarrow> Some (b1 # b2 # word_of_nat ((vc mod 4) * 64 + vd) # r)
                | _ \<Rightarrow> None))
      | _ \<Rightarrow> None)"
| "b64_quanta _ = None"

definition base64_DecodeString :: "string \<Rightarrow> goerror + bytes" where
  "base64_DecodeString s =
     (case b64_quanta (filter (\<lambda>c. c \<noteq> CHR 0x0A \<and> c \<noteq> CHR 0x0D) s) of
        None \<Rightarrow> Inl (EFmt ''illegal base64 data'') | Some r \<Rightarrow> Inr r)"

definition HexBytes_UnmarshalJSON :: "string \<Rightarrow> goerror + bytes" where
  "HexBytes_UnmarshalJSON data =
     (if length data < 2 \<or> hd data \<noteq> CHR 0x22 \<or> last data \<noteq> CHR 0x22
      then Inl (EFmt ''invalid hex string'')
      else let val = take (length data - 2) (drop 1 data) in
        if isHex val then hex_DecodeString (trim_0x val) else base64_DecodeString val)"

lemma all_nibbles: "\<forall>n < 16. fromHexChar (toUpper (hextable ! n)) = Some n"
proof -
  have 16: "(16 :: nat) = Suc (Suc (Suc (Suc (Suc (Suc (Suc (Suc (Suc (Suc (Suc (Suc
      (Suc (Suc (Suc (Suc 0)))))))))))))))" by simp
  show ?thesis
    unfolding 16 All_less_Suc by (simp add: toUpper_def fromHexChar_def hextable_def)
qed

lemma nibble_bounds: "unat (b :: byte) div 16 < 16" "unat b mod 16 < 16"
proof -
  have "unat b < 256" using unsigned_less[of b, where ?'a = nat] by simp
  then show "unat b div 16 < 16" by simp
qed simp

lemmas nibble_simps =
  all_nibbles[rule_format, OF nibble_bounds(1)]
  all_nibbles[rule_format, OF nibble_bounds(2)]

lemma hex_Decode_upper: "hex_DecodeString (map toUpper (hex_EncodeToString bs)) = Inr bs"
proof (induction bs)
  case Nil
  then show ?case by (simp add: hex_EncodeToString_def)
next
  case (Cons b bs)
  have "word_of_nat (unat b div 16 * 16 + unat b mod 16) = (b :: byte)"
    by (simp add: div_mult_mod_eq)
  with Cons show ?case by (simp add: hex_EncodeToString_def nibble_simps)
qed

lemma upper_hex_chars: "list_all (\<lambda>c. fromHexChar c \<noteq> None) (map toUpper (hex_EncodeToString bs))"
  by (induction bs) (auto simp: hex_EncodeToString_def nibble_simps)

lemma upper_hex_no_0x: "trim_0x (map toUpper (hex_EncodeToString bs)) = map toUpper (hex_EncodeToString bs)"
proof (cases bs)
  case (Cons b r)
  have "toUpper (hextable ! (unat b mod 16)) \<noteq> CHR ''x''"
    using nibble_simps(2)[of b] by (auto simp: fromHexChar_def)
  then show ?thesis using Cons by (simp add: trim_0x_def hex_EncodeToString_def)
qed (simp add: trim_0x_def hex_EncodeToString_def)

lemma length_hex: "length (hex_EncodeToString bs) = 2 * length bs"
  by (induction bs) (auto simp: hex_EncodeToString_def)

text \<open>
  JSON round trip of byte strings: decoding the JSON text that \<open>HexBytes.MarshalJSON\<close>
  writes gives the same bytes back, for every byte string: the quoted
  upper-case hexadecimal text is never mistaken for base64.
\<close>

theorem HexBytes_json_roundtrip:
  "HexBytes_UnmarshalJSON (HexBytes_MarshalJSON hb) = Inr hb"
proof -
  let ?s = "map toUpper (hex_EncodeToString hb)"
  have "isHex ?s"
    by (simp only: isHex_def upper_hex_no_0x upper_hex_chars) (simp add: length_hex)
  then show ?thesis
    by (simp add: HexBytes_UnmarshalJSON_def HexBytes_MarshalJSON_def Let_def upper_hex_no_0x
        hex_Decode_upper)
qed

section \<open>Addresses\<close>

definition AddrSize :: nat where "AddrSize = 20"

definition ZeroAddress :: addr where
  "ZeroAddress = replicate AddrSize 0"

definition IsZeroAddress :: "addr \<Rightarrow> bool" where
  "IsZeroAddress a = list_all (\<lambda>b. b = 0) a"

definition DeadAddress :: addr where
  "DeadAddress = (case hex_DecodeString ''000000000000000000000000000000000000DEAD'' of
     Inl e \<Rightarrow> [] | Inr r \<Rightarrow> r)"

definition HexToAddress :: "string \<Rightarrow> xerror + addr" where
  "HexToAddress s = (case hex_DecodeString (trim_0x s) of
     Inl e \<Rightarrow> Inl (NewOrdinary (goError e))
   | Inr bz \<Rightarrow> if length bz \<noteq> AddrSize
       then Inl (NewOrdinary ''error of address length: address length should be 20 bytes'')
       else Inr bz)"

lemma IsZeroAddress_iff: "length a = AddrSize \<Longrightarrow> IsZeroAddress a \<longleftrightarrow> a = ZeroAddress"
  by (auto simp: IsZeroAddress_def ZeroAddress_def list_all_iff intro: replicate_eqI)

lemma HexToAddress_String: "length a = AddrSize \<Longrightarrow> HexToAddress (HexBytes_String a) = Inr a"
  by (simp add: HexToAddress_def HexBytes_String_def upper_hex_no_0x hex_Decode_upper)

section \<open>Block padding\<close>

datatype pad_result = PadOk bytes | PadErr xerror | PadPanic

definition ErrInvalidBlockSize :: xerror where
  "ErrInvalidBlockSize = NewOrdinary ''invalid blocksize''"
definition ErrInvalidPKCS5Data :: xerror where
  "ErrInvalidPKCS5Data = NewOrdinary ''invalid PKCS5 data (empty or not padded)''"
definition ErrInvalidPKCS5Padding :: xerror where
  "ErrInvalidPKCS5Padding = NewOrdinary ''invalid PKCS5 padding on input''"
definition ErrInvalidPKCS7Data :: xerror where
  "ErrInvalidPKCS7Data = NewOrdinary ''invalid PKCS7 data (empty or not padded)''"
definition ErrInvalidPKCS7Padding :: xerror where
  "ErrInvalidPKCS7Padding = NewOrdinary ''invalid PKCS7 padding on input''"

text \<open>
  \<open>PKCS5Padding\<close> accepts every multiple of 8, also 0 (its remainder then divides by zero) and
  negative ones (\<open>bytes.Repeat\<close> then panics on the negative count).
\<close>

definition PKCS5Padding :: "bytes \<Rightarrow> int \<Rightarrow> pad_result" where
  "PKCS5Padding b blocksize =
     (if blocksize smod 8 \<noteq> 0 then PadErr ErrInvalidBlockSize
      else if b = [] then PadErr ErrInvalidPKCS5Data
      else if blocksize \<le> 0 then PadPanic
      else let pad = blocksize - int (length b) mod blocksize in
        PadOk (b @ replicate (nat pad) (word_of_int pad)))"

definition PKCS5UnPadding :: "bytes \<Rightarrow> int \<Rightarrow> pad_result" where
  "PKCS5UnPadding b blocksize =
     (if blocksize smod 8 \<noteq> 0 then PadErr ErrInvalidBlockSize
      else if b = [] then PadErr ErrInvalidPKCS5Data
      else if length b mod 8 \<noteq> 0 then PadErr ErrInvalidPKCS5Data
      else let pad = last b; padlen = unat pad in
        if padlen = 0 \<or> length b < padlen \<or> int padlen > blocksize then PadErr ErrInvalidPKCS5Data
        else if list_ex (\<lambda>c. c \<noteq> pad) (drop (length b - padlen) b) then PadErr ErrInvalidPKCS5Padding
        else PadOk (take (length b - padlen) b))"

definition PKCS7Padding :: "bytes \<Rightarrow> int \<Rightarrow> pad_result" where
  "PKCS7Padding b blocksize =
     (if blocksize \<le> 0 then PadErr ErrInvalidBlockSize
      else if b = [] then PadErr ErrInvalidPKCS7Data
      else let pad = blocksize - int (length b) mod blocksize in
        PadOk (b @ replicate (nat pad) (word_of_int pad)))"

definition PKCS7UnPadding :: "bytes \<Rightarrow> int \<Rightarrow> pad_result" where
  "PKCS7UnPadding b blocksize =
     (if blocksize \<le> 0 then PadErr ErrInvalidBlockSize
      else if b = [] then PadErr ErrInvalidPKCS7Data
      else if int (length b) mod blocksize \<noteq> 0 then PadErr ErrInvalidPKCS7Padding
      else let c = last b; n = unat c in
        if n = 0 \<or> n > length b \<or> int n > blocksize then PadErr ErrInvalidPKCS7Padding
        else if list_ex (\<lambda>d. d \<noteq> c) (drop (length b - n) b) then PadErr ErrInvalidPKCS7Padding
        else PadOk (take (length b - n) b))"

lemma pad_bounds:
  fixes n :: int and l :: nat
  assumes "0 < n" "n < 256"
  defines "p \<equiv> n - int l mod n"
  shows "0 < p" "p \<le> n" "unat (word_of_int p :: byte) = nat p" "(int l + p) mod n = 0"
proof -
  have m: "0 \<le> int l mod n" "int l mod n < n" using assms(1) by auto
  then show "0 < p" "p \<le> n" by (auto simp: p_def)
  with assms(2) have "p mod 256 = p" by simp
  then show "unat (word_of_int p :: byte) = nat p"
    by (simp add: unsigned_of_int take_bit_eq_mod)
  have "(int l + p) mod n = (int l - int l mod n + n) mod n" by (simp add: p_def algebra_simps)
  also have "\<dots> = 0" by (simp add: minus_mod_eq_mult_div)
  finally show "(int l + p) mod n = 0" .
qed

lemma last_append_replicate: "0 < k \<Longrightarrow> last (b @ replicate k c) = c"
  by (cases k) (auto simp: last_append)

lemma length_mod8:
  fixes n :: int
  assumes "0 < n" "n smod 8 = 0" "(int l + int k) mod n = 0"
  shows "(l + k) mod 8 = 0"
proof -
  have "8 dvd n" using assms(1,2) by (simp add: signed_modulo_int_def signed_divide_int_def minus_mult_div_eq_mod dvd_eq_mod_eq_0)
  moreover have "n dvd int (l + k)" using assms(3) by (simp add: dvd_eq_mod_eq_0)
  ultimately have "8 dvd int (l + k)" by (rule dvd_trans)
  then show ?thesis by presburger
qed

lemma unpad_padded:
  assumes "0 < k" "unat c = k" "int k \<le> n" "0 < n" "(int (length b) + int k) mod n = 0"
  shows "PKCS7UnPadding (b @ replicate k c) n = PadOk b"
    and "n smod 8 = 0 \<Longrightarrow> PKCS5UnPadding (b @ replicate k c) n = PadOk b"
proof -
  note last = last_append_replicate[OF assms(1), of b c]
  have n: "\<not> n \<le> 0" "k \<noteq> 0" "\<not> n < int k" using assms by auto
  show "PKCS7UnPadding (b @ replicate k c) n = PadOk b"
    unfolding PKCS7UnPadding_def last Let_def using n assms(2,5) by (simp add: list_ex_iff)
  show "PKCS5UnPadding (b @ replicate k c) n = PadOk b" if "n smod 8 = 0"
    unfolding PKCS5UnPadding_def last Let_def
    using n assms(2) that length_mod8[OF assms(4) that assms(5)] by (simp add: list_ex_iff)
qed

text \<open>
  Padding round trip: for every non-empty plaintext, and every block size from 1 to 255
  (PKCS7) or every multiple of 8 in that range (PKCS5), removing the padding that was added
  gives the plaintext back.
\<close>

theorem padding_roundtrip:
  assumes "b \<noteq> []" "0 < n" "n < 256"
  shows "(\<exists>q. PKCS7Padding b n = PadOk q \<and> PKCS7UnPadding q n = PadOk b) \<and>
    (n smod 8 = 0 \<longrightarrow> (\<exists>q. PKCS5Padding b n = PadOk q \<and> PKCS5UnPadding q n = PadOk b))"
proof -
  define p where "p = n - int (length b) mod n"
  note pb = pad_bounds[OF assms(2,3), of "length b", folded p_def]
  have "0 < nat p" "int (nat p) \<le> n" "(int (length b) + int (nat p)) mod n = 0" using pb by auto
  note un = unpad_padded[OF this(1) pb(3) this(2) assms(2) this(3)]
  show ?thesis
    using assms un by (simp add: PKCS7Padding_def PKCS5Padding_def Let_def p_def[symmetric])
qed

theorem padding_roundtrip_witness:
  "(\<exists>q. PKCS7Padding [1, 2, 3] 16 = PadOk q \<and> PKCS7UnPadding q 16 = PadOk [1, 2, 3]) \<and>
   (\<exists>q. PKCS5Padding [1, 2, 3] 16 = PadOk q \<and> PKCS5UnPadding q 16 = PadOk [1, 2, 3])"
  using padding_roundtrip[of "[1, 2, 3]" 16] by (simp add: signed_modulo_int_def signed_divide_int_def)

end
