(* ===== verification/Units.thy ===== *)
theory Units
  imports Xerrors
begin

text \<open>
  Coin amounts and voting power: \<open>src/types/unit.go\<close> and \<open>src/libs/utils.go\<close>. An amount is a
  256-bit word counted in grans, one coin (and one unit of voting power) is \<open>10^18\<close> grans, and
  power is an \<open>int64\<close>, read here as an integer whose conversions wrap explicitly.
\<close>

section \<open>Minimum and maximum\<close>

definition MaxInt64 :: "int \<Rightarrow> int \<Rightarrow> int" where
  "MaxInt64 a b = (if a > b then a else b)"

definition MinInt64 :: "int \<Rightarrow> int \<Rightarrow> int" where
  "MinInt64 a b = (if a < b then a else b)"

lemma MaxInt64_max [simp]: "MaxInt64 a b = max a b"
  by (auto simp: MaxInt64_def)

lemma MinInt64_min [simp]: "MinInt64 a b = min a b"
  by (auto simp: MinInt64_def)

section \<open>The 256-bit operations the sources use\<close>

definition NewInt :: "int \<Rightarrow> uint256" where
  "NewInt n = word_of_int (u64 n)"

definition Uint64 :: "uint256 \<Rightarrow> int" where
  "Uint64 x = uint x mod 2 ^ 64"

definition Sign :: "uint256 \<Rightarrow> int" where
  "Sign x = sgn (sint x)"

definition IsUint64 :: "uint256 \<Rightarrow> bool" where
  "IsUint64 x \<longleftrightarrow> uint x < 2 ^ 64"

section \<open>Amounts and power\<close>

definition amountPerPower :: uint256 where
  "amountPerPower = NewInt 1000000000000000000"

definition oneCoinGrans :: uint256 where
  "oneCoinGrans = NewInt 1000000000000000000"

definition ToGrans :: "int \<Rightarrow> uint256" where
  "ToGrans n = NewInt n * oneCoinGrans"

definition FromGransRem :: "uint256 \<Rightarrow> int \<times> int" where
  "FromGransRem grans =
     (i64 (Uint64 (grans div oneCoinGrans)), i64 (Uint64 (grans mod oneCoinGrans)))"

definition FromGrans :: "uint256 \<Rightarrow> int" where
  "FromGrans grans = i64 (Uint64 (grans div oneCoinGrans))"

definition AmountToPower :: "uint256 \<Rightarrow> int res" where
  "AmountToPower amt =
     (let vp = i64 (Uint64 (amt div amountPerPower)) in
      if vp < 0 then Inl (Wrapf ErrOverFlow ''voting power is converted as negative'')
      else Inr vp)"

definition PowerToAmount :: "int \<Rightarrow> uint256" where
  "PowerToAmount pw = NewInt pw * amountPerPower"

definition AmountPerPower :: uint256 where
  "AmountPerPower = amountPerPower"

definition GasToFee :: "int \<Rightarrow> uint256 \<Rightarrow> uint256" where
  "GasToFee gas price = NewInt gas * price"

definition FeeToGas :: "uint256 \<Rightarrow> uint256 \<Rightarrow> int" where
  "FeeToGas fee price = i64 (Uint64 (fee div price))"

lemma amountPerPower_val: "amountPerPower = 1000000000000000000"
  by (simp add: amountPerPower_def NewInt_def u64_def)

lemma uint_word_of_int_lt: "0 \<le> n \<Longrightarrow> n < 2 ^ 256 \<Longrightarrow> uint (word_of_int n :: uint256) = n"
  by (simp add: unsigned_of_int take_bit_eq_mod)

lemma uint_NewInt: "uint (NewInt n) = u64 n"
proof -
  have "0 \<le> u64 n" "u64 n < 2 ^ 64" by (auto simp: u64_def)
  then show ?thesis unfolding NewInt_def by (intro uint_word_of_int_lt) auto
qed

lemma u64_id: "0 \<le> n \<Longrightarrow> n < 2 ^ 64 \<Longrightarrow> u64 n = n"
  by (simp add: u64_def)

lemma uint_mult_lt:
  fixes a b :: uint256
  assumes "uint a * uint b < 2 ^ 256"
  shows "uint (a * b) = uint a * uint b"
  using assms by (simp add: uint_word_ariths)

lemma uint_add_lt:
  fixes a b :: uint256
  assumes "uint a + uint b < 2 ^ 256"
  shows "uint (a + b) = uint a + uint b"
  using assms by (simp add: uint_word_ariths)

lemma uint_PowerToAmount:
  assumes "0 \<le> p" "p < 2 ^ 64"
  shows "uint (PowerToAmount p) = p * 10 ^ 18"
proof -
  have u: "uint (NewInt p) = p" "uint amountPerPower = 10 ^ 18"
    using assms by (simp_all add: uint_NewInt u64_id amountPerPower_def)
  have "p * 10 ^ 18 < 2 ^ 64 * 10 ^ 18" using assms(2) by simp
  also have "\<dots> < (2 :: int) ^ 256" by simp
  finally have "uint (NewInt p) * uint amountPerPower < 2 ^ 256" unfolding u .
  from uint_mult_lt[OF this] show ?thesis unfolding PowerToAmount_def u .
qed

lemma PowerToAmount_add: "0 \<le> p \<Longrightarrow> 0 \<le> q \<Longrightarrow> p + q < 2 ^ 64 \<Longrightarrow>
    PowerToAmount (p + q) = PowerToAmount p + PowerToAmount q"
  by (simp add: PowerToAmount_def NewInt_def u64_id distrib_right)

lemma PowerToAmount_int: "0 \<le> p \<Longrightarrow> p < 2 ^ 64 \<Longrightarrow> PowerToAmount p = of_int p * amountPerPower"
  by (simp add: PowerToAmount_def NewInt_def u64_id)

lemma uint_div_App: "uint (amt div amountPerPower) = uint amt div 10 ^ 18"
  by (simp add: uint_div_distrib uint_NewInt u64_id amountPerPower_def)

lemma AmountToPower_eq: "AmountToPower amt =
   (let q = uint amt div 10 ^ 18 mod 2 ^ 64 in
    if q < 2 ^ 63 then Inr q else Inl (Wrapf ErrOverFlow ''voting power is converted as negative''))"
proof -
  define q where "q = uint amt div 10 ^ 18 mod 2 ^ 64"
  have q: "0 \<le> q" "q < 2 ^ 64" by (auto simp: q_def)
  then have "i64 q = (if q < 2 ^ 63 then q else q - 2 ^ 64)"
    using mod_add_self2[of "q - 2 ^ 63" "2 ^ 64"]
    by (cases "q < 2 ^ 63") (auto simp: i64_def mod_pos_pos_trivial add.commute)
  with q show ?thesis
    unfolding AmountToPower_def Uint64_def uint_div_App q_def[symmetric] Let_def by simp
qed

text \<open>
  (C24) Staking amounts and power convert exactly: every \<open>int64\<close> power that is not negative survives
  \<open>PowerToAmount\<close> followed by \<open>AmountToPower\<close>, its amount is the exact product with \<open>10^18\<close>, and
  \<open>AmountToPower\<close> rounds every amount below \<open>2^63 * 10^18\<close> down to whole coins.
\<close>

theorem power_amount_roundtrip:
  assumes "0 \<le> p" "p < 2 ^ 63"
  shows "AmountToPower (PowerToAmount p) = Inr p \<and> uint (PowerToAmount p) = p * 10 ^ 18 \<and>
    (\<forall>amt. p * 10 ^ 18 \<le> uint amt \<and> uint amt < (p + 1) * 10 ^ 18 \<longrightarrow> AmountToPower amt = Inr p)"
proof -
  have u: "uint (PowerToAmount p) = p * 10 ^ 18" using assms by (intro uint_PowerToAmount) auto
  have "AmountToPower amt = Inr p" if "p * 10 ^ 18 \<le> uint amt" "uint amt < (p + 1) * 10 ^ 18" for amt
  proof -
    have "uint amt div 10 ^ 18 = p" using that by (intro int_div_pos_eq[where r = "uint amt - p * 10 ^ 18"]) auto
    then show ?thesis using assms by (simp add: AmountToPower_eq)
  qed
  with u show ?thesis by auto
qed

theorem power_amount_roundtrip_witness:
  "AmountToPower (PowerToAmount 7) = Inr 7 \<and> uint (PowerToAmount 7) = 7 * 10 ^ 18 \<and>
   AmountToPower 7500000000000000000 = Inr 7"
  using power_amount_roundtrip[of 7] by simp

text \<open>
  (C25) What the overflow check of \<open>AmountToPower\<close> sees: the result depends only on the low 64 bits of
  the whole-coin count, so an amount is refused exactly when bit 63 of that count is set. Adding
  \<open>2^64\<close> coins to an amount does not change the power it is converted to.
\<close>

theorem AmountToPower_low_bits:
  "(AmountToPower amt = Inr p \<longleftrightarrow> p = uint amt div 10 ^ 18 mod 2 ^ 64 \<and> \<not> bit (uint amt div 10 ^ 18) 63) \<and>
   AmountToPower (2 ^ 64 * amountPerPower + 5 * amountPerPower) = Inr 5"
proof
  have "bit x 63 \<longleftrightarrow> \<not> x mod 2 ^ 64 < 2 ^ 63" for x :: int
  proof -
    have "x mod 2 ^ 64 = 2 ^ 63 * (x div 2 ^ 63 mod 2) + x mod 2 ^ 63"
      using zmod_zmult2_eq[of 2 x "2 ^ 63"] by simp
    moreover have "0 \<le> x mod 2 ^ 63" "x mod 2 ^ 63 < 2 ^ 63" by simp_all
    moreover have "x div 2 ^ 63 mod 2 = (if bit x 63 then 1 else 0)"
      unfolding bit_iff_odd mod2_eq_if by argo
    ultimately show ?thesis by (cases "bit x 63") simp_all
  qed
  then show "AmountToPower amt = Inr p \<longleftrightarrow>
      p = uint amt div 10 ^ 18 mod 2 ^ 64 \<and> \<not> bit (uint amt div 10 ^ 18) 63"
    by (auto simp: AmountToPower_eq Let_def)
  show "AmountToPower (2 ^ 64 * amountPerPower + 5 * amountPerPower) = Inr 5"
    by (simp add: AmountToPower_eq amountPerPower_val)
qed

end
