(* ===== verification/Ledger_Keys.thy ===== *)
theory Ledger_Keys
  imports Bytes_Codec
begin

text \<open>
  The keys of the state ledgers: \<open>src/ledger/v1/ledger_keys.go\<close>, and the \<open>BlockCount\<close> ledger item
  of \<open>src/ctrlers/vpower/ctrler_vpower.go\<close>, whose encoding is the big-endian form the frozen
  voting power keys also use.
\<close>

section \<open>Big-endian 64-bit integers\<close>

definition PutUint64 :: "int \<Rightarrow> bytes" where
  "PutUint64 v = map (\<lambda>i. word_of_int (u64 v div 2 ^ (8 * (7 - i)))) [0..<8]"

definition GetUint64 :: "bytes \<Rightarrow> int option" where
  "GetUint64 b = (if length b < 8 then None
     else Some (foldl (\<lambda>acc x. acc * 256 + uint x) 0 (take 8 b)))"

lemma length_PutUint64 [simp]: "length (PutUint64 v) = 8"
  by (simp add: PutUint64_def)

lemma uint_byte: "uint (word_of_int x :: byte) = x mod 256"
  by (simp add: unsigned_of_int take_bit_eq_mod)

lemma horner_step: "(x :: int) div (256 * d) * 256 + x div d mod 256 = x div d"
proof -
  have "x div (256 * d) = x div d div 256"
    using zdiv_zmult2_eq[of 256 x d] by (simp only: mult.commute)
  then show ?thesis by (simp only: div_mult_mod_eq)
qed

lemma horner_bytes:
  fixes x :: int
  assumes "n \<le> m"
  shows "foldl (\<lambda>acc y. acc * 256 + uint y) (x div 2 ^ (8 * m))
      (map (\<lambda>i. word_of_int (x div 2 ^ (8 * i)) :: byte) (rev [n..<m])) = x div 2 ^ (8 * n)"
  using assms
proof (induction m)
  case 0
  then show ?case by simp
next
  case (Suc m)
  show ?case
  proof (cases "n = Suc m")
    case False
    have "(2 :: int) ^ (8 * Suc m) = 256 * 2 ^ (8 * m)" by (simp add: power_add)
    then have "x div 2 ^ (8 * Suc m) * 256 + uint (word_of_int (x div 2 ^ (8 * m)) :: byte) =
        x div 2 ^ (8 * m)"
      using horner_step[of x "2 ^ (8 * m)"] by (simp add: uint_byte)
    then show ?thesis using Suc False by simp
  qed simp
qed

lemma PutUint64_rev: "PutUint64 v = map (\<lambda>i. word_of_int (u64 v div 2 ^ (8 * i))) (rev [0..<8])"
  by (simp add: PutUint64_def upt_rec)

lemma GetUint64_Put: "GetUint64 (PutUint64 v @ r) = Some (u64 v)"
proof -
  have "u64 v div 2 ^ (8 * 8) = 0" by (simp add: u64_def)
  then show ?thesis
    using horner_bytes[of 0 8 "u64 v"] by (simp add: GetUint64_def PutUint64_rev)
qed

lemma PutUint64_inj: "PutUint64 v = PutUint64 w \<longleftrightarrow> u64 v = u64 w"
proof
  assume "PutUint64 v = PutUint64 w"
  then show "u64 v = u64 w" using GetUint64_Put[of v "[]"] GetUint64_Put[of w "[]"] by simp
qed (simp add: PutUint64_def)

lemma i64_u64: "i64 (u64 x) = i64 x"
proof (rule i64_eqI)
  have "u64 x mod 2 ^ 64 = x mod 2 ^ 64" by (simp add: u64_def)
  then show "(u64 x - x) mod 2 ^ 64 = 0" by (metis mod_diff_cong diff_self mod_0)
qed

lemma u64_in64_inj: "in64 v \<Longrightarrow> in64 w \<Longrightarrow> u64 v = u64 w \<longleftrightarrow> v = w"
  by (metis i64_u64 i64_id)

section \<open>Keys\<close>

type_synonym ledger_key = bytes

definition KeyPrefixAccount :: bytes where "KeyPrefixAccount = [0x00]"
definition KeyPrefixGovParams :: bytes where "KeyPrefixGovParams = [0x10]"
definition KeyPrefixProposal :: bytes where "KeyPrefixProposal = [0x11]"
definition KeyPrefixFrozenProp :: bytes where "KeyPrefixFrozenProp = [0x12]"
definition KeyPrefixDelegatee :: bytes where "KeyPrefixDelegatee = [0x20]"
definition KeyPrefixVPower :: bytes where "KeyPrefixVPower = [0x21]"
definition KeyPrefixFrozenVPower :: bytes where "KeyPrefixFrozenVPower = [0x22]"
definition KeyPrefixMissedBlockCount :: bytes where "KeyPrefixMissedBlockCount = [0x23]"
definition KeyPrefixTotalSupply :: bytes where "KeyPrefixTotalSupply = [0x30]"
definition KeyPrefixReward :: bytes where "KeyPrefixReward = [0x32]"

lemmas KeyPrefix_defs =
  KeyPrefixAccount_def KeyPrefixGovParams_def KeyPrefixProposal_def KeyPrefixFrozenProp_def
  KeyPrefixDelegatee_def KeyPrefixVPower_def KeyPrefixFrozenVPower_def
  KeyPrefixMissedBlockCount_def KeyPrefixTotalSupply_def KeyPrefixReward_def

definition LedgerKeyProposal :: "bytes \<Rightarrow> ledger_key" where
  "LedgerKeyProposal txhash = KeyPrefixProposal @ txhash"
definition LedgerKeyFrozenProp :: "bytes \<Rightarrow> ledger_key" where
  "LedgerKeyFrozenProp txhash = KeyPrefixFrozenProp @ txhash"
definition LedgerKeyAccount :: "addr \<Rightarrow> ledger_key" where
  "LedgerKeyAccount a = KeyPrefixAccount @ a"
definition LedgerKeyGovParams :: ledger_key where
  "LedgerKeyGovParams = KeyPrefixGovParams"
definition LedgerKeyVPower :: "addr \<Rightarrow> addr \<Rightarrow> ledger_key" where
  "LedgerKeyVPower frm to = KeyPrefixVPower @ frm @ to"
definition LedgerKeyDelegatee :: "addr \<Rightarrow> ledger_key" where
  "LedgerKeyDelegatee a = KeyPrefixDelegatee @ a"
definition LedgerKeyFrozenVPower :: "int \<Rightarrow> addr \<Rightarrow> ledger_key" where
  "LedgerKeyFrozenVPower h frm = KeyPrefixFrozenVPower @ PutUint64 h @ frm"
definition LedgerKeyMissedBlockCount :: "addr \<Rightarrow> ledger_key" where
  "LedgerKeyMissedBlockCount signer = KeyPrefixMissedBlockCount @ signer"
definition LedgerKeyTotalSupply :: ledger_key where
  "LedgerKeyTotalSupply = KeyPrefixTotalSupply @ map (\<lambda>c. word_of_nat (of_char c)) ''supply''"
definition LedgerKeyReward :: "addr \<Rightarrow> ledger_key" where
  "LedgerKeyReward own = KeyPrefixReward @ own"

definition UnwrapKeyPrefix :: "ledger_key \<Rightarrow> bytes option" where
  "UnwrapKeyPrefix key = (if key = [] then None else Some (drop 1 key))"

lemmas LedgerKey_defs = KeyPrefix_defs
  LedgerKeyProposal_def LedgerKeyFrozenProp_def LedgerKeyAccount_def LedgerKeyGovParams_def
  LedgerKeyVPower_def LedgerKeyDelegatee_def LedgerKeyFrozenVPower_def
  LedgerKeyMissedBlockCount_def LedgerKeyTotalSupply_def LedgerKeyReward_def

text \<open>
  What a key of the voting power ledger stands for. \<open>vpower_key\<close> is the key the code builds for
  it; two of them never collide.
\<close>

datatype vpower_id =
    DelegateeId addr
  | VPowerId addr addr
  | FrozenId int addr
  | MissedId addr

fun vpower_key :: "vpower_id \<Rightarrow> ledger_key" where
  "vpower_key (DelegateeId a) = LedgerKeyDelegatee a"
| "vpower_key (VPowerId frm to) = LedgerKeyVPower frm to"
| "vpower_key (FrozenId h frm) = LedgerKeyFrozenVPower h frm"
| "vpower_key (MissedId a) = LedgerKeyMissedBlockCount a"

fun vpower_id_ok :: "vpower_id \<Rightarrow> bool" where
  "vpower_id_ok (DelegateeId a) = True"
| "vpower_id_ok (VPowerId frm to) = (length frm = AddrSize)"
| "vpower_id_ok (FrozenId h frm) = in64 h"
| "vpower_id_ok (MissedId a) = True"



section \<open>The missed-block counter\<close>

type_synonym BlockCount = int

definition BlockCount_Encode :: "BlockCount \<Rightarrow> bytes" where
  "BlockCount_Encode c = PutUint64 c"

definition BlockCount_Decode :: "bytes \<Rightarrow> BlockCount option" where
  "BlockCount_Decode v = (case GetUint64 v of None \<Rightarrow> None | Some n \<Rightarrow> Some (i64 n))"

definition BlockCount_Add :: "BlockCount \<Rightarrow> BlockCount" where
  "BlockCount_Add c = i64 (c + 1)"

lemma BlockCount_roundtrip: "in64 c \<Longrightarrow> BlockCount_Decode (BlockCount_Encode c) = Some c"
proof -
  assume "in64 c"
  then show ?thesis
    using GetUint64_Put[of c "[]"] by (simp add: BlockCount_Decode_def BlockCount_Encode_def i64_u64)
qed

end
