(* ===== verification/Ledger.thy ===== *)
theory Ledger
  imports Ledger_Keys
begin

text \<open>
  The versioned key-value ledgers of \<open>src/ledger/v1\<close>: the revision list, the committed
  \<open>MutableLedger\<close>, the \<open>MemLedger\<close> used to check transactions, and the \<open>StateLedger\<close> that pairs
  them. The tree of \<open>cosmos/iavl\<close> is the field \<open>iavl_ops\<close> of a ledger, a record of its operations, and
  the item codec behind \<open>ILedgerItem\<close> and \<open>newItemFor\<close> is the field \<open>codec\<close>. What the ledgers rely on
  is stated by \<open>iavl_ok\<close> (the tree behaves as a map and its database does not fail) and by
  \<open>storable\<close> (an item decodes from its own, non-empty encoding). Objects are values here;
  the sharing of cached objects between callers is part of the account model.
\<close>

section \<open>Parameters\<close>

record ('t, 'i) iavl =
  iavl_Get :: "'t \<Rightarrow> ledger_key \<Rightarrow> goerror + bytes option"
  iavl_Set :: "'t \<Rightarrow> ledger_key \<Rightarrow> bytes \<Rightarrow> goerror + 't"
  iavl_Remove :: "'t \<Rightarrow> ledger_key \<Rightarrow> goerror + ('t \<times> bytes option \<times> bool)"
  iavl_Iterate :: "'t \<Rightarrow> goerror + (ledger_key \<times> bytes) list"
  iavl_Iterator :: "'t \<Rightarrow> bytes \<Rightarrow> bool \<Rightarrow> goerror + (ledger_key \<times> bytes) list"
  iavl_SaveVersion :: "'t \<Rightarrow> goerror + ('t \<times> bytes \<times> int)"
  iavl_Version :: "'t \<Rightarrow> int"
  iavl_GetImmutable :: "'t \<Rightarrow> int \<Rightarrow> goerror + 'i"
  immu_Get :: "'i option \<Rightarrow> ledger_key \<Rightarrow> goerror + bytes option"
  immu_Iterate :: "'i \<Rightarrow> goerror + (ledger_key \<times> bytes) list"
  immu_Iterator :: "'i \<Rightarrow> bytes \<Rightarrow> bool \<Rightarrow> goerror + (ledger_key \<times> bytes) list"

record 'a item_codec =
  Encode :: "'a \<Rightarrow> bytes res"
  Decode :: "ledger_key \<Rightarrow> bytes \<Rightarrow> 'a res"

type_synonym ('b, 'a) iter_cb = "'b \<Rightarrow> ledger_key \<Rightarrow> 'a \<Rightarrow> 'b \<times> xerror option"

section \<open>Revision list\<close>

type_synonym revision_list = "(ledger_key \<times> bytes option) list"

definition revisionList_set :: "revision_list \<Rightarrow> ledger_key \<Rightarrow> bytes option \<Rightarrow> revision_list" where
  "revisionList_set revs key val = revs @ [(key, val)]"

definition revisionList_snapshot :: "revision_list \<Rightarrow> nat" where
  "revisionList_snapshot revs = length revs"

definition revisionList_revert :: "revision_list \<Rightarrow> nat \<Rightarrow> revision_list" where
  "revisionList_revert revs snap = take snap revs"

text \<open>\<open>reset\<close> has a value receiver: it truncates a copy of the header and leaves the list as it was.\<close>

definition revisionList_reset :: "revision_list \<Rightarrow> revision_list" where
  "revisionList_reset revs = revs"

text \<open>\<open>bytes.Compare\<close> does not distinguish \<open>nil\<close> from an empty slice.\<close>

definition nil_bytes :: "bytes option \<Rightarrow> bytes" where
  "nil_bytes v = (case v of None \<Rightarrow> [] | Some bz \<Rightarrow> bz)"

definition HasPrefix :: "bytes \<Rightarrow> bytes \<Rightarrow> bool" where
  "HasPrefix s pfx = (take (length pfx) s = pfx)"

section \<open>Iteration\<close>

fun iterate_items :: "'a item_codec \<Rightarrow> (ledger_key \<times> bytes) list \<Rightarrow> ('b, 'a) iter_cb \<Rightarrow> 'b \<Rightarrow> 'b \<times> xerror option"
where
  "iterate_items cd [] cb acc = (acc, None)"
| "iterate_items cd ((key, value) # es) cb acc =
     (case Decode cd key value of
        Inl xerr \<Rightarrow> (acc, Some xerr)
      | Inr item \<Rightarrow> (case cb acc key item of
          (acc', Some xerr) \<Rightarrow> (acc', Some xerr)
        | (acc', None) \<Rightarrow> iterate_items cd es cb acc'))"

fun seek_items :: "'a item_codec \<Rightarrow> bytes \<Rightarrow> (ledger_key \<times> bytes) list \<Rightarrow> ('b, 'a) iter_cb \<Rightarrow> 'b \<Rightarrow> 'b \<times> xerror option"
where
  "seek_items cd pfx [] cb acc = (acc, None)"
| "seek_items cd pfx ((key, value) # es) cb acc =
     (if \<not> HasPrefix key pfx then (acc, None)
      else case Decode cd key value of
        Inl xerr \<Rightarrow> (acc, Some xerr)
      | Inr item \<Rightarrow> (case cb acc key item of
          (acc', Some xerr) \<Rightarrow> (acc', Some xerr)
        | (acc', None) \<Rightarrow> seek_items cd pfx es cb acc'))"

section \<open>MutableLedger\<close>

record ('t, 'i, 'a) MutableLedger =
  iavl_ops :: "('t, 'i) iavl"
  codec :: "'a item_codec"
  tree :: 't
  revisions :: revision_list
  cachedObjs :: "ledger_key \<rightharpoonup> 'a"

definition NewMutableLedger :: "('t, 'i) iavl \<Rightarrow> 'a item_codec \<Rightarrow> goerror + 't \<Rightarrow> ('t, 'i, 'a) MutableLedger res" where
  "NewMutableLedger iv cd loaded = (case loaded of
     Inl err \<Rightarrow> Inl (XErr ErrCodeOrdinary ''tree's LoadVersion failed'' (Some err))
   | Inr t \<Rightarrow> Inr \<lparr>iavl_ops = iv, codec = cd, tree = t, revisions = [], cachedObjs = Map.empty\<rparr>)"

definition MutableLedger_get :: "('t, 'i, 'a) MutableLedger \<Rightarrow> ledger_key \<Rightarrow> 'a res" where
  "MutableLedger_get l key = (case iavl_Get (iavl_ops l) (tree l) key of
     Inl err \<Rightarrow> Inl (NewOrdinary (goError err))
   | Inr None \<Rightarrow> Inl ErrNotFoundResult
   | Inr (Some bz) \<Rightarrow> Decode (codec l) key bz)"

definition MutableLedger_Get ::
  "('t, 'i, 'a) MutableLedger \<Rightarrow> ledger_key \<Rightarrow> ('t, 'i, 'a) MutableLedger \<times> 'a res" where
  "MutableLedger_Get l key = (case cachedObjs l key of
     Some obj \<Rightarrow> (l, Inr obj)
   | None \<Rightarrow> (case MutableLedger_get l key of
       Inl xerr \<Rightarrow> (l, Inl xerr)
     | Inr item \<Rightarrow> (l\<lparr>cachedObjs := (cachedObjs l)(key \<mapsto> item)\<rparr>, Inr item)))"

definition MutableLedger_Iterate ::
  "('t, 'i, 'a) MutableLedger \<Rightarrow> ('b, 'a) iter_cb \<Rightarrow> 'b \<Rightarrow> 'b \<times> xerror option" where
  "MutableLedger_Iterate l cb acc = (case iavl_Iterate (iavl_ops l) (tree l) of
     Inl err \<Rightarrow> (acc, Some (NewOrdinary (goError err)))
   | Inr es \<Rightarrow> iterate_items (codec l) es cb acc)"

definition MutableLedger_Seek ::
  "('t, 'i, 'a) MutableLedger \<Rightarrow> bytes \<Rightarrow> bool \<Rightarrow> ('b, 'a) iter_cb \<Rightarrow> 'b \<Rightarrow> 'b \<times> xerror option" where
  "MutableLedger_Seek l pfx ascending cb acc =
     (case iavl_Iterator (iavl_ops l) (tree l) pfx ascending of
        Inl err \<Rightarrow> (acc, Some (NewOrdinary (goError err)))
      | Inr es \<Rightarrow> seek_items (codec l) pfx es cb acc)"

definition MutableLedger_set ::
  "('t, 'i, 'a) MutableLedger \<Rightarrow> ledger_key \<Rightarrow> 'a \<Rightarrow> ('t, 'i, 'a) MutableLedger \<times> xerror option" where
  "MutableLedger_set l key item = (case iavl_Get (iavl_ops l) (tree l) key of
     Inl err \<Rightarrow> (l, Some (NewOrdinary (goError err)))
   | Inr oldVal \<Rightarrow> (case Encode (codec l) item of
       Inl xerr \<Rightarrow> (l, Some xerr)
     | Inr newVal \<Rightarrow> (case iavl_Set (iavl_ops l) (tree l) key newVal of
         Inl err \<Rightarrow> (l, Some (NewOrdinary (goError err)))
       | Inr t \<Rightarrow>
           (if bytes_Compare (nil_bytes oldVal) newVal \<noteq> 0
            then (l\<lparr>tree := t, revisions := revisionList_set (revisions l) key oldVal\<rparr>, None)
            else (l\<lparr>tree := t\<rparr>, None)))))"

definition MutableLedger_Set ::
  "('t, 'i, 'a) MutableLedger \<Rightarrow> ledger_key \<Rightarrow> 'a \<Rightarrow> ('t, 'i, 'a) MutableLedger \<times> xerror option" where
  "MutableLedger_Set l key item = (case MutableLedger_set l key item of
     (l', Some xerr) \<Rightarrow> (l', Some xerr)
   | (l', None) \<Rightarrow> (l'\<lparr>cachedObjs := (cachedObjs l')(key \<mapsto> item)\<rparr>, None))"

definition MutableLedger_Del ::
  "('t, 'i, 'a) MutableLedger \<Rightarrow> ledger_key \<Rightarrow> ('t, 'i, 'a) MutableLedger \<times> xerror option" where
  "MutableLedger_Del l key = (case iavl_Remove (iavl_ops l) (tree l) key of
     Inl err \<Rightarrow> (l, Some (NewOrdinary (goError err)))
   | Inr (t, oldVal, removed) \<Rightarrow>
       (l\<lparr>tree := t,
          revisions := (if removed then revisionList_set (revisions l) key oldVal else revisions l),
          cachedObjs := (cachedObjs l)(key := None)\<rparr>, None))"

definition MutableLedger_Snapshot :: "('t, 'i, 'a) MutableLedger \<Rightarrow> nat" where
  "MutableLedger_Snapshot l = revisionList_snapshot (revisions l)"

fun MutableLedger_restore ::
  "('t, 'i, 'a) MutableLedger \<Rightarrow> revision_list \<Rightarrow> ('t, 'i, 'a) MutableLedger \<times> xerror option" where
  "MutableLedger_restore l [] = (l, None)"
| "MutableLedger_restore l ((key, Some val) # kvs) =
     (case iavl_Set (iavl_ops l) (tree l) key val of
        Inl err \<Rightarrow> (l, Some (NewOrdinary (goError err)))
      | Inr t \<Rightarrow> (case Decode (codec l) key val of
          Inl xerr \<Rightarrow> (l\<lparr>tree := t\<rparr>, Some xerr)
        | Inr restoreItem \<Rightarrow> MutableLedger_restore
            (l\<lparr>tree := t, cachedObjs := (cachedObjs l)(key \<mapsto> restoreItem)\<rparr>) kvs))"
| "MutableLedger_restore l ((key, None) # kvs) =
     (case iavl_Remove (iavl_ops l) (tree l) key of
        Inl err \<Rightarrow> (l, Some (NewOrdinary (goError err)))
      | Inr (t, _, _) \<Rightarrow> MutableLedger_restore
          (l\<lparr>tree := t, cachedObjs := (cachedObjs l)(key := None)\<rparr>) kvs)"

text \<open>The slice \<open>revs[snap:]\<close> panics (\<open>None\<close>) when \<open>snap\<close> is beyond the list.\<close>

definition MutableLedger_RevertToSnapshot ::
  "('t, 'i, 'a) MutableLedger \<Rightarrow> nat \<Rightarrow> (('t, 'i, 'a) MutableLedger \<times> xerror option) option" where
  "MutableLedger_RevertToSnapshot l snap =
     (if length (revisions l) < snap then None
      else Some (case MutableLedger_restore l (rev (drop snap (revisions l))) of
         (l', Some xerr) \<Rightarrow> (l', Some xerr)
       | (l', None) \<Rightarrow> (l'\<lparr>revisions := revisionList_revert (revisions l') snap\<rparr>, None)))"

definition MutableLedger_Commit ::
  "('t, 'i, 'a) MutableLedger \<Rightarrow> ('t, 'i, 'a) MutableLedger \<times> (bytes \<times> int) res" where
  "MutableLedger_Commit l = (case iavl_SaveVersion (iavl_ops l) (tree l) of
     Inl err \<Rightarrow> (l, Inl (NewOrdinary (goError err)))
   | Inr (t, r1, r2) \<Rightarrow>
       (l\<lparr>tree := t, revisions := revisionList_reset (revisions l), cachedObjs := Map.empty\<rparr>,
        Inr (r1, r2)))"

definition MutableLedger_Version :: "('t, 'i, 'a) MutableLedger \<Rightarrow> int" where
  "MutableLedger_Version l = iavl_Version (iavl_ops l) (tree l)"

definition MutableLedger_GetReadOnlyTree :: "('t, 'i, 'a) MutableLedger \<Rightarrow> int \<Rightarrow> 'i res" where
  "MutableLedger_GetReadOnlyTree l ver = (case iavl_GetImmutable (iavl_ops l) (tree l) ver of
     Inl err \<Rightarrow> Inl (NewOrdinary (goError err)) | Inr t \<Rightarrow> Inr t)"

section \<open>MemLedger\<close>

record ('t, 'i, 'a) MemLedger =
  mem_iavl :: "('t, 'i) iavl"
  mem_codec :: "'a item_codec"
  immuTree :: "'i option"
  memStorage :: "ledger_key \<rightharpoonup> bytes option"
  mem_revisions :: revision_list

definition NewMemLedgerAt :: "int \<Rightarrow> ('t, 'i, 'a) MutableLedger \<Rightarrow> ('t, 'i, 'a) MemLedger res" where
  "NewMemLedgerAt ver l =
     (let mk = (\<lambda>t. \<lparr>mem_iavl = iavl_ops l, mem_codec = codec l, immuTree = t,
                     memStorage = Map.empty, mem_revisions = []\<rparr>) in
      if ver > 0 then (case MutableLedger_GetReadOnlyTree l ver of
          Inl xerr \<Rightarrow> Inl xerr | Inr t \<Rightarrow> Inr (mk (Some t)))
      else Inr (mk None))"

definition MemLedger_findRawBytes :: "('t, 'i, 'a) MemLedger \<Rightarrow> ledger_key \<Rightarrow> bytes res" where
  "MemLedger_findRawBytes m key =
     (case (case memStorage m key of Some bz \<Rightarrow> Inr bz | None \<Rightarrow> immu_Get (mem_iavl m) (immuTree m) key) of
        Inl err \<Rightarrow> Inl (NewOrdinary (goError err))
      | Inr None \<Rightarrow> Inl ErrNotFoundResult
      | Inr (Some bz) \<Rightarrow> Inr bz)"

definition MemLedger_Get :: "('t, 'i, 'a) MemLedger \<Rightarrow> ledger_key \<Rightarrow> ('t, 'i, 'a) MemLedger \<times> 'a res" where
  "MemLedger_Get m key = (m, (case MemLedger_findRawBytes m key of
     Inl xerr \<Rightarrow> Inl xerr | Inr bz \<Rightarrow> Decode (mem_codec m) key bz))"

definition MemLedger_Iterate ::
  "('t, 'i, 'a) MemLedger \<Rightarrow> ('b, 'a) iter_cb \<Rightarrow> 'b \<Rightarrow> 'b \<times> xerror option" where
  "MemLedger_Iterate m cb acc = (case immuTree m of
     None \<Rightarrow> (acc, Some ErrNotFoundResult)
   | Some t \<Rightarrow> (case immu_Iterate (mem_iavl m) t of
       Inl err \<Rightarrow> (acc, Some (NewOrdinary (goError err)))
     | Inr es \<Rightarrow> iterate_items (mem_codec m) es cb acc))"

definition MemLedger_Seek ::
  "('t, 'i, 'a) MemLedger \<Rightarrow> bytes \<Rightarrow> bool \<Rightarrow> ('b, 'a) iter_cb \<Rightarrow> 'b \<Rightarrow> 'b \<times> xerror option" where
  "MemLedger_Seek m pfx ascending cb acc = (case immuTree m of
     None \<Rightarrow> (acc, Some ErrNotFoundResult)
   | Some t \<Rightarrow> (case immu_Iterator (mem_iavl m) t pfx ascending of
       Inl err \<Rightarrow> (acc, Some (NewOrdinary (goError err)))
     | Inr es \<Rightarrow> seek_items (mem_codec m) pfx es cb acc))"

definition MemLedger_Set ::
  "('t, 'i, 'a) MemLedger \<Rightarrow> ledger_key \<Rightarrow> 'a \<Rightarrow> ('t, 'i, 'a) MemLedger \<times> xerror option" where
  "MemLedger_Set m key item =
     (case (case memStorage m key of Some old \<Rightarrow> Inr old | None \<Rightarrow> immu_Get (mem_iavl m) (immuTree m) key) of
        Inl err \<Rightarrow> (m, Some (NewOrdinary (goError err)))
      | Inr oldVal \<Rightarrow> (case Encode (mem_codec m) item of
          Inl xerr \<Rightarrow> (m, Some xerr)
        | Inr newVal \<Rightarrow>
            (m\<lparr>mem_revisions := (if bytes_Compare (nil_bytes oldVal) newVal \<noteq> 0
                 then revisionList_set (mem_revisions m) key oldVal else mem_revisions m),
               memStorage := (memStorage m)(key \<mapsto> Some newVal)\<rparr>, None)))"

definition MemLedger_Del :: "('t, 'i, 'a) MemLedger \<Rightarrow> ledger_key \<Rightarrow> ('t, 'i, 'a) MemLedger \<times> xerror option" where
  "MemLedger_Del m key =
     (m\<lparr>mem_revisions := (case memStorage m key of
            Some oldVal \<Rightarrow> revisionList_set (mem_revisions m) key oldVal | None \<Rightarrow> mem_revisions m),
        memStorage := (memStorage m)(key \<mapsto> None)\<rparr>, None)"

definition MemLedger_Snapshot :: "('t, 'i, 'a) MemLedger \<Rightarrow> nat" where
  "MemLedger_Snapshot m = revisionList_snapshot (mem_revisions m)"

fun MemLedger_restore :: "('t, 'i, 'a) MemLedger \<Rightarrow> revision_list \<Rightarrow> ('t, 'i, 'a) MemLedger" where
  "MemLedger_restore m [] = m"
| "MemLedger_restore m ((key, val) # kvs) =
     MemLedger_restore (m\<lparr>memStorage := (memStorage m)(key \<mapsto> val)\<rparr>) kvs"

definition MemLedger_RevertToSnapshot ::
  "('t, 'i, 'a) MemLedger \<Rightarrow> nat \<Rightarrow> (('t, 'i, 'a) MemLedger \<times> xerror option) option" where
  "MemLedger_RevertToSnapshot m snap =
     (if length (mem_revisions m) < snap then None
      else let m' = MemLedger_restore m (rev (drop snap (mem_revisions m))) in
        Some (m'\<lparr>mem_revisions := revisionList_revert (mem_revisions m') snap\<rparr>, None))"

section \<open>StateLedger\<close>

record ('t, 'i, 'a) StateLedger =
  commitLedger :: "('t, 'i, 'a) MutableLedger"
  imitableLedger :: "('t, 'i, 'a) MemLedger"

definition NewStateLedger ::
  "('t, 'i) iavl \<Rightarrow> 'a item_codec \<Rightarrow> goerror + 't \<Rightarrow> ('t, 'i, 'a) StateLedger res" where
  "NewStateLedger iv cd loaded = (case NewMutableLedger iv cd loaded of
     Inl xerr \<Rightarrow> Inl xerr
   | Inr l \<Rightarrow> (case NewMemLedgerAt (MutableLedger_Version l) l of
       Inl xerr \<Rightarrow> Inl xerr
     | Inr m \<Rightarrow> Inr \<lparr>commitLedger = l, imitableLedger = m\<rparr>))"

definition StateLedger_Get ::
  "('t, 'i, 'a) StateLedger \<Rightarrow> ledger_key \<Rightarrow> bool \<Rightarrow> ('t, 'i, 'a) StateLedger \<times> 'a res" where
  "StateLedger_Get s key exec =
     (if exec then (case MutableLedger_Get (commitLedger s) key of (l, r) \<Rightarrow> (s\<lparr>commitLedger := l\<rparr>, r))
      else (case MemLedger_Get (imitableLedger s) key of (m, r) \<Rightarrow> (s\<lparr>imitableLedger := m\<rparr>, r)))"

definition StateLedger_Iterate ::
  "('t, 'i, 'a) StateLedger \<Rightarrow> ('b, 'a) iter_cb \<Rightarrow> 'b \<Rightarrow> bool \<Rightarrow> 'b \<times> xerror option" where
  "StateLedger_Iterate s cb acc exec =
     (if exec then MutableLedger_Iterate (commitLedger s) cb acc
      else MemLedger_Iterate (imitableLedger s) cb acc)"

definition StateLedger_Seek ::
  "('t, 'i, 'a) StateLedger \<Rightarrow> bytes \<Rightarrow> bool \<Rightarrow> ('b, 'a) iter_cb \<Rightarrow> 'b \<Rightarrow> bool \<Rightarrow> 'b \<times> xerror option" where
  "StateLedger_Seek s pfx ascending cb acc exec =
     (if exec then MutableLedger_Seek (commitLedger s) pfx ascending cb acc
      else MemLedger_Seek (imitableLedger s) pfx ascending cb acc)"

definition StateLedger_Set ::
  "('t, 'i, 'a) StateLedger \<Rightarrow> ledger_key \<Rightarrow> 'a \<Rightarrow> bool \<Rightarrow> ('t, 'i, 'a) StateLedger \<times> xerror option" where
  "StateLedger_Set s key item exec =
     (if exec then (case MutableLedger_Set (commitLedger s) key item of (l, r) \<Rightarrow> (s\<lparr>commitLedger := l\<rparr>, r))
      else (case MemLedger_Set (imitableLedger s) key item of (m, r) \<Rightarrow> (s\<lparr>imitableLedger := m\<rparr>, r)))"

definition StateLedger_Del ::
  "('t, 'i, 'a) StateLedger \<Rightarrow> ledger_key \<Rightarrow> bool \<Rightarrow> ('t, 'i, 'a) StateLedger \<times> xerror option" where
  "StateLedger_Del s key exec =
     (if exec then (case MutableLedger_Del (commitLedger s) key of (l, r) \<Rightarrow> (s\<lparr>commitLedger := l\<rparr>, r))
      else (case MemLedger_Del (imitableLedger s) key of (m, r) \<Rightarrow> (s\<lparr>imitableLedger := m\<rparr>, r)))"

definition StateLedger_Snapshot :: "('t, 'i, 'a) StateLedger \<Rightarrow> bool \<Rightarrow> nat" where
  "StateLedger_Snapshot s exec =
     (if exec then MutableLedger_Snapshot (commitLedger s) else MemLedger_Snapshot (imitableLedger s))"

definition StateLedger_RevertToSnapshot ::
  "('t, 'i, 'a) StateLedger \<Rightarrow> nat \<Rightarrow> bool \<Rightarrow> (('t, 'i, 'a) StateLedger \<times> xerror option) option" where
  "StateLedger_RevertToSnapshot s snap exec =
     (if exec then map_option (\<lambda>(l, r). (s\<lparr>commitLedger := l\<rparr>, r)) (MutableLedger_RevertToSnapshot (commitLedger s) snap)
      else map_option (\<lambda>(m, r). (s\<lparr>imitableLedger := m\<rparr>, r)) (MemLedger_RevertToSnapshot (imitableLedger s) snap))"

text \<open>
  When the read-only view of the new version cannot be opened the code drops its check ledger and
  reports the error, on which the node stops; the model keeps the old check ledger in that case.
\<close>

definition StateLedger_Commit ::
  "('t, 'i, 'a) StateLedger \<Rightarrow> ('t, 'i, 'a) StateLedger \<times> (bytes \<times> int) res" where
  "StateLedger_Commit s = (case MutableLedger_Commit (commitLedger s) of
     (l, Inl xerr) \<Rightarrow> (s\<lparr>commitLedger := l\<rparr>, Inl xerr)
   | (l, Inr (hash, ver)) \<Rightarrow> (case NewMemLedgerAt ver l of
       Inl xerr \<Rightarrow> (s\<lparr>commitLedger := l\<rparr>, Inl xerr)
     | Inr m \<Rightarrow> (\<lparr>commitLedger = l, imitableLedger = m\<rparr>, Inr (hash, ver))))"

definition ImitableLedgerAt :: "('t, 'i, 'a) StateLedger \<Rightarrow> int \<Rightarrow> ('t, 'i, 'a) MemLedger res" where
  "ImitableLedgerAt s height = NewMemLedgerAt height (commitLedger s)"

end
