(* ===== verification/Ledger_Spec.thy ===== *)
theory Ledger_Spec
  imports Ledger
begin

text \<open>
  What the ledgers of \<open>src/ledger/v1\<close> promise. The interface \<open>IImitable\<close> is the locale \<open>imitable\<close>:
  a ledger behaves as a finite map with snapshots. It is interpreted on \<open>MutableLedger\<close> and on
  \<open>MemLedger\<close>; the properties are refinement of a plain map by any sequence of calls, exact undo of a
  sequence of calls by \<open>RevertToSnapshot\<close>, the effect of \<open>Commit\<close>, and completeness of \<open>Seek\<close>.
\<close>

section \<open>What the ledgers rely on\<close>

definition iavl_ok :: "('t, 'i) iavl \<Rightarrow> bool" where
  "iavl_ok iv \<longleftrightarrow>
     (\<forall>t k. \<exists>v. iavl_Get iv t k = Inr v) \<and>
     (\<forall>t k v. \<exists>t'. iavl_Set iv t k v = Inr t' \<and> iavl_Get iv t' = (iavl_Get iv t)(k := Inr (Some v))) \<and>
     (\<forall>t k. \<exists>t' old. iavl_Remove iv t k = Inr (t', old, old \<noteq> None) \<and> iavl_Get iv t k = Inr old \<and>
        iavl_Get iv t' = (iavl_Get iv t)(k := Inr None)) \<and>
     (\<forall>t. \<exists>t' h ver i. iavl_SaveVersion iv t = Inr (t', h, ver) \<and> 0 < ver \<and>
        iavl_Get iv t' = iavl_Get iv t \<and> iavl_Version iv t' = ver \<and>
        iavl_GetImmutable iv t' ver = Inr i \<and> immu_Get iv (Some i) = iavl_Get iv t) \<and>
     (\<forall>i k. \<exists>v. immu_Get iv (Some i) k = Inr v)"

definition iavl_iter_ok :: "('t, 'i) iavl \<Rightarrow> bool" where
  "iavl_iter_ok iv \<longleftrightarrow>
     (\<forall>t pfx. \<exists>es. iavl_Iterator iv t pfx True = Inr es \<and> sorted_wrt (<) (map fst es) \<and>
        set es = {(k, v). pfx \<le> k \<and> iavl_Get iv t k = Inr (Some v)}) \<and>
     (\<forall>t. \<exists>es. iavl_Iterate iv t = Inr es \<and> sorted_wrt (<) (map fst es) \<and>
        set es = {(k, v). iavl_Get iv t k = Inr (Some v)})"

definition storable :: "'a item_codec \<Rightarrow> ledger_key \<Rightarrow> 'a \<Rightarrow> bool" where
  "storable cd k v \<longleftrightarrow> (\<exists>bz. Encode cd v = Inr bz \<and> bz \<noteq> [] \<and> Decode cd k bz = Inr v)"

definition decodable :: "'a item_codec \<Rightarrow> ledger_key \<Rightarrow> bytes option \<Rightarrow> bool" where
  "decodable cd k x = (case x of None \<Rightarrow> True | Some bz \<Rightarrow> (\<exists>v. Decode cd k bz = Inr v))"

section \<open>Views\<close>

definition view_of :: "'a item_codec \<Rightarrow> (ledger_key \<Rightarrow> bytes option) \<Rightarrow> ledger_key \<Rightarrow> 'a option" where
  "view_of cd raw k = (case raw k of None \<Rightarrow> None
     | Some bz \<Rightarrow> (case Decode cd k bz of Inl _ \<Rightarrow> None | Inr v \<Rightarrow> Some v))"

fun put_kv :: "ledger_key \<times> bytes option \<Rightarrow> (ledger_key \<Rightarrow> bytes option) \<Rightarrow> ledger_key \<Rightarrow> bytes option" where
  "put_kv (k, v) raw = raw(k := v)"

definition undo :: "revision_list \<Rightarrow> (ledger_key \<Rightarrow> bytes option) \<Rightarrow> ledger_key \<Rightarrow> bytes option" where
  "undo revs raw = foldr put_kv revs raw"

definition mut_raw :: "('t, 'i, 'a) MutableLedger \<Rightarrow> ledger_key \<Rightarrow> bytes option" where
  "mut_raw l k = (case iavl_Get (iavl_ops l) (tree l) k of Inl _ \<Rightarrow> None | Inr v \<Rightarrow> v)"

definition mut_view :: "('t, 'i, 'a) MutableLedger \<Rightarrow> ledger_key \<Rightarrow> 'a option" where
  "mut_view l = view_of (codec l) (mut_raw l)"

definition mut_hist :: "('t, 'i, 'a) MutableLedger \<Rightarrow> nat \<Rightarrow> ledger_key \<Rightarrow> 'a option" where
  "mut_hist l n = view_of (codec l) (undo (drop n (revisions l)) (mut_raw l))"

definition mut_inv :: "('t, 'i, 'a) MutableLedger \<Rightarrow> bool" where
  "mut_inv l \<longleftrightarrow> iavl_ok (iavl_ops l) \<and> (\<forall>k. decodable (codec l) k (mut_raw l k)) \<and>
     (\<forall>(k, v) \<in> set (revisions l). decodable (codec l) k v) \<and>
     (\<forall>k v. cachedObjs l k = Some v \<longrightarrow> mut_view l k = Some v)"

definition mem_raw :: "('t, 'i, 'a) MemLedger \<Rightarrow> ledger_key \<Rightarrow> bytes option" where
  "mem_raw m k = (case memStorage m k of Some bz \<Rightarrow> bz
     | None \<Rightarrow> (case immu_Get (mem_iavl m) (immuTree m) k of Inl _ \<Rightarrow> None | Inr v \<Rightarrow> v))"

definition mem_view :: "('t, 'i, 'a) MemLedger \<Rightarrow> ledger_key \<Rightarrow> 'a option" where
  "mem_view m = view_of (mem_codec m) (mem_raw m)"

definition mem_hist :: "('t, 'i, 'a) MemLedger \<Rightarrow> nat \<Rightarrow> ledger_key \<Rightarrow> 'a option" where
  "mem_hist m n = view_of (mem_codec m) (undo (drop n (mem_revisions m)) (mem_raw m))"

definition mem_inv :: "('t, 'i, 'a) MemLedger \<Rightarrow> bool" where
  "mem_inv m \<longleftrightarrow> iavl_ok (mem_iavl m) \<and> immuTree m \<noteq> None \<and>
     (\<forall>k. decodable (mem_codec m) k (mem_raw m k)) \<and>
     (\<forall>(k, v) \<in> set (mem_revisions m). decodable (mem_codec m) k v)"

text \<open>A deletion that \<open>MemLedger.Del\<close> can undo: the key was touched before, or is absent.\<close>

definition mem_undoable :: "('t, 'i, 'a) MemLedger \<Rightarrow> ledger_key \<Rightarrow> bool" where
  "mem_undoable m k \<longleftrightarrow> memStorage m k \<noteq> None \<or> mem_raw m k = None"

lemma decodable_simps [simp]:
  "decodable cd k None" "decodable cd k (Some bz) \<longleftrightarrow> (\<exists>v. Decode cd k bz = Inr v)"
  by (simp_all add: decodable_def)

lemma undo_simps [simp]:
  "undo [] raw = raw" "undo ((k, v) # r) raw = (undo r raw)(k := v)"
  "undo (r @ [(k, v)]) raw = undo r (raw(k := v))"
  by (simp_all add: undo_def)

lemma undo_rev: "undo r raw = fold put_kv (rev r) raw"
  by (simp add: undo_def foldr_conv_fold)

lemma view_of_upd: "Decode cd k bz = Inr v \<Longrightarrow> view_of cd (raw(k := Some bz)) = (view_of cd raw)(k \<mapsto> v)"
  by (auto simp: view_of_def)

lemma view_of_del: "view_of cd (raw(k := None)) = (view_of cd raw)(k := None)"
  by (auto simp: view_of_def)

lemma decodable_upd: "Decode cd k bz = Inr v \<Longrightarrow> \<forall>x. decodable cd x (raw x) \<Longrightarrow>
    \<forall>x. decodable cd x ((raw(k := Some bz)) x)"
  by (auto simp: decodable_def)

lemma decodable_view: "decodable cd k (Some bz) \<Longrightarrow> raw k = Some bz \<Longrightarrow> \<exists>v. Decode cd k bz = Inr v \<and> view_of cd raw k = Some v"
  by (auto simp: decodable_def view_of_def)

section \<open>The interface\<close>

datatype 'a lop = LGet ledger_key | LSet ledger_key 'a | LDel ledger_key
datatype 'a lres = RItem "'a res" | RErr "xerror option"

type_synonym ('s, 'a) get_op = "'s \<Rightarrow> ledger_key \<Rightarrow> 's \<times> 'a res"
type_synonym ('s, 'a) set_op = "'s \<Rightarrow> ledger_key \<Rightarrow> 'a \<Rightarrow> 's \<times> xerror option"
type_synonym 's del_op = "'s \<Rightarrow> ledger_key \<Rightarrow> 's \<times> xerror option"

fun ledger_step :: "('s, 'a) get_op \<Rightarrow> ('s, 'a) set_op \<Rightarrow> 's del_op \<Rightarrow> 's \<Rightarrow> 'a lop \<Rightarrow> 's \<times> 'a lres" where
  "ledger_step g s d st (LGet k) = map_prod id RItem (g st k)"
| "ledger_step g s d st (LSet k v) = map_prod id RErr (s st k v)"
| "ledger_step g s d st (LDel k) = map_prod id RErr (d st k)"

fun ledger_run :: "('s, 'a) get_op \<Rightarrow> ('s, 'a) set_op \<Rightarrow> 's del_op \<Rightarrow> 's \<Rightarrow> 'a lop list \<Rightarrow> 's \<times> 'a lres list" where
  "ledger_run g s d st [] = (st, [])"
| "ledger_run g s d st (x # xs) =
     (case ledger_step g s d st x of (st', r) \<Rightarrow> map_prod id ((#) r) (ledger_run g s d st' xs))"

text \<open>The specification: the same calls on a map.\<close>

definition map_get :: "(ledger_key \<rightharpoonup> 'a, 'a) get_op" where
  "map_get m k = (m, case m k of None \<Rightarrow> Inl ErrNotFoundResult | Some v \<Rightarrow> Inr v)"
definition map_set :: "(ledger_key \<rightharpoonup> 'a, 'a) set_op" where
  "map_set m k v = (m(k \<mapsto> v), None)"
definition map_del :: "(ledger_key \<rightharpoonup> 'a) del_op" where
  "map_del m k = (m(k := None), None)"

fun lop_storable :: "(ledger_key \<Rightarrow> 'a \<Rightarrow> bool) \<Rightarrow> 'a lop \<Rightarrow> bool" where
  "lop_storable p (LSet k v) = p k v"
| "lop_storable p _ = True"

fun no_del :: "'a lop \<Rightarrow> bool" where
  "no_del (LDel k) = False"
| "no_del _ = True"

locale imitable =
  fixes inv :: "'s \<Rightarrow> bool" and view :: "'s \<Rightarrow> ledger_key \<rightharpoonup> 'a" and ok :: "'s \<Rightarrow> ledger_key \<Rightarrow> 'a \<Rightarrow> bool"
    and get :: "('s, 'a) get_op" and set :: "('s, 'a) set_op" and del :: "'s del_op"
    and snapshot :: "'s \<Rightarrow> nat" and revert :: "'s \<Rightarrow> nat \<Rightarrow> ('s \<times> xerror option) option"
    and hist :: "'s \<Rightarrow> nat \<Rightarrow> ledger_key \<rightharpoonup> 'a" and undoable :: "'s \<Rightarrow> ledger_key \<Rightarrow> bool"
  assumes get_law: "inv s \<Longrightarrow> get s k = (s', r) \<Longrightarrow>
      inv s' \<and> map_get (view s) k = (view s', r) \<and> ok s' = ok s \<and> snapshot s' = snapshot s \<and> hist s' = hist s"
    and set_law: "inv s \<Longrightarrow> ok s k v \<Longrightarrow> set s k v = (s', e) \<Longrightarrow>
      inv s' \<and> map_set (view s) k v = (view s', e) \<and> ok s' = ok s \<and>
      snapshot s \<le> snapshot s' \<and> (\<forall>n \<le> snapshot s. hist s' n = hist s n)"
    and del_law: "inv s \<Longrightarrow> del s k = (s', e) \<Longrightarrow>
      inv s' \<and> map_del (view s) k = (view s', e) \<and> ok s' = ok s"
    and del_undo_law: "inv s \<Longrightarrow> undoable s k \<Longrightarrow> del s k = (s', e) \<Longrightarrow>
      snapshot s \<le> snapshot s' \<and> (\<forall>n \<le> snapshot s. hist s' n = hist s n)"
    and hist_now: "hist s (snapshot s) = view s"
    and revert_law: "inv s \<Longrightarrow> n \<le> snapshot s \<Longrightarrow> \<exists>s'. revert s n = Some (s', None) \<and>
      inv s' \<and> view s' = hist s n \<and> snapshot s' = n \<and> ok s' = ok s \<and> (\<forall>i \<le> n. hist s' i = hist s i)"
begin

abbreviation step where "step \<equiv> ledger_step get set del"
abbreviation run where "run \<equiv> ledger_run get set del"

fun undoable_run :: "'s \<Rightarrow> 'a lop list \<Rightarrow> bool" where
  "undoable_run s [] = True"
| "undoable_run s (LDel k # xs) = (undoable s k \<and> undoable_run (fst (step s (LDel k))) xs)"
| "undoable_run s (x # xs) = undoable_run (fst (step s x)) xs"

lemma step_refines:
  assumes "inv s" "lop_storable (ok s) x" "step s x = (s', r)"
  shows "inv s' \<and> ok s' = ok s \<and> ledger_step map_get map_set map_del (view s) x = (view s', r)"
proof (cases x)
  case (LGet k)
  then show ?thesis using assms get_law[of s k] by (cases "get s k") auto
next
  case (LSet k v)
  then show ?thesis using assms set_law[of s k v] by (cases "set s k v") auto
next
  case (LDel k)
  then show ?thesis using assms del_law[of s k] by (cases "del s k") auto
qed

lemma run_refines:
  assumes "inv s" "list_all (lop_storable (ok s)) xs"
  shows "inv (fst (run s xs)) \<and> ok (fst (run s xs)) = ok s \<and>
    ledger_run map_get map_set map_del (view s) xs = map_prod view id (run s xs)"
  using assms
proof (induction xs arbitrary: s)
  case (Cons x xs)
  obtain s' r where st: "step s x = (s', r)" by (cases "step s x")
  note ref = step_refines[OF Cons.prems(1) _ st]
  with Cons.prems Cons.IH[of s'] show ?case
    by (cases "run s' xs") (auto simp: st)
qed simp

lemma step_hist:
  assumes "inv s" "lop_storable (ok s) x" "undoable_run s (x # xs)" "step s x = (s', r)" "n \<le> snapshot s"
  shows "n \<le> snapshot s' \<and> hist s' n = hist s n \<and> undoable_run s' xs"
proof (cases x)
  case (LGet k)
  then show ?thesis using assms get_law[of s k] by (cases "get s k") auto
next
  case (LSet k v)
  then show ?thesis using assms set_law[of s k v] by (cases "set s k v") auto
next
  case (LDel k)
  then show ?thesis using assms del_undo_law[of s k] by (cases "del s k") auto
qed

lemma run_hist:
  assumes "inv s" "list_all (lop_storable (ok s)) xs" "undoable_run s xs" "n \<le> snapshot s"
  shows "n \<le> snapshot (fst (run s xs)) \<and> hist (fst (run s xs)) n = hist s n"
  using assms
proof (induction xs arbitrary: s)
  case (Cons x xs)
  obtain s' r where st: "step s x = (s', r)" by (cases "step s x")
  have "inv s' \<and> ok s' = ok s" using step_refines[OF Cons.prems(1) _ st] Cons.prems(2) by simp
  moreover have "n \<le> snapshot s' \<and> hist s' n = hist s n \<and> undoable_run s' xs"
    using step_hist[OF Cons.prems(1) _ Cons.prems(3) st Cons.prems(4)] Cons.prems(2) by simp
  ultimately show ?case using Cons.IH[of s'] Cons.prems(2) by (cases "run s' xs") (auto simp: st)
qed simp

lemma revert_undoes_run:
  assumes "inv s" "list_all (lop_storable (ok s)) xs" "undoable_run s xs"
  shows "\<exists>s'. revert (fst (run s xs)) (snapshot s) = Some (s', None) \<and> inv s' \<and>
    view s' = view s \<and> snapshot s' = snapshot s"
proof -
  have "inv (fst (run s xs))" using run_refines assms by blast
  moreover have "snapshot s \<le> snapshot (fst (run s xs)) \<and> hist (fst (run s xs)) (snapshot s) = view s"
    using run_hist[OF assms order_refl] by (simp add: hist_now)
  ultimately show ?thesis using revert_law by metis
qed

lemma undoable_no_del: "list_all no_del xs \<Longrightarrow> undoable_run s xs"
proof (induction xs arbitrary: s)
  case (Cons x xs)
  then show ?case by (cases x) auto
qed simp

lemma undoable_all: "\<forall>s k. undoable s k \<Longrightarrow> undoable_run s xs"
proof (induction xs arbitrary: s)
  case (Cons x xs)
  then show ?case by (cases x) (metis undoable_run.simps)+
qed simp

end

section \<open>MutableLedger implements the interface\<close>

lemma iavl_GetD: "iavl_ok iv \<Longrightarrow> \<exists>v. iavl_Get iv t k = Inr v"
  by (simp add: iavl_ok_def)

lemma iavl_SetD: "iavl_ok iv \<Longrightarrow>
    \<exists>t'. iavl_Set iv t k v = Inr t' \<and> iavl_Get iv t' = (iavl_Get iv t)(k := Inr (Some v))"
  by (simp add: iavl_ok_def)

lemma iavl_RemoveD: "iavl_ok iv \<Longrightarrow> \<exists>t' old. iavl_Remove iv t k = Inr (t', old, old \<noteq> None) \<and>
    iavl_Get iv t k = Inr old \<and> iavl_Get iv t' = (iavl_Get iv t)(k := Inr None)"
  by (simp add: iavl_ok_def)

lemma iavl_SaveD: "iavl_ok iv \<Longrightarrow> \<exists>t' h ver i. iavl_SaveVersion iv t = Inr (t', h, ver) \<and> 0 < ver \<and>
    iavl_Get iv t' = iavl_Get iv t \<and> iavl_Version iv t' = ver \<and>
    iavl_GetImmutable iv t' ver = Inr i \<and> immu_Get iv (Some i) = iavl_Get iv t"
  by (simp add: iavl_ok_def)

lemma immu_GetD: "iavl_ok iv \<Longrightarrow> \<exists>v. immu_Get iv (Some i) k = Inr v"
  by (simp add: iavl_ok_def)

lemma mut_rawI: "iavl_ok (iavl_ops l) \<Longrightarrow> iavl_Get (iavl_ops l) (tree l) k = Inr (mut_raw l k)"
  using iavl_GetD[of "iavl_ops l" "tree l" k] by (auto simp: mut_raw_def)

lemma mut_raw_upd [simp]:
  "mut_raw (l\<lparr>cachedObjs := c\<rparr>) = mut_raw l" "mut_raw (l\<lparr>revisions := r\<rparr>) = mut_raw l"
  by (simp_all add: mut_raw_def fun_eq_iff)

lemma mut_raw_Set: "iavl_ok (iavl_ops l) \<Longrightarrow>
    \<exists>t. iavl_Set (iavl_ops l) (tree l) k v = Inr t \<and>
      (\<forall>r c. mut_raw (l\<lparr>tree := t, revisions := r, cachedObjs := c\<rparr>) = (mut_raw l)(k := Some v))"
  using iavl_SetD[of "iavl_ops l" "tree l" k v] by (auto simp: mut_raw_def fun_eq_iff)

lemma mut_raw_Remove: "iavl_ok (iavl_ops l) \<Longrightarrow>
    \<exists>t. iavl_Remove (iavl_ops l) (tree l) k = Inr (t, mut_raw l k, mut_raw l k \<noteq> None) \<and>
      (\<forall>r c. mut_raw (l\<lparr>tree := t, revisions := r, cachedObjs := c\<rparr>) = (mut_raw l)(k := None))"
  using iavl_RemoveD[of "iavl_ops l" "tree l" k] by (auto simp: mut_raw_def fun_eq_iff)

lemma MutableLedger_get_view: "mut_inv l \<Longrightarrow>
    MutableLedger_get l k = (case mut_view l k of None \<Rightarrow> Inl ErrNotFoundResult | Some v \<Rightarrow> Inr v)"
proof -
  assume "mut_inv l"
  then have "iavl_ok (iavl_ops l)" "decodable (codec l) k (mut_raw l k)" by (simp_all add: mut_inv_def)
  then show ?thesis
    by (cases "mut_raw l k")
      (auto simp: MutableLedger_get_def mut_rawI mut_view_def view_of_def decodable_def)
qed

lemma MutableLedger_Get_spec:
  assumes "mut_inv l" "MutableLedger_Get l k = (l', r)"
  shows "mut_inv l' \<and> mut_view l' = mut_view l \<and> codec l' = codec l \<and> revisions l' = revisions l \<and>
    mut_raw l' = mut_raw l \<and> r = (case mut_view l k of None \<Rightarrow> Inl ErrNotFoundResult | Some v \<Rightarrow> Inr v)"
proof (cases "cachedObjs l k")
  case None
  then show ?thesis using assms MutableLedger_get_view[OF assms(1), of k]
    by (auto simp: MutableLedger_Get_def mut_inv_def mut_view_def split: option.splits if_splits)
next
  case (Some v)
  then show ?thesis using assms by (auto simp: MutableLedger_Get_def mut_inv_def)
qed

lemma MutableLedger_Set_eq:
  assumes "mut_inv l" "storable (codec l) k v"
  obtains bz t where "Encode (codec l) v = Inr bz" "bz \<noteq> []" "Decode (codec l) k bz = Inr v"
    "\<And>r c. mut_raw (l\<lparr>tree := t, revisions := r, cachedObjs := c\<rparr>) = (mut_raw l)(k := Some bz)"
    "MutableLedger_Set l k v =
      (l\<lparr>tree := t, revisions := revisions l @ (if mut_raw l k = Some bz then [] else [(k, mut_raw l k)]),
         cachedObjs := (cachedObjs l)(k \<mapsto> v)\<rparr>, None)"
proof -
  obtain bz where bz: "Encode (codec l) v = Inr bz" "bz \<noteq> []" "Decode (codec l) k bz = Inr v"
    using assms(2) by (auto simp: storable_def)
  have ok: "iavl_ok (iavl_ops l)" using assms(1) by (simp add: mut_inv_def)
  obtain t where t: "iavl_Set (iavl_ops l) (tree l) k bz = Inr t"
      "\<And>r c. mut_raw (l\<lparr>tree := t, revisions := r, cachedObjs := c\<rparr>) = (mut_raw l)(k := Some bz)"
    using mut_raw_Set[OF ok] by blast
  have "nil_bytes (mut_raw l k) = bz \<longleftrightarrow> mut_raw l k = Some bz"
    using bz(2) by (cases "mut_raw l k") (auto simp: nil_bytes_def)
  then show thesis using that[OF bz t(2)] t(1) bz mut_rawI[OF ok, of k]
    by (simp add: MutableLedger_Set_def MutableLedger_set_def revisionList_set_def)
qed

lemma mut_inv_updI:
  assumes inv: "mut_inv l" and dec: "decodable (codec l) k x"
    and raw: "mut_raw l' = (mut_raw l)(k := x)"
    and same: "codec l' = codec l" "iavl_ops l' = iavl_ops l"
    and revs: "\<forall>(k, v) \<in> set (revisions l'). decodable (codec l) k v"
    and cache: "cachedObjs l' = (cachedObjs l)(k := view_of (codec l) ((mut_raw l)(k := x)) k)"
  shows "mut_inv l'"
proof -
  have "\<forall>j. decodable (codec l) j (mut_raw l' j)" using inv dec raw by (auto simp: mut_inv_def)
  moreover have "mut_view l' j = Some v" if "cachedObjs l' j = Some v" for j v
    using that inv cache raw same by (cases "j = k") (auto simp: mut_inv_def mut_view_def view_of_def)
  ultimately show ?thesis using inv same revs by (auto simp: mut_inv_def)
qed

lemma mut_inv_revs: "mut_inv l \<Longrightarrow> \<forall>(k, v) \<in> set (revisions l). decodable (codec l) k v"
  and mut_inv_raw: "mut_inv l \<Longrightarrow> decodable (codec l) k (mut_raw l k)"
  and mut_inv_iavl: "mut_inv l \<Longrightarrow> iavl_ok (iavl_ops l)"
  by (auto simp: mut_inv_def)

lemma MutableLedger_Set_spec:
  assumes "mut_inv l" "storable (codec l) k v" "MutableLedger_Set l k v = (l', e)"
  shows "mut_inv l' \<and> mut_view l' = (mut_view l)(k \<mapsto> v) \<and> e = None \<and> codec l' = codec l \<and>
    length (revisions l) \<le> length (revisions l') \<and>
    (\<forall>n \<le> length (revisions l). mut_hist l' n = mut_hist l n)"
proof -
  obtain bz t where bz: "Encode (codec l) v = Inr bz" "bz \<noteq> []" "Decode (codec l) k bz = Inr v"
    and raw: "\<And>r c. mut_raw (l\<lparr>tree := t, revisions := r, cachedObjs := c\<rparr>) = (mut_raw l)(k := Some bz)"
    and eq: "MutableLedger_Set l k v =
      (l\<lparr>tree := t, revisions := revisions l @ (if mut_raw l k = Some bz then [] else [(k, mut_raw l k)]),
         cachedObjs := (cachedObjs l)(k \<mapsto> v)\<rparr>, None)"
    using MutableLedger_Set_eq[OF assms(1,2)] by blast
  have "mut_inv l'"
    using mut_inv_revs[OF assms(1)] mut_inv_raw[OF assms(1), of k] assms(3) eq bz raw
    by (intro mut_inv_updI[OF assms(1), of k "Some bz"]) (auto simp: view_of_def split: if_splits)
  moreover have "mut_view l' = (mut_view l)(k \<mapsto> v)"
    using assms(3) eq raw bz(3) by (auto simp: mut_view_def view_of_upd)
  moreover have "mut_hist l' n = mut_hist l n" if "n \<le> length (revisions l)" for n
    using assms(3) eq raw that by (auto simp: mut_hist_def fun_upd_idem)
  ultimately show ?thesis using assms(3) eq by auto
qed

lemma MutableLedger_Del_spec:
  assumes "mut_inv l" "MutableLedger_Del l k = (l', e)"
  shows "mut_inv l' \<and> mut_view l' = (mut_view l)(k := None) \<and> e = None \<and> codec l' = codec l \<and>
    length (revisions l) \<le> length (revisions l') \<and>
    (\<forall>n \<le> length (revisions l). mut_hist l' n = mut_hist l n)"
proof -
  obtain t where t: "iavl_Remove (iavl_ops l) (tree l) k = Inr (t, mut_raw l k, mut_raw l k \<noteq> None)"
    and raw: "\<And>r c. mut_raw (l\<lparr>tree := t, revisions := r, cachedObjs := c\<rparr>) = (mut_raw l)(k := None)"
    using mut_raw_Remove[OF mut_inv_iavl[OF assms(1)]] by blast
  have l': "l' = l\<lparr>tree := t, revisions := (if mut_raw l k \<noteq> None then revisions l @ [(k, mut_raw l k)] else revisions l),
      cachedObjs := (cachedObjs l)(k := None)\<rparr>" "e = None"
    using assms(2) t by (auto simp: MutableLedger_Del_def revisionList_set_def)
  have "mut_inv l'"
    using mut_inv_revs[OF assms(1)] mut_inv_raw[OF assms(1), of k] raw l'
    by (intro mut_inv_updI[OF assms(1), of k None]) (auto simp: view_of_def split: if_splits)
  moreover have "mut_view l' = (mut_view l)(k := None)"
    using l' raw by (simp add: mut_view_def view_of_del)
  moreover have "mut_hist l' n = mut_hist l n" if "n \<le> length (revisions l)" for n
    using l' raw that by (auto simp: mut_hist_def fun_upd_idem)
  ultimately show ?thesis using l' by auto
qed

lemma mut_restore:
  assumes "mut_inv l" "\<forall>(k, v) \<in> set kvs. decodable (codec l) k v"
  shows "\<exists>l'. MutableLedger_restore l kvs = (l', None) \<and> mut_inv l' \<and> codec l' = codec l \<and>
    revisions l' = revisions l \<and> mut_raw l' = fold put_kv kvs (mut_raw l)"
  using assms
proof (induction kvs arbitrary: l)
  case (Cons kv kvs)
  obtain k v where kv: "kv = (k, v)" by (cases kv)
  note ok = mut_inv_iavl[OF Cons.prems(1)]
  show ?case
  proof (cases v)
    case None
    obtain t where t: "iavl_Remove (iavl_ops l) (tree l) k = Inr (t, mut_raw l k, mut_raw l k \<noteq> None)"
      and raw: "\<And>r c. mut_raw (l\<lparr>tree := t, revisions := r, cachedObjs := c\<rparr>) = (mut_raw l)(k := None)"
      using mut_raw_Remove[OF ok] by blast
    let ?l = "l\<lparr>tree := t, cachedObjs := (cachedObjs l)(k := None)\<rparr>"
    have r: "mut_raw ?l = (mut_raw l)(k := None)" using raw[where r = "revisions l"] by simp
    have "mut_inv ?l"
      by (rule mut_inv_updI[OF Cons.prems(1), of k None])
        (use mut_inv_revs[OF Cons.prems(1)] r in \<open>auto simp: view_of_def split: if_splits\<close>)
    then show ?thesis using Cons.IH[of ?l] Cons.prems(2) kv None t r by simp
  next
    case (Some bz)
    obtain t where t: "iavl_Set (iavl_ops l) (tree l) k bz = Inr t"
      and raw: "\<And>r c. mut_raw (l\<lparr>tree := t, revisions := r, cachedObjs := c\<rparr>) = (mut_raw l)(k := Some bz)"
      using mut_raw_Set[OF ok] by blast
    obtain v' where v': "Decode (codec l) k bz = Inr v'"
      using Cons.prems(2) kv Some by (auto simp: decodable_def)
    let ?l = "l\<lparr>tree := t, cachedObjs := (cachedObjs l)(k \<mapsto> v')\<rparr>"
    have r: "mut_raw ?l = (mut_raw l)(k := Some bz)" using raw[where r = "revisions l"] by simp
    have "mut_inv ?l"
      by (rule mut_inv_updI[OF Cons.prems(1), of k "Some bz"])
        (use mut_inv_revs[OF Cons.prems(1)] r v' in \<open>auto simp: view_of_def split: if_splits\<close>)
    then show ?thesis using Cons.IH[of ?l] Cons.prems(2) kv Some t r v' by simp
  qed
qed simp

lemma drop_take_append: "n \<le> length r \<Longrightarrow> i \<le> n \<Longrightarrow> drop i r = drop i (take n r) @ drop n r"
  by (metis append_take_drop_id drop_append length_take min.absorb2 diff_is_0_eq drop_0)

lemma undo_append: "undo (a @ b) raw = undo a (undo b raw)"
  by (simp add: undo_def)

lemma MutableLedger_Revert_spec:
  assumes "mut_inv l" "n \<le> length (revisions l)"
  shows "\<exists>l'. MutableLedger_RevertToSnapshot l n = Some (l', None) \<and> mut_inv l' \<and>
    mut_view l' = mut_hist l n \<and> length (revisions l') = n \<and> codec l' = codec l \<and>
    (\<forall>i \<le> n. mut_hist l' i = mut_hist l i)"
proof -
  have "\<forall>(k, v) \<in> set (rev (drop n (revisions l))). decodable (codec l) k v"
    using mut_inv_revs[OF assms(1)] by (auto dest: in_set_dropD)
  from mut_restore[OF assms(1) this] obtain l' where
    l': "MutableLedger_restore l (rev (drop n (revisions l))) = (l', None)" "mut_inv l'"
      "codec l' = codec l" "revisions l' = revisions l"
      "mut_raw l' = undo (drop n (revisions l)) (mut_raw l)"
    by (auto simp: undo_rev)
  let ?l = "l'\<lparr>revisions := take n (revisions l)\<rparr>"
  have "mut_inv ?l" using l' by (auto simp: mut_inv_def mut_view_def dest: in_set_takeD)
  moreover have "mut_hist ?l i = mut_hist l i" if "i \<le> n" for i
    using l' that assms(2) drop_take_append[of n "revisions l" i]
    by (simp add: mut_hist_def undo_append[symmetric])
  moreover have "mut_view ?l = mut_hist l n" using l' by (simp add: mut_view_def mut_hist_def)
  ultimately show ?thesis using l' assms(2)
    by (simp add: MutableLedger_RevertToSnapshot_def revisionList_revert_def)
qed

interpretation mutable: imitable mut_inv mut_view "\<lambda>l. storable (codec l)"
  MutableLedger_Get MutableLedger_Set MutableLedger_Del MutableLedger_Snapshot
  MutableLedger_RevertToSnapshot mut_hist "\<lambda>l k. True"
proof (unfold_locales, goal_cases)
  case (1 s k s' r)
  have "mut_hist s' = mut_hist s"
    using MutableLedger_Get_spec[OF 1] by (intro ext) (simp add: mut_hist_def)
  then show ?case using MutableLedger_Get_spec[OF 1]
    by (auto simp: map_get_def MutableLedger_Snapshot_def revisionList_snapshot_def)
next
  case (2 s k v s' e)
  then show ?case using MutableLedger_Set_spec[OF 2]
    by (auto simp: map_set_def MutableLedger_Snapshot_def revisionList_snapshot_def)
next
  case (3 s k s' e)
  then show ?case using MutableLedger_Del_spec[OF 3] by (auto simp: map_del_def)
next
  case (4 s k s' e)
  then show ?case using MutableLedger_Del_spec[OF 4(1,3)]
    by (auto simp: MutableLedger_Snapshot_def revisionList_snapshot_def)
next
  case (5 s)
  then show ?case
    by (simp add: mut_hist_def mut_view_def MutableLedger_Snapshot_def revisionList_snapshot_def)
next
  case (6 s n)
  then show ?case using MutableLedger_Revert_spec[of s n]
    by (auto simp: MutableLedger_Snapshot_def revisionList_snapshot_def)
qed

section \<open>MemLedger implements the interface\<close>

lemma mem_raw_revs [simp]: "mem_raw (m\<lparr>mem_revisions := r\<rparr>) = mem_raw m"
  by (auto simp: mem_raw_def fun_eq_iff split: option.splits)

lemma mem_raw_Set [simp]:
  "mem_raw (m\<lparr>memStorage := (memStorage m)(k \<mapsto> x)\<rparr>) = (mem_raw m)(k := x)"
  "mem_raw (m\<lparr>mem_revisions := r, memStorage := (memStorage m)(k \<mapsto> x)\<rparr>) = (mem_raw m)(k := x)"
  by (auto simp: mem_raw_def fun_eq_iff split: option.splits)

lemma mem_raw_old:
  assumes "mem_inv m"
  shows "(case memStorage m k of Some bz \<Rightarrow> Inr bz | None \<Rightarrow> immu_Get (mem_iavl m) (immuTree m) k) = Inr (mem_raw m k)"
proof -
  obtain i where "immuTree m = Some i" using assms by (auto simp: mem_inv_def)
  moreover have "iavl_ok (mem_iavl m)" using assms by (simp add: mem_inv_def)
  ultimately show ?thesis using immu_GetD[of "mem_iavl m" i k]
    by (auto simp: mem_raw_def split: option.splits)
qed

lemma mem_inv_updI:
  assumes "mem_inv m" "decodable (mem_codec m) k x"
    "\<forall>(k, v) \<in> set r. decodable (mem_codec m) k v"
  shows "mem_inv (m\<lparr>mem_revisions := r, memStorage := (memStorage m)(k \<mapsto> x)\<rparr>)"
  using assms by (auto simp: mem_inv_def)

lemma mem_inv_revs: "mem_inv m \<Longrightarrow> \<forall>(k, v) \<in> set (mem_revisions m). decodable (mem_codec m) k v"
  and mem_inv_raw: "mem_inv m \<Longrightarrow> decodable (mem_codec m) k (mem_raw m k)"
  by (auto simp: mem_inv_def)

lemma MemLedger_Get_spec:
  assumes "mem_inv m"
  shows "MemLedger_Get m k = (m, case mem_view m k of None \<Rightarrow> Inl ErrNotFoundResult | Some v \<Rightarrow> Inr v)"
proof -
  have "decodable (mem_codec m) k (mem_raw m k)" using mem_inv_raw[OF assms] .
  then show ?thesis using mem_raw_old[OF assms, of k]
    by (cases "mem_raw m k") (auto simp: MemLedger_Get_def MemLedger_findRawBytes_def mem_view_def view_of_def)
qed

lemma MemLedger_Set_spec:
  assumes "mem_inv m" "storable (mem_codec m) k v" "MemLedger_Set m k v = (m', e)"
  shows "mem_inv m' \<and> mem_view m' = (mem_view m)(k \<mapsto> v) \<and> e = None \<and> mem_codec m' = mem_codec m \<and>
    length (mem_revisions m) \<le> length (mem_revisions m') \<and>
    (\<forall>n \<le> length (mem_revisions m). mem_hist m' n = mem_hist m n)"
proof -
  obtain bz where bz: "Encode (mem_codec m) v = Inr bz" "bz \<noteq> []" "Decode (mem_codec m) k bz = Inr v"
    using assms(2) by (auto simp: storable_def)
  have cmp: "nil_bytes (mem_raw m k) = bz \<longleftrightarrow> mem_raw m k = Some bz"
    using bz(2) by (cases "mem_raw m k") (auto simp: nil_bytes_def)
  define r where "r = mem_revisions m @ (if mem_raw m k = Some bz then [] else [(k, mem_raw m k)])"
  have m': "m' = m\<lparr>mem_revisions := r, memStorage := (memStorage m)(k \<mapsto> Some bz)\<rparr>" "e = None"
    using assms(3) bz(1) cmp mem_raw_old[OF assms(1), of k]
    by (auto simp: MemLedger_Set_def revisionList_set_def r_def)
  have "mem_inv m'" unfolding m' using mem_inv_revs[OF assms(1)] mem_inv_raw[OF assms(1), of k] bz
    by (intro mem_inv_updI[OF assms(1)]) (auto simp: r_def)
  moreover have "mem_view m' = (mem_view m)(k \<mapsto> v)" using m' bz(3) by (simp add: mem_view_def view_of_upd)
  moreover have "mem_hist m' n = mem_hist m n" if "n \<le> length (mem_revisions m)" for n
    using m' that by (auto simp: mem_hist_def r_def fun_upd_idem)
  ultimately show ?thesis using m' by (auto simp: r_def)
qed

lemma MemLedger_Del_spec:
  assumes "mem_inv m" "MemLedger_Del m k = (m', e)"
  shows "mem_inv m' \<and> mem_view m' = (mem_view m)(k := None) \<and> e = None \<and> mem_codec m' = mem_codec m \<and>
    (mem_undoable m k \<longrightarrow> length (mem_revisions m) \<le> length (mem_revisions m') \<and>
      (\<forall>n \<le> length (mem_revisions m). mem_hist m' n = mem_hist m n))"
proof -
  define r where "r = (case memStorage m k of Some old \<Rightarrow> mem_revisions m @ [(k, old)] | None \<Rightarrow> mem_revisions m)"
  have m': "m' = m\<lparr>mem_revisions := r, memStorage := (memStorage m)(k \<mapsto> None)\<rparr>" "e = None"
    using assms(2) by (auto simp: MemLedger_Del_def revisionList_set_def r_def split: option.splits)
  have "mem_inv m'" unfolding m' using mem_inv_revs[OF assms(1)] mem_inv_raw[OF assms(1), of k]
    by (intro mem_inv_updI[OF assms(1)]) (auto simp: r_def mem_raw_def split: option.splits)
  moreover have "mem_view m' = (mem_view m)(k := None)" using m' by (simp add: mem_view_def view_of_del)
  moreover have "mem_hist m' n = mem_hist m n" if "mem_undoable m k" "n \<le> length (mem_revisions m)" for n
  proof (cases "memStorage m k")
    case None
    then have "mem_raw m k = None" using that(1) by (simp add: mem_undoable_def)
    then show ?thesis using m' None by (simp add: mem_hist_def r_def fun_upd_idem)
  next
    case (Some old)
    then have "mem_raw m k = old" by (simp add: mem_raw_def)
    then show ?thesis using m' Some that(2) by (simp add: mem_hist_def r_def fun_upd_idem)
  qed
  ultimately show ?thesis using m' by (auto simp: r_def split: option.splits)
qed

lemma mem_restore:
  assumes "mem_inv m" "\<forall>(k, v) \<in> set kvs. decodable (mem_codec m) k v"
  shows "mem_inv (MemLedger_restore m kvs) \<and> mem_codec (MemLedger_restore m kvs) = mem_codec m \<and>
    mem_revisions (MemLedger_restore m kvs) = mem_revisions m \<and>
    mem_raw (MemLedger_restore m kvs) = fold put_kv kvs (mem_raw m)"
  using assms
proof (induction kvs arbitrary: m)
  case (Cons kv kvs)
  obtain k v where kv: "kv = (k, v)" by (cases kv)
  define m1 where "m1 = m\<lparr>memStorage := (memStorage m)(k \<mapsto> v)\<rparr>"
  have m1: "mem_raw m1 = put_kv kv (mem_raw m)" "mem_codec m1 = mem_codec m" "mem_revisions m1 = mem_revisions m"
    unfolding m1_def kv put_kv.simps by (rule mem_raw_Set) simp_all
  have "mem_inv m1" using Cons.prems kv by (auto simp: mem_inv_def m1_def)
  moreover have "\<forall>(k, v) \<in> set kvs. decodable (mem_codec m1) k v" using Cons.prems(2) m1 by simp
  moreover have "MemLedger_restore m (kv # kvs) = MemLedger_restore m1 kvs" by (simp add: kv m1_def)
  ultimately show ?case using Cons.IH[of m1] unfolding m1 by simp
qed simp

lemma MemLedger_Revert_spec:
  assumes "mem_inv m" "n \<le> length (mem_revisions m)"
  shows "\<exists>m'. MemLedger_RevertToSnapshot m n = Some (m', None) \<and> mem_inv m' \<and>
    mem_view m' = mem_hist m n \<and> length (mem_revisions m') = n \<and> mem_codec m' = mem_codec m \<and>
    (\<forall>i \<le> n. mem_hist m' i = mem_hist m i)"
proof -
  define m' where "m' = MemLedger_restore m (rev (drop n (mem_revisions m)))"
  have "\<forall>(k, v) \<in> set (rev (drop n (mem_revisions m))). decodable (mem_codec m) k v"
    using mem_inv_revs[OF assms(1)] by (auto dest: in_set_dropD)
  from mem_restore[OF assms(1) this] have
    m': "mem_inv m'" "mem_codec m' = mem_codec m" "mem_revisions m' = mem_revisions m"
      "mem_raw m' = undo (drop n (mem_revisions m)) (mem_raw m)"
    by (auto simp: undo_rev m'_def)
  let ?m = "m'\<lparr>mem_revisions := take n (mem_revisions m)\<rparr>"
  have "mem_inv ?m" using m' by (auto simp: mem_inv_def dest: in_set_takeD)
  moreover have "mem_hist ?m i = mem_hist m i" if "i \<le> n" for i
    using m' that assms(2) drop_take_append[of n "mem_revisions m" i]
    by (simp add: mem_hist_def undo_append[symmetric])
  moreover have "mem_view ?m = mem_hist m n" using m' by (simp add: mem_view_def mem_hist_def)
  ultimately show ?thesis using m' assms(2)
    by (simp add: MemLedger_RevertToSnapshot_def revisionList_revert_def m'_def[symmetric])
qed

interpretation memory: imitable mem_inv mem_view "\<lambda>m. storable (mem_codec m)"
  MemLedger_Get MemLedger_Set MemLedger_Del MemLedger_Snapshot
  MemLedger_RevertToSnapshot mem_hist mem_undoable
proof (unfold_locales, goal_cases)
  case (1 s k s' r)
  then show ?case using MemLedger_Get_spec[of s k] by (auto simp: map_get_def)
next
  case (2 s k v s' e)
  then show ?case using MemLedger_Set_spec[OF 2]
    by (auto simp: map_set_def MemLedger_Snapshot_def revisionList_snapshot_def)
next
  case (3 s k s' e)
  then show ?case using MemLedger_Del_spec[OF 3] by (auto simp: map_del_def)
next
  case (4 s k s' e)
  then show ?case using MemLedger_Del_spec[OF 4(1,3)]
    by (auto simp: MemLedger_Snapshot_def revisionList_snapshot_def)
next
  case (5 s)
  then show ?case by (simp add: mem_hist_def mem_view_def MemLedger_Snapshot_def revisionList_snapshot_def)
next
  case (6 s n)
  then show ?case using MemLedger_Revert_spec[of s n]
    by (auto simp: MemLedger_Snapshot_def revisionList_snapshot_def)
qed

section \<open>A concrete tree\<close>

text \<open>
  An instance of the tree parameter, the working tree and its saved versions as association lists;
  the witnesses below run the ledgers on it.
\<close>

type_synonym alist_tree = "(ledger_key \<times> bytes) list \<times> (ledger_key \<times> bytes) list list"

definition alist_entries :: "(ledger_key \<times> bytes) list \<Rightarrow> (ledger_key \<times> bytes) list" where
  "alist_entries al = map (\<lambda>k. (k, the (map_of al k))) (sorted_list_of_set (fst ` set al))"

definition alist_remove :: "(ledger_key \<times> bytes) list \<Rightarrow> ledger_key \<Rightarrow> (ledger_key \<times> bytes) list" where
  "alist_remove al k = filter (\<lambda>kv. fst kv \<noteq> k) al"

definition alist_iavl :: "(alist_tree, (ledger_key \<times> bytes) list) iavl" where
  "alist_iavl = \<lparr>
     iavl_Get = (\<lambda>t k. Inr (map_of (fst t) k)),
     iavl_Set = (\<lambda>t k v. Inr ((k, v) # fst t, snd t)),
     iavl_Remove = (\<lambda>t k. Inr ((alist_remove (fst t) k, snd t), map_of (fst t) k, map_of (fst t) k \<noteq> None)),
     iavl_Iterate = (\<lambda>t. Inr (alist_entries (fst t))),
     iavl_Iterator = (\<lambda>t p asc. Inr (let es = filter (\<lambda>kv. p \<le> fst kv) (alist_entries (fst t)) in
        if asc then es else rev es)),
     iavl_SaveVersion = (\<lambda>t. Inr ((fst t, snd t @ [fst t]), [], int (length (snd t)) + 1)),
     iavl_Version = (\<lambda>t. int (length (snd t))),
     iavl_GetImmutable = (\<lambda>t ver. if 0 < ver \<and> ver \<le> int (length (snd t)) then Inr (snd t ! nat (ver - 1))
        else Inl (EFmt ''version does not exist'')),
     immu_Get = (\<lambda>i k. case i of None \<Rightarrow> Inr None | Some al \<Rightarrow> Inr (map_of al k)),
     immu_Iterate = (\<lambda>i. Inr (alist_entries i)),
     immu_Iterator = (\<lambda>i p asc. Inr (let es = filter (\<lambda>kv. p \<le> fst kv) (alist_entries i) in
        if asc then es else rev es))\<rparr>"

lemma map_of_alist_remove: "map_of (alist_remove al k) = (map_of al)(k := None)"
  by (induction al) (auto simp: alist_remove_def fun_eq_iff)

lemma alist_iavl_ok: "iavl_ok alist_iavl"
  unfolding iavl_ok_def by (auto simp: alist_iavl_def map_of_alist_remove fun_eq_iff)

lemma alist_entries_sort:
  "alist_entries al = map (\<lambda>k. (k, the (map_of al k))) (sort (remdups (map fst al)))"
  using sorted_list_of_set_sort_remdups[of "map fst al"] by (simp add: alist_entries_def)

lemma alist_entries_sorted: "sorted_wrt (<) (map fst (alist_entries al))"
  by (simp add: alist_entries_def comp_def)

lemma alist_entries_set: "set (alist_entries al) = {(k, v). map_of al k = Some v}"
proof -
  have "set (alist_entries al) = (\<lambda>k. (k, the (map_of al k))) ` dom (map_of al)"
    by (simp add: alist_entries_def dom_map_of_conv_image_fst)
  then show ?thesis by force
qed

lemma alist_iavl_iter_ok: "iavl_iter_ok alist_iavl"
  unfolding iavl_iter_ok_def
  by (auto simp: alist_iavl_def alist_entries_set sorted_wrt_map sorted_wrt_filter
      alist_entries_sorted[unfolded sorted_wrt_map])

text \<open>A codec for the witnesses: items are the non-empty byte strings themselves.\<close>

definition raw_codec :: "bytes item_codec" where
  "raw_codec = \<lparr>Encode = Inr, Decode = (\<lambda>k bz. Inr bz)\<rparr>"

definition raw_ledger :: "(ledger_key \<times> bytes) list \<Rightarrow> (alist_tree, (ledger_key \<times> bytes) list, bytes) MutableLedger" where
  "raw_ledger al = \<lparr>iavl_ops = alist_iavl, codec = raw_codec, tree = (al, []), revisions = [], cachedObjs = Map.empty\<rparr>"

definition raw_mem :: "(ledger_key \<times> bytes) list \<Rightarrow> (alist_tree, (ledger_key \<times> bytes) list, bytes) MemLedger" where
  "raw_mem al = \<lparr>mem_iavl = alist_iavl, mem_codec = raw_codec, immuTree = Some al, memStorage = Map.empty, mem_revisions = []\<rparr>"

lemma raw_inv: "mut_inv (raw_ledger al)" "mem_inv (raw_mem al)"
  by (auto simp: mut_inv_def mem_inv_def raw_ledger_def raw_mem_def alist_iavl_ok raw_codec_def decodable_def
      split: option.splits)

lemma raw_storable: "storable raw_codec k v \<longleftrightarrow> v \<noteq> []"
  by (simp add: storable_def raw_codec_def)

lemma raw_views: "mut_view (raw_ledger al) = map_of al" "mem_view (raw_mem al) = map_of al"
  by (auto simp: mut_view_def mem_view_def view_of_def mut_raw_def mem_raw_def raw_ledger_def raw_mem_def
      alist_iavl_def raw_codec_def fun_eq_iff split: option.splits)

section \<open>Properties\<close>

text \<open>
  (C12) Both ledgers refine a map: from any state in which the tree behaves as a map and the cached
  objects agree with it, every sequence of \<open>Get\<close>, \<open>Set\<close> and \<open>Del\<close> calls with storable items answers
  exactly as the same calls on a map would, and leaves the ledger holding that map's contents.
\<close>

theorem ledger_refines_map:
  assumes "mut_inv l" "list_all (lop_storable (storable (codec l))) ops"
    and "mem_inv m" "list_all (lop_storable (storable (mem_codec m))) ops"
  shows "map_prod mut_view id (ledger_run MutableLedger_Get MutableLedger_Set MutableLedger_Del l ops) =
      ledger_run map_get map_set map_del (mut_view l) ops \<and>
    map_prod mem_view id (ledger_run MemLedger_Get MemLedger_Set MemLedger_Del m ops) =
      ledger_run map_get map_set map_del (mem_view m) ops"
  using mutable.run_refines[OF assms(1,2)] memory.run_refines[OF assms(3,4)] by simp

theorem ledger_refines_map_witness:
  "snd (ledger_run MutableLedger_Get MutableLedger_Set MutableLedger_Del (raw_ledger [])
      [LSet [1] [7], LGet [1], LDel [1], LGet [1]]) =
    [RErr None, RItem (Inr [7]), RErr None, RItem (Inl ErrNotFoundResult)]"
  using arg_cong[OF ledger_refines_map[of "raw_ledger []" "[LSet [1] [7], LGet [1], LDel [1], LGet [1]]" "raw_mem []",
        THEN conjunct1], of snd]
  by (simp add: raw_inv raw_storable raw_views map_get_def map_set_def map_del_def)
    (simp add: raw_ledger_def raw_mem_def raw_storable)

text \<open>
  (C13) Reverting to a snapshot undoes everything done since: after any sequence of \<open>Get\<close>, \<open>Set\<close> and
  \<open>Del\<close> calls on the committed ledger, and any sequence of \<open>Get\<close> and \<open>Set\<close> calls on the check ledger,
  \<open>RevertToSnapshot\<close> with the snapshot taken before succeeds and the ledger holds exactly what it
  held then.
\<close>

theorem ledger_revert_restores:
  assumes "mut_inv l" "list_all (lop_storable (storable (codec l))) ops"
    and "mem_inv m" "list_all (lop_storable (storable (mem_codec m))) ops'" "list_all no_del ops'"
  shows "(\<exists>l'. MutableLedger_RevertToSnapshot
        (fst (ledger_run MutableLedger_Get MutableLedger_Set MutableLedger_Del l ops))
        (MutableLedger_Snapshot l) = Some (l', None) \<and> mut_inv l' \<and> mut_view l' = mut_view l) \<and>
    (\<exists>m'. MemLedger_RevertToSnapshot
        (fst (ledger_run MemLedger_Get MemLedger_Set MemLedger_Del m ops'))
        (MemLedger_Snapshot m) = Some (m', None) \<and> mem_inv m' \<and> mem_view m' = mem_view m)"
proof -
  have "mutable.undoable_run l ops" by (rule mutable.undoable_all) simp
  then show ?thesis
    using mutable.revert_undoes_run[OF assms(1,2)]
      memory.revert_undoes_run[OF assms(3,4) memory.undoable_no_del[OF assms(5)]] by blast
qed

theorem ledger_revert_restores_witness:
  "\<exists>l'. MutableLedger_RevertToSnapshot
      (fst (ledger_run MutableLedger_Get MutableLedger_Set MutableLedger_Del (raw_ledger [([1], [5])])
        [LDel [1], LSet [2] [7]])) 0 = Some (l', None) \<and> mut_view l' = [[1] \<mapsto> [5]]"
  using ledger_revert_restores[of "raw_ledger [([1], [5])]" "[LDel [1], LSet [2] [7]]" "raw_mem []" "[]"]
  by (simp add: raw_inv raw_views)
    (auto simp: raw_ledger_def raw_mem_def raw_storable MutableLedger_Snapshot_def revisionList_snapshot_def)

text \<open>
  (C19) A deletion in the check ledger is not journaled when the key was not written before: deleting
  a committed key and reverting to the snapshot taken before leaves the key deleted in the
  \<open>MemLedger\<close>, for every ledger, while the \<open>MutableLedger\<close> has it again.
\<close>

theorem mem_del_not_reverted:
  assumes "mem_inv m" "memStorage m k = None"
    and "mut_inv l" "mut_view l k = Some v"
  shows "(\<exists>m'. MemLedger_RevertToSnapshot (fst (MemLedger_Del m k)) (MemLedger_Snapshot m) = Some (m', None) \<and>
      mem_view m' k = None) \<and>
    (\<exists>l'. MutableLedger_RevertToSnapshot (fst (MutableLedger_Del l k)) (MutableLedger_Snapshot l) = Some (l', None) \<and>
      mut_view l' k = Some v)"
proof
  show "\<exists>m'. MemLedger_RevertToSnapshot (fst (MemLedger_Del m k)) (MemLedger_Snapshot m) = Some (m', None) \<and>
      mem_view m' k = None"
    using assms(2) by (simp add: MemLedger_Del_def MemLedger_RevertToSnapshot_def MemLedger_Snapshot_def
        revisionList_snapshot_def Let_def mem_view_def view_of_def mem_raw_def)
  show "\<exists>l'. MutableLedger_RevertToSnapshot (fst (MutableLedger_Del l k)) (MutableLedger_Snapshot l) = Some (l', None) \<and>
      mut_view l' k = Some v"
    using mutable.revert_undoes_run[OF assms(3), of "[LDel k]"] assms(4)
    by (cases "MutableLedger_Del l k") auto
qed

theorem mem_del_not_reverted_witness:
  "\<exists>m'. MemLedger_RevertToSnapshot (fst (MemLedger_Del (raw_mem [([1], [5])]) [1]))
      (MemLedger_Snapshot (raw_mem [([1], [5])])) = Some (m', None) \<and>
    mem_view (raw_mem [([1], [5])]) [1] = Some [5] \<and> mem_view m' [1] = None"
proof -
  have "memStorage (raw_mem [([1], [5])]) [1] = None" by (simp add: raw_mem_def)
  from mem_del_not_reverted[OF raw_inv(2) this raw_inv(1)[of "[([1], [5])]"], of "[5]"]
  show ?thesis by (simp add: raw_views)
qed

text \<open>
  (C18) \<open>Commit\<close> keeps the state and publishes it: when the tree works, \<open>StateLedger.Commit\<close> succeeds,
  the committed ledger holds what it held before, the new check ledger holds the same, and the
  ledger's version is the one returned. The revision list is not emptied: the snapshot number after
  the commit is the one before.
\<close>

theorem StateLedger_Commit_publishes:
  assumes "mut_inv (commitLedger s)" "StateLedger_Commit s = (s', r)"
  shows "\<exists>hash ver. r = Inr (hash, ver) \<and> mut_inv (commitLedger s') \<and> mem_inv (imitableLedger s') \<and>
    mut_view (commitLedger s') = mut_view (commitLedger s) \<and>
    mem_view (imitableLedger s') = mut_view (commitLedger s) \<and>
    MutableLedger_Version (commitLedger s') = ver \<and> StateLedger_Snapshot s' False = 0 \<and>
    StateLedger_Snapshot s' True = StateLedger_Snapshot s True"
proof -
  let ?l = "commitLedger s"
  note ok = mut_inv_iavl[OF assms(1)]
  obtain t h ver i where t: "iavl_SaveVersion (iavl_ops ?l) (tree ?l) = Inr (t, h, ver)" "0 < ver"
      "iavl_Get (iavl_ops ?l) t = iavl_Get (iavl_ops ?l) (tree ?l)" "iavl_Version (iavl_ops ?l) t = ver"
      "iavl_GetImmutable (iavl_ops ?l) t ver = Inr i"
      "immu_Get (iavl_ops ?l) (Some i) = iavl_Get (iavl_ops ?l) (tree ?l)"
    using iavl_SaveD[OF ok] by blast
  let ?l' = "?l\<lparr>tree := t, cachedObjs := Map.empty\<rparr>"
  let ?m = "\<lparr>mem_iavl = iavl_ops ?l, mem_codec = codec ?l, immuTree = Some i, memStorage = Map.empty, mem_revisions = []\<rparr>"
  have s': "s' = \<lparr>commitLedger = ?l', imitableLedger = ?m\<rparr>" "r = Inr (h, ver)"
    using assms(2) t by (auto simp: StateLedger_Commit_def MutableLedger_Commit_def revisionList_reset_def
        NewMemLedgerAt_def MutableLedger_GetReadOnlyTree_def Let_def)
  have raw: "mut_raw ?l' = mut_raw ?l" "mem_raw ?m = mut_raw ?l"
    using t by (auto simp: mut_raw_def mem_raw_def fun_eq_iff)
  have "mut_inv ?l'" "mem_inv ?m" "mut_view ?l' = mut_view ?l" "mem_view ?m = mut_view ?l"
    using assms(1) raw by (auto simp: mut_inv_def mem_inv_def mut_view_def mem_view_def)
  then show ?thesis using s' t
    by (auto simp: StateLedger_Snapshot_def MemLedger_Snapshot_def MutableLedger_Snapshot_def
        revisionList_snapshot_def MutableLedger_Version_def)
qed

theorem StateLedger_Commit_publishes_witness:
  "mem_view (imitableLedger (fst (StateLedger_Commit
      \<lparr>commitLedger = raw_ledger [([1], [5])], imitableLedger = raw_mem []\<rparr>))) = [[1] \<mapsto> [5]]"
proof -
  let ?s = "\<lparr>commitLedger = raw_ledger [([1], [5])], imitableLedger = raw_mem []\<rparr>"
  obtain s' r where c: "StateLedger_Commit ?s = (s', r)" by (cases "StateLedger_Commit ?s")
  show ?thesis using StateLedger_Commit_publishes[OF _ c] raw_inv(1)[of "[([1], [5])]"] c
    by (auto simp: raw_views)
qed

section \<open>Seek\<close>

lemma HasPrefix_ge: "HasPrefix k p \<Longrightarrow> p \<le> k"
proof (induction p arbitrary: k)
  case (Cons x p)
  then show ?case by (cases k) (auto simp: HasPrefix_def)
qed simp

lemma HasPrefix_between: "p \<le> k \<Longrightarrow> k \<le> k' \<Longrightarrow> HasPrefix k' p \<Longrightarrow> HasPrefix k p"
proof (induction p arbitrary: k k')
  case (Cons x p)
  obtain y r where k': "k' = y # r" "y = x" "HasPrefix r p"
    using Cons.prems(3) by (cases k') (auto simp: HasPrefix_def)
  obtain z q where k: "k = z # q" using Cons.prems(1) by (cases k) auto
  have "z = x" "p \<le> q" "q \<le> r" using Cons.prems(1,2) k k' by auto
  with Cons.IH[of q r] k k' show ?case by (simp add: HasPrefix_def)
qed (simp add: HasPrefix_def)

lemma takeWhile_prefix:
  assumes "sorted_wrt (<) (map fst es)" "\<forall>kv \<in> set es. p \<le> fst kv"
  shows "takeWhile (\<lambda>kv. HasPrefix (fst kv) p) es = filter (\<lambda>kv. HasPrefix (fst kv) p) es"
  using assms
proof (induction es)
  case (Cons e es)
  have "\<not> HasPrefix (fst kv) p" if "\<not> HasPrefix (fst e) p" "kv \<in> set es" for kv
    using that Cons.prems HasPrefix_between[of p "fst e" "fst kv"] by (auto intro: less_imp_le)
  with Cons show ?case by (auto simp: filter_empty_conv)
qed simp

lemma seek_takeWhile:
  "seek_items cd p es cb acc = iterate_items cd (takeWhile (\<lambda>kv. HasPrefix (fst kv) p) es) cb acc"
  by (induction cd p es cb acc rule: seek_items.induct) (auto split: sum.splits prod.splits option.splits)

lemma sorted_pairs_unique:
  assumes "sorted_wrt (<) (map fst xs)" "sorted_wrt (<) (map fst ys)" "set xs = set ys"
  shows "xs = (ys :: (ledger_key \<times> 'b) list)"
  using assms
proof (induction xs arbitrary: ys)
  case (Cons x xs)
  then obtain y ys' where ys: "ys = y # ys'" by (cases ys) auto
  have "x = y"
  proof (rule ccontr)
    assume "x \<noteq> y"
    then have "y \<in> set xs" "x \<in> set ys'" using Cons.prems(3) ys by auto
    then have "fst x < fst y" "fst y < fst x" using Cons.prems(1,2) ys by auto
    then show False by simp
  qed
  moreover have "x \<notin> set xs" "y \<notin> set ys'" using Cons.prems(1,2) ys by auto
  ultimately have "set xs = set ys'" using Cons.prems(3) ys by auto
  then show ?case using Cons.IH[of ys'] Cons.prems(1,2) ys \<open>x = y\<close> by simp
qed simp

text \<open>
  \<open>Seek\<close> is complete and ordered: an ascending \<open>Seek\<close> of the committed ledger runs the callback on
  exactly the entries of a full iteration whose key has the prefix, in the same ascending order,
  and stops early only where the callback or the decoding fails.
\<close>

theorem Seek_visits_prefix:
  assumes "iavl_iter_ok (iavl_ops l)"
  shows "\<exists>es. iavl_Iterate (iavl_ops l) (tree l) = Inr es \<and>
    MutableLedger_Seek l pfx True cb acc =
      iterate_items (codec l) (filter (\<lambda>kv. HasPrefix (fst kv) pfx) es) cb acc"
proof -
  obtain es where es: "iavl_Iterate (iavl_ops l) (tree l) = Inr es" "sorted_wrt (<) (map fst es)"
      "set es = {(k, v). iavl_Get (iavl_ops l) (tree l) k = Inr (Some v)}"
    using assms unfolding iavl_iter_ok_def by blast
  obtain fs where fs: "iavl_Iterator (iavl_ops l) (tree l) pfx True = Inr fs" "sorted_wrt (<) (map fst fs)"
      "set fs = {(k, v). pfx \<le> k \<and> iavl_Get (iavl_ops l) (tree l) k = Inr (Some v)}"
    using assms unfolding iavl_iter_ok_def by blast
  have "filter (\<lambda>kv. HasPrefix (fst kv) pfx) fs = filter (\<lambda>kv. HasPrefix (fst kv) pfx) es"
    using es(2,3) fs(2,3) HasPrefix_ge
    by (intro sorted_pairs_unique) (auto simp: sorted_wrt_map sorted_wrt_filter)
  moreover have "takeWhile (\<lambda>kv. HasPrefix (fst kv) pfx) fs = filter (\<lambda>kv. HasPrefix (fst kv) pfx) fs"
    using fs(2,3) by (intro takeWhile_prefix) auto
  ultimately show ?thesis using es(1) fs(1) by (simp add: MutableLedger_Seek_def seek_takeWhile)
qed

theorem Seek_visits_prefix_witness:
  "MutableLedger_Seek (raw_ledger [([3, 9], [5]), ([2, 1], [6]), ([2, 0], [7])]) [2] True
      (\<lambda>acc k v. (acc @ [v], None)) [] = ([[7], [6]], None)"
  using Seek_visits_prefix[of "raw_ledger [([3, 9], [5]), ([2, 1], [6]), ([2, 0], [7])]" "[2]"
      "\<lambda>acc k v. (acc @ [v], None)" "[]"] alist_iavl_iter_ok
  by (auto simp: raw_ledger_def alist_iavl_def alist_entries_sort HasPrefix_def raw_codec_def)

end
