(* ===== verification/VPower.thy ===== *)
theory VPower
  imports Ledger_Keys Units
begin

text \<open>
  Voting power: \<open>vpower.go\<close>, \<open>delegatee.go\<close>, \<open>vpower_frozen.go\<close>, \<open>ctrler_vpower.go\<close> and
  \<open>ctrler_punish.go\<close> of \<open>src/ctrlers/vpower\<close>. A staking transaction creates a power chunk; the
  chunks from one staker to one delegatee form a \<open>VPower\<close>; a delegatee keeps the sums; released
  chunks are frozen until a refund height.

  The voting power ledger is the record \<open>vstate\<close>, one map per kind of key. The keys of different
  items are distinct, and a ledger answers \<open>Get\<close>, \<open>Set\<close> and \<open>Del\<close> as a map does, so the four maps are
  the ledger's contents; its calls do not fail on items that encode. The address of a public key
  is the parameter \<open>p2a\<close> (\<open>crypto.PubKeyBytes2Addr\<close>). Powers are \<open>int64\<close>: sums wrap.
\<close>

section \<open>Power chunks\<close>

record PowerChunk =
  cPower :: int
  cHeight :: int
  cTxHash :: bytes

record VPower =
  vSumPower :: int
  vPowerChunks :: "PowerChunk list"
  vfrom :: addr
  vto :: addr

definition NewVPower :: "addr \<Rightarrow> addr \<Rightarrow> VPower" where
  "NewVPower frm to = \<lparr>vSumPower = 0, vPowerChunks = [], vfrom = frm, vto = to\<rparr>"

definition IsSelfPower :: "VPower \<Rightarrow> bool" where
  "IsSelfPower x = (vfrom x = vto x)"

definition findPowerChunk :: "VPower \<Rightarrow> bytes \<Rightarrow> PowerChunk option" where
  "findPowerChunk x txhash = List.find (\<lambda>pc. cTxHash pc = txhash) (vPowerChunks x)"

definition addPowerWithTxHash :: "VPower \<Rightarrow> int \<Rightarrow> int \<Rightarrow> bytes \<Rightarrow> VPower" where
  "addPowerWithTxHash x pow height txhash =
     x\<lparr>vPowerChunks := vPowerChunks x @ [\<lparr>cPower = pow, cHeight = height, cTxHash = txhash\<rparr>],
       vSumPower := i64 (vSumPower x + pow)\<rparr>"

definition delPowerWithTxHash :: "VPower \<Rightarrow> bytes \<Rightarrow> (PowerChunk \<times> VPower) option" where
  "delPowerWithTxHash x txhash =
     (case remove_last (\<lambda>pc. cTxHash pc = txhash) (vPowerChunks x) of
        None \<Rightarrow> None
      | Some (pc, rest) \<Rightarrow>
          Some (pc, x\<lparr>vPowerChunks := rest, vSumPower := i64 (vSumPower x - cPower pc)\<rparr>))"

definition sumPowerChunk :: "VPower \<Rightarrow> int" where
  "sumPowerChunk x = fold (\<lambda>pc ret. i64 (ret + cPower pc)) (vPowerChunks x) 0"

section \<open>Delegatees\<close>

record Delegatee =
  PubKey :: bytes
  Delegators :: "addr list"
  dSumPower :: int
  dSelfPower :: int
  daddr :: addr

definition NewDelegatee :: "(bytes \<Rightarrow> addr) \<Rightarrow> bytes \<Rightarrow> Delegatee" where
  "NewDelegatee p2a pubKey =
     \<lparr>PubKey = pubKey, Delegators = [], dSumPower = 0, dSelfPower = 0, daddr = p2a pubKey\<rparr>"

definition addPower :: "Delegatee \<Rightarrow> addr \<Rightarrow> int \<Rightarrow> Delegatee" where
  "addPower x frm pow =
     (let x1 = x\<lparr>dSumPower := i64 (dSumPower x + pow)\<rparr> in
      if frm = daddr x then x1\<lparr>dSelfPower := i64 (dSelfPower x + pow)\<rparr> else x1)"

definition delPower :: "Delegatee \<Rightarrow> addr \<Rightarrow> int \<Rightarrow> Delegatee" where
  "delPower x frm pow =
     (let x1 = x\<lparr>dSumPower := i64 (dSumPower x - pow)\<rparr> in
      if frm = daddr x then x1\<lparr>dSelfPower := i64 (dSelfPower x - pow)\<rparr> else x1)"

definition hasDelegator :: "Delegatee \<Rightarrow> addr \<Rightarrow> bool" where
  "hasDelegator x frm = list_ex (\<lambda>d. d = frm) (Delegators x)"

definition addDelegator :: "Delegatee \<Rightarrow> addr \<Rightarrow> Delegatee" where
  "addDelegator x frm =
     (if \<not> hasDelegator x frm then x\<lparr>Delegators := Delegators x @ [frm]\<rparr> else x)"

definition delDelegator :: "Delegatee \<Rightarrow> addr \<Rightarrow> Delegatee" where
  "delDelegator x frm = (case remove_last (\<lambda>d. d = frm) (Delegators x) of
     None \<Rightarrow> x | Some (_, rest) \<Rightarrow> x\<lparr>Delegators := rest\<rparr>)"

definition findDelegateeByAddr :: "addr \<Rightarrow> Delegatee list \<Rightarrow> Delegatee option" where
  "findDelegateeByAddr a dgtees = List.find (\<lambda>v. daddr v = a) dgtees"

definition findDelegateeByPubKey :: "bytes \<Rightarrow> Delegatee list \<Rightarrow> Delegatee option" where
  "findDelegateeByPubKey pubKey dgtees = List.find (\<lambda>v. PubKey v = pubKey) dgtees"

text \<open>\<open>OrderByPowerDelegatees.Less\<close> and \<open>OrderByPubDelegatees.Less\<close>.\<close>

definition OrderByPower_Less :: "Delegatee \<Rightarrow> Delegatee \<Rightarrow> bool" where
  "OrderByPower_Less a b =
     (if dSumPower a \<noteq> dSumPower b then dSumPower a > dSumPower b
      else if dSelfPower a \<noteq> dSelfPower b then dSelfPower a > dSelfPower b
      else bytes_Compare (PubKey a) (PubKey b) < 0)"

definition OrderByPub_Less :: "Delegatee \<Rightarrow> Delegatee \<Rightarrow> bool" where
  "OrderByPub_Less a b = (bytes_Compare (PubKey a) (PubKey b) < 0)"

section \<open>Frozen power\<close>

record FrozenVPower =
  RefundPower :: int
  fPowerChunks :: "PowerChunk list"

definition newFrozenVPower :: "int \<Rightarrow> FrozenVPower" where
  "newFrozenVPower pw = \<lparr>RefundPower = pw, fPowerChunks = []\<rparr>"

fun appendPowerChunks :: "FrozenVPower \<Rightarrow> PowerChunk list \<Rightarrow> FrozenVPower" where
  "appendPowerChunks x [] = x"
| "appendPowerChunks x (pc # pcs) =
     appendPowerChunks (x\<lparr>RefundPower := i64 (RefundPower x + cPower pc),
                         fPowerChunks := fPowerChunks x @ [pc]\<rparr>) pcs"

section \<open>The ledger's items\<close>

record vstate =
  dgts :: "addr \<rightharpoonup> Delegatee"
  vpows :: "addr \<times> addr \<rightharpoonup> VPower"
  frozens :: "int \<times> addr \<rightharpoonup> FrozenVPower"
  missed :: "addr \<rightharpoonup> BlockCount"

definition readDelegatee :: "vstate \<Rightarrow> addr \<Rightarrow> Delegatee res" where
  "readDelegatee st a = (case dgts st a of None \<Rightarrow> Inl ErrNotFoundResult | Some d \<Rightarrow> Inr d)"

definition writeDelegatee :: "vstate \<Rightarrow> Delegatee \<Rightarrow> vstate" where
  "writeDelegatee st d = st\<lparr>dgts := (dgts st)(daddr d \<mapsto> d)\<rparr>"

definition removeDelegatee :: "vstate \<Rightarrow> addr \<Rightarrow> vstate" where
  "removeDelegatee st a = st\<lparr>dgts := (dgts st)(a := None)\<rparr>"

definition readVPower :: "vstate \<Rightarrow> addr \<Rightarrow> addr \<Rightarrow> VPower res" where
  "readVPower st frm to = (case vpows st (frm, to) of None \<Rightarrow> Inl ErrNotFoundResult | Some v \<Rightarrow> Inr v)"

definition writeVPower :: "vstate \<Rightarrow> VPower \<Rightarrow> vstate" where
  "writeVPower st v = st\<lparr>vpows := (vpows st)((vfrom v, vto v) \<mapsto> v)\<rparr>"

definition removeVPower :: "vstate \<Rightarrow> addr \<Rightarrow> addr \<Rightarrow> vstate" where
  "removeVPower st frm to = st\<lparr>vpows := (vpows st)((frm, to) := None)\<rparr>"

text \<open>\<open>Seek\<close> visits the delegatees in ascending key order, that is in order of their addresses.\<close>

definition loadDelegatees :: "vstate \<Rightarrow> Delegatee list" where
  "loadDelegatees st = map (\<lambda>a. the (dgts st a)) (sorted_list_of_set (dom (dgts st)))"

section \<open>Bonding and unbonding\<close>

definition bondPowerChunk :: "vstate \<Rightarrow> Delegatee \<Rightarrow> VPower \<Rightarrow> int \<Rightarrow> int \<Rightarrow> bytes \<Rightarrow> vstate" where
  "bondPowerChunk st dgtee vpow pw height txhash =
     (let vpow1 = addPowerWithTxHash vpow pw height txhash;
          st1 = writeVPower st vpow1;
          dgtee1 = addDelegator (addPower dgtee (vfrom vpow1) pw) (vfrom vpow1)
      in writeDelegatee st1 dgtee1)"

definition unbondPowerChunk ::
  "vstate \<Rightarrow> Delegatee \<Rightarrow> VPower \<Rightarrow> bytes \<Rightarrow> (PowerChunk \<times> Delegatee \<times> vstate) res" where
  "unbondPowerChunk st dgtee vpow txhash =
     (case delPowerWithTxHash vpow txhash of
        None \<Rightarrow> Inl (Wrapf ErrNotFoundStake ''validator has no power chunk'')
      | Some (pc, vpow1) \<Rightarrow>
          (let dgtee1 = delPower dgtee (vfrom vpow1) (cPower pc);
               (dgtee2, st1) =
                 (if vPowerChunks vpow1 = []
                  then (delDelegator dgtee1 (vfrom vpow1), removeVPower st (vfrom vpow1) (vto vpow1))
                  else (dgtee1, writeVPower st vpow1))
           in Inr (pc, dgtee2, writeDelegatee st1 dgtee2)))"

definition frozen_at :: "vstate \<Rightarrow> int \<Rightarrow> addr \<Rightarrow> FrozenVPower" where
  "frozen_at st refundHeight frm = (case frozens st (refundHeight, frm) of
     None \<Rightarrow> newFrozenVPower 0 | Some z \<Rightarrow> z)"

definition freezePowerChunk :: "vstate \<Rightarrow> addr \<Rightarrow> PowerChunk \<Rightarrow> int \<Rightarrow> vstate" where
  "freezePowerChunk st frm pc refundHeight =
     (let z = frozen_at st refundHeight frm;
          z1 = z\<lparr>RefundPower := i64 (RefundPower z + cPower pc), fPowerChunks := fPowerChunks z @ [pc]\<rparr>
      in st\<lparr>frozens := (frozens st)((refundHeight, frm) \<mapsto> z1)\<rparr>)"

definition freezePowerChunkList :: "vstate \<Rightarrow> addr \<Rightarrow> PowerChunk list \<Rightarrow> int \<Rightarrow> vstate" where
  "freezePowerChunkList st frm pcs refundHeight =
     (let z = frozen_at st refundHeight frm;
          z1 = z\<lparr>RefundPower := fold (\<lambda>pc r. i64 (r + cPower pc)) pcs (RefundPower z),
                 fPowerChunks := fPowerChunks z @ pcs\<rparr>
      in st\<lparr>frozens := (frozens st)((refundHeight, frm) \<mapsto> z1)\<rparr>)"

text \<open>
  The loop that releases everything delegated to \<open>a\<close>, in \<open>exeUnbonding\<close> and in \<open>BeginBlock\<close>: freeze
  the chunks of each delegator and remove its voting power.
\<close>

fun releaseDelegators :: "vstate \<Rightarrow> addr \<Rightarrow> addr list \<Rightarrow> int \<Rightarrow> vstate \<times> xerror option" where
  "releaseDelegators st a [] h = (st, None)"
| "releaseDelegators st a (frm # fs) h =
     (case readVPower st frm a of
        Inl xerr \<Rightarrow> (st, Some xerr)
      | Inr v \<Rightarrow> releaseDelegators
          (removeVPower (freezePowerChunkList st (vfrom v) (vPowerChunks v) h) (vfrom v) (vto v)) a fs h)"

definition readFrozenVPower :: "vstate \<Rightarrow> int \<Rightarrow> addr \<Rightarrow> FrozenVPower res" where
  "readFrozenVPower st h frm = (case frozens st (h, frm) of None \<Rightarrow> Inl ErrNotFoundResult | Some z \<Rightarrow> Inr z)"

definition removeFrozenVPower :: "vstate \<Rightarrow> int \<Rightarrow> addr \<Rightarrow> vstate" where
  "removeFrozenVPower st h frm = st\<lparr>frozens := (frozens st)((h, frm) := None)\<rparr>"

section \<open>Missed blocks\<close>

definition getMissedBlockCount :: "vstate \<Rightarrow> addr \<Rightarrow> BlockCount res" where
  "getMissedBlockCount st a = (case missed st a of None \<Rightarrow> Inl ErrNotFoundResult | Some c \<Rightarrow> Inr c)"

definition setMissedBlockCount :: "vstate \<Rightarrow> addr \<Rightarrow> BlockCount \<Rightarrow> vstate" where
  "setMissedBlockCount st a c = st\<lparr>missed := (missed st)(a \<mapsto> c)\<rparr>"

definition addMissedBlockCount :: "vstate \<Rightarrow> addr \<Rightarrow> (BlockCount \<times> vstate) res" where
  "addMissedBlockCount st a =
     (case getMissedBlockCount st a of
        Inl xerr \<Rightarrow> (if \<not> Contains xerr ErrNotFoundResult then Inl xerr
                     else let c = i64 (0 + 1) in Inr (c, setMissedBlockCount st a c))
      | Inr c0 \<Rightarrow> (let c = i64 (c0 + 1) in Inr (c, setMissedBlockCount st a c)))"

definition resetAllMissedBlockCount :: "vstate \<Rightarrow> vstate" where
  "resetAllMissedBlockCount st = st\<lparr>missed := Map.empty\<rparr>"

section \<open>Slashing\<close>

text \<open>
  One pass of the inner loop of \<open>doSlash\<close> over the chunks of a voting power, last chunk first. The
  accumulator holds the sums of the voting power and of the delegatee, and the total slashed.
\<close>

record slash_acc =
  sVSum :: int
  sDSum :: int
  sDSelf :: int
  sTotal :: int

fun slashChunks :: "int \<Rightarrow> bool \<Rightarrow> PowerChunk list \<Rightarrow> slash_acc \<Rightarrow> PowerChunk list \<times> slash_acc" where
  "slashChunks rate self [] acc = ([], acc)"
| "slashChunks rate self (pc # pcs) acc =
     (let slashed = i64 (cPower pc * rate) sdiv 100;
          acc1 = \<lparr>sVSum = i64 (sVSum acc - slashed), sDSum = i64 (sDSum acc - slashed),
                  sDSelf = (if self then i64 (sDSelf acc - slashed) else sDSelf acc),
                  sTotal = i64 (sTotal acc + slashed)\<rparr>;
          (pcs1, acc2) = slashChunks rate self pcs acc1
      in (pc\<lparr>cPower := i64 (cPower pc - slashed)\<rparr> # pcs1, acc2))"

fun slashDelegators ::
  "vstate \<Rightarrow> int \<Rightarrow> Delegatee \<Rightarrow> addr list \<Rightarrow> int \<Rightarrow> vstate \<times> (Delegatee \<times> int) res" where
  "slashDelegators st rate dgtee [] tot = (st, Inr (dgtee, tot))"
| "slashDelegators st rate dgtee (a # as) tot =
     (case readVPower st a (daddr dgtee) of
        Inl xerr \<Rightarrow> (st, Inl xerr)
      | Inr v \<Rightarrow>
          (let (rpcs, acc) = slashChunks rate (a = vto v) (rev (vPowerChunks v))
                 \<lparr>sVSum = vSumPower v, sDSum = dSumPower dgtee, sDSelf = dSelfPower dgtee, sTotal = tot\<rparr>;
               v1 = v\<lparr>vPowerChunks := rev rpcs, vSumPower := sVSum acc\<rparr>;
               dgtee1 = dgtee\<lparr>dSumPower := sDSum acc, dSelfPower := sDSelf acc\<rparr>
           in slashDelegators (writeVPower st v1) rate dgtee1 as (sTotal acc)))"

definition doSlash :: "vstate \<Rightarrow> addr \<Rightarrow> int \<Rightarrow> vstate \<times> int res" where
  "doSlash st targetAddr slashRate =
     (case readDelegatee st targetAddr of
        Inl xerr \<Rightarrow> (st, Inl xerr)
      | Inr dgtee \<Rightarrow> (case slashDelegators st slashRate dgtee (Delegators dgtee) 0 of
          (st1, Inl xerr) \<Rightarrow> (st1, Inl xerr)
        | (st1, Inr (dgtee1, slashedPower)) \<Rightarrow> (writeDelegatee st1 dgtee1, Inr slashedPower)))"

end
