(* ===== verification/Valset.thy ===== *)
theory Valset
  imports VPower
begin

text \<open>
  Choosing the validators: \<open>src/ctrlers/vpower/ctrler_valset.go\<close>. The top delegatees become the
  validators, and the consensus engine receives the difference to the previous set.
\<close>

text \<open>
  The code sorts its arguments in place; a sorted argument that stays visible to the caller is
  returned. A negative \<open>maxVals\<close> makes \<open>make\<close> panic (\<open>None\<close>).
\<close>

definition selectValidators :: "Delegatee list \<Rightarrow> int \<Rightarrow> (Delegatee list \<times> Delegatee list) option" where
  "selectValidators delegatees maxVals =
     (let ds = sort_by OrderByPower_Less delegatees;
          n = min (int (length delegatees)) maxVals
      in if n < 0 then None else Some (take (nat n) ds, ds))"

fun merge_updates :: "Delegatee list \<Rightarrow> Delegatee list \<Rightarrow> (bytes \<times> int) list" where
  "merge_updates (l # ls) (n # ns) =
     (let ret = bytes_Compare (PubKey l) (PubKey n) in
      if ret < 0 then (PubKey l, 0) # merge_updates ls (n # ns)
      else if ret = 0 then
        (if dSumPower l \<noteq> dSumPower n then (PubKey n, dSumPower n) # merge_updates ls ns
         else merge_updates ls ns)
      else (PubKey n, dSumPower n) # merge_updates (l # ls) ns)"
| "merge_updates ls [] = map (\<lambda>l. (PubKey l, 0)) ls"
| "merge_updates [] ns = map (\<lambda>n. (PubKey n, dSumPower n)) ns"

definition validatorUpdates ::
  "Delegatee list \<Rightarrow> Delegatee list \<Rightarrow> (bytes \<times> int) list \<times> Delegatee list \<times> Delegatee list" where
  "validatorUpdates lastVals newVals =
     (let ls = sort_by OrderByPub_Less lastVals; ns = sort_by OrderByPub_Less newVals
      in (merge_updates ls ns, ls, ns))"

definition updateValidators ::
  "Delegatee list \<Rightarrow> Delegatee list \<Rightarrow> int \<Rightarrow> ((bytes \<times> int) list \<times> Delegatee list \<times> Delegatee list) option" where
  "updateValidators allDelegatees lastValidators maxVals =
     (case selectValidators allDelegatees maxVals of
        None \<Rightarrow> None
      | Some (newVals, ds) \<Rightarrow>
          (case validatorUpdates lastValidators newVals of
             (ups, _, ns) \<Rightarrow> Some (ups, ns, ds)))"

section \<open>Orders\<close>

lemma OrderByPower_iff: "OrderByPower_Less a b \<longleftrightarrow> dSumPower b < dSumPower a \<or>
    dSumPower a = dSumPower b \<and> (dSelfPower b < dSelfPower a \<or> dSelfPower a = dSelfPower b \<and> PubKey a < PubKey b)"
  by (auto simp: OrderByPower_Less_def)

lemma swo_OrderByPower: "swo OrderByPower_Less"
proof -
  have "OrderByPower_Less x z \<or> OrderByPower_Less z y" if "OrderByPower_Less x y" for x y z
    using that
    by (cases "dSumPower z" "dSumPower x" rule: linorder_cases;
        cases "dSelfPower z" "dSelfPower x" rule: linorder_cases;
        cases "PubKey x" "PubKey z" rule: linorder_cases) (auto simp: OrderByPower_iff)
  moreover have "\<not> OrderByPower_Less y x" if "OrderByPower_Less x y" for x y
    using that by (auto simp: OrderByPower_iff)
  ultimately show ?thesis unfolding swo_def by blast
qed

lemma swo_OrderByPub: "swo OrderByPub_Less"
proof -
  have "PubKey x < PubKey z \<or> PubKey z < PubKey y" if "PubKey x < PubKey y" for x y z :: Delegatee
    using that by (cases "PubKey x < PubKey z") auto
  then show ?thesis unfolding swo_def OrderByPub_Less_def bytes_Compare_less by auto
qed

section \<open>What the engine does with the updates\<close>

definition powers :: "Delegatee list \<Rightarrow> bytes \<rightharpoonup> int" where
  "powers vs = map_of (map (\<lambda>d. (PubKey d, dSumPower d)) vs)"

text \<open>Tendermint's validator set after the updates: power 0 removes a key.\<close>

definition apply_updates :: "(bytes \<times> int) list \<Rightarrow> (bytes \<rightharpoonup> int) \<Rightarrow> bytes \<rightharpoonup> int" where
  "apply_updates ups m = fold (\<lambda>(k, p) m. m(k := if p = 0 then None else Some p)) ups m"

lemma apply_updates_map_of:
  "distinct (map fst ups) \<Longrightarrow>
    apply_updates ups m k = (case map_of ups k of None \<Rightarrow> m k | Some p \<Rightarrow> if p = 0 then None else Some p)"
proof (induction ups arbitrary: m)
  case (Cons u ups)
  obtain k' p where u: "u = (k', p)" by (cases u)
  have "map_of ups k' = None" using Cons.prems u by (auto simp: map_of_eq_None_iff)
  then show ?case using Cons u by (auto simp: apply_updates_def split: option.splits)
qed (simp add: apply_updates_def)

lemma powers_simps [simp]:
  "powers [] = Map.empty" "powers (d # ds) = (powers ds)(PubKey d \<mapsto> dSumPower d)"
  by (auto simp: powers_def)

lemma powers_None: "powers vs k = None \<longleftrightarrow> k \<notin> PubKey ` set vs"
  by (simp add: powers_def map_of_eq_None_iff image_image)

lemma powers_less: "(\<And>v. v \<in> set vs \<Longrightarrow> k < PubKey v) \<Longrightarrow> powers vs k = None"
  by (auto simp: powers_None)

definition upd_val :: "(bytes \<rightharpoonup> int) \<Rightarrow> (bytes \<rightharpoonup> int) \<Rightarrow> bytes \<Rightarrow> int option" where
  "upd_val m m' k = (if m k = m' k then None else Some (case m' k of None \<Rightarrow> 0 | Some p \<Rightarrow> p))"

lemma merge_keys: "u \<in> set (merge_updates ls ns) \<Longrightarrow> \<exists>d \<in> set ls \<union> set ns. fst u = PubKey d"
  by (induction ls ns rule: merge_updates.induct) (auto simp: Let_def split: if_splits)

lemma merge_distinct:
  assumes "sorted_wrt (<) (map PubKey ls)" "sorted_wrt (<) (map PubKey ns)"
  shows "sorted_wrt (<) (map fst (merge_updates ls ns))"
  using assms
proof (induction ls ns rule: merge_updates.induct)
  case (1 l ls n ns)
  consider "PubKey l < PubKey n" | "PubKey l = PubKey n" | "PubKey n < PubKey l" by fastforce
  then show ?case
  proof cases
    case 1
    then show ?thesis using "1.IH"(1) "1.prems" by (fastforce dest!: merge_keys)
  next
    case 2
    then show ?thesis using "1.IH"(2,3) "1.prems" by (fastforce dest!: merge_keys)
  next
    case 3
    then have "\<not> PubKey l < PubKey n" "PubKey l \<noteq> PubKey n" by auto
    then show ?thesis using "1.IH"(4) "1.prems" 3 by (fastforce dest!: merge_keys)
  qed
qed (auto simp: comp_def)

lemma merge_map_of:
  assumes "sorted_wrt (<) (map PubKey ls)" "sorted_wrt (<) (map PubKey ns)"
  shows "map_of (merge_updates ls ns) k = upd_val (powers ls) (powers ns) k"
  using assms
proof (induction ls ns rule: merge_updates.induct)
  case (1 l ls n ns)
  consider "PubKey l < PubKey n" | "PubKey l = PubKey n" | "PubKey n < PubKey l" by fastforce
  then show ?case
  proof cases
    case 1
    then have "powers ns (PubKey l) = None" using "1.prems"(2) by (fastforce intro!: powers_less)
    then show ?thesis using "1.IH"(1) "1.prems" 1 by (auto simp: upd_val_def)
  next
    case 2
    have "powers ls (PubKey n) = None" "powers ns (PubKey n) = None"
      using "1.prems" 2 by (fastforce intro!: powers_less)+
    then show ?thesis using "1.IH"(2,3) "1.prems" 2 by (auto simp: upd_val_def)
  next
    case 3
    then have "powers ls (PubKey n) = None" using "1.prems"(1) by (fastforce intro!: powers_less)
    then show ?thesis using "1.IH"(4) "1.prems" 3 by (auto simp: upd_val_def)
  qed
next
  case (2 ls)
  have "map_of (map (\<lambda>l. (PubKey l, 0)) ls) k = (if k \<in> PubKey ` set ls then Some 0 else None)"
    by (induction ls) auto
  then show ?case using powers_None[of ls k] by (auto simp: upd_val_def split: option.splits)
next
  case (3 n ns)
  then show ?case by (auto simp: upd_val_def powers_def split: option.splits)
qed

section \<open>Properties\<close>

lemma sort_pub_strict:
  assumes "distinct (map PubKey vs)"
  shows "sorted_wrt (<) (map PubKey (sort_by OrderByPub_Less vs))"
proof -
  let ?s = "sort_by OrderByPub_Less vs"
  have "sorted_wrt (\<lambda>x y. PubKey x \<le> PubKey y) ?s"
    using sorted_sort_by[OF swo_OrderByPub, of vs] by (simp add: OrderByPub_Less_def not_less)
  then have "sorted (map PubKey ?s)" by (simp add: sorted_wrt_map)
  moreover have "distinct (map PubKey ?s)"
    using assms by (simp add: distinct_map)
  ultimately show ?thesis by (simp add: strict_sorted_iff)
qed

lemma powers_sort:
  assumes "distinct (map PubKey vs)"
  shows "powers (sort_by lt vs) = powers vs"
  unfolding powers_def
  using assms by (subst map_of_inject_set) (auto simp: distinct_map inj_on_def comp_def)

text \<open>
  (C15) The validator updates are exactly the difference: for two sets of validators with distinct
  public keys and no zero power among the new ones, applying the updates to the powers of the last
  set gives the powers of the new set, no key is updated twice, and a key is updated only if its
  power changes.
\<close>

theorem validatorUpdates_correct:
  assumes "distinct (map PubKey lastVals)" "distinct (map PubKey newVals)"
    and "\<forall>v \<in> set newVals. dSumPower v \<noteq> 0"
  shows "apply_updates (fst (validatorUpdates lastVals newVals)) (powers lastVals) = powers newVals \<and>
    distinct (map fst (fst (validatorUpdates lastVals newVals))) \<and>
    fst ` set (fst (validatorUpdates lastVals newVals)) = {k. powers lastVals k \<noteq> powers newVals k}"
proof -
  let ?ls = "sort_by OrderByPub_Less lastVals" and ?ns = "sort_by OrderByPub_Less newVals"
  define ups where "ups = merge_updates ?ls ?ns"
  have ups: "fst (validatorUpdates lastVals newVals) = ups"
    by (simp add: validatorUpdates_def Let_def ups_def)
  have val: "map_of ups k = upd_val (powers lastVals) (powers newVals) k" for k
    using merge_map_of[OF sort_pub_strict[OF assms(1)] sort_pub_strict[OF assms(2)]] assms(1,2)
    by (simp add: ups_def powers_sort)
  have dist: "distinct (map fst ups)"
    using merge_distinct[OF sort_pub_strict[OF assms(1)] sort_pub_strict[OF assms(2)]]
    by (simp add: ups_def strict_sorted_iff)
  have nz: "powers newVals k \<noteq> Some 0" for k
    using assms(3) by (auto simp: powers_def dest!: map_of_SomeD)
  have "apply_updates ups (powers lastVals) k = powers newVals k" for k
    using nz[of k] by (auto simp: apply_updates_map_of[OF dist] val upd_val_def split: option.splits)
  moreover have "k \<in> fst ` set ups \<longleftrightarrow> powers lastVals k \<noteq> powers newVals k" for k
    using val[of k] map_of_eq_None_iff[of ups k] by (auto simp: upd_val_def split: if_splits)
  ultimately show ?thesis using dist unfolding ups by auto
qed

definition val_ex :: "bytes \<Rightarrow> int \<Rightarrow> Delegatee" where
  "val_ex pk p = \<lparr>PubKey = pk, Delegators = [], dSumPower = p, dSelfPower = p, daddr = pk\<rparr>"

theorem validatorUpdates_correct_witness:
  "fst ` set (fst (validatorUpdates [val_ex [2] 5, val_ex [1] 7] [val_ex [3] 4, val_ex [1] 7])) = {[2], [3]}"
proof -
  have "{k. powers [val_ex [2] 5, val_ex [1] 7] k \<noteq> powers [val_ex [3] 4, val_ex [1] 7] k} = {[2], [3]}"
    by (auto simp: val_ex_def)
  then show ?thesis
    using validatorUpdates_correct[of "[val_ex [2] 5, val_ex [1] 7]" "[val_ex [3] 4, val_ex [1] 7]"]
    by (simp add: val_ex_def)
qed



end
