(* ===== verification/VPower_Inv.thy ===== *)
theory VPower_Inv
  imports VPower
begin

text \<open>
  The invariant of the voting power ledger and its preservation. The sums the delegatees and the
  voting powers carry are the sums of the chunks they stand for, the delegator lists name exactly
  the stakers with power, and released power moves to the frozen items without loss. The total of
  bonded and frozen power is bounded by \<open>max_power\<close>, the largest total for which the products of
  slashing fit an \<open>int64\<close>; the coin supply is far below it.
\<close>

section \<open>Invariant\<close>

definition chunk_sum :: "PowerChunk list \<Rightarrow> int" where
  "chunk_sum cs = sum_list (map cPower cs)"

definition csum :: "VPower \<Rightarrow> int" where
  "csum v = chunk_sum (vPowerChunks v)"

definition fsum :: "FrozenVPower \<Rightarrow> int" where
  "fsum z = chunk_sum (fPowerChunks z)"

definition bonded :: "vstate \<Rightarrow> int" where
  "bonded st = msum csum (vpows st)"

definition frozen_sum :: "vstate \<Rightarrow> int" where
  "frozen_sum st = msum fsum (frozens st)"

definition max_power :: int where
  "max_power = 92233720368547758"

definition into :: "addr \<Rightarrow> (addr \<times> addr \<rightharpoonup> VPower) \<Rightarrow> addr \<rightharpoonup> VPower" where
  "into a m = (\<lambda>f. m (f, a))"

definition chunks_ok :: "PowerChunk list \<Rightarrow> bool" where
  "chunks_ok cs \<longleftrightarrow> (\<forall>c \<in> set cs. 0 \<le> cPower c)"

definition dgt_ok :: "(bytes \<Rightarrow> addr) \<Rightarrow> (addr \<rightharpoonup> VPower) \<Rightarrow> addr \<Rightarrow> Delegatee \<Rightarrow> bool" where
  "dgt_ok p2a m a d \<longleftrightarrow> daddr d = a \<and> p2a (PubKey d) = a \<and> distinct (Delegators d) \<and>
     set (Delegators d) = dom m \<and> dSumPower d = msum csum m \<and> dSelfPower d = mval csum m a"

definition vp_ok :: "addr \<Rightarrow> addr \<Rightarrow> VPower \<Rightarrow> bool" where
  "vp_ok f t v \<longleftrightarrow> vfrom v = f \<and> vto v = t \<and> vPowerChunks v \<noteq> [] \<and> vSumPower v = csum v \<and>
     chunks_ok (vPowerChunks v)"

definition fz_ok :: "FrozenVPower \<Rightarrow> bool" where
  "fz_ok z \<longleftrightarrow> RefundPower z = fsum z \<and> chunks_ok (fPowerChunks z)"

definition vbase :: "vstate \<Rightarrow> bool" where
  "vbase st \<longleftrightarrow>
     finite (dom (vpows st)) \<and> finite (dom (frozens st)) \<and>
     (\<forall>f t v. vpows st (f, t) = Some v \<longrightarrow> vp_ok f t v \<and> dgts st t \<noteq> None) \<and>
     (\<forall>h f z. frozens st (h, f) = Some z \<longrightarrow> fz_ok z) \<and>
     bonded st + frozen_sum st \<le> max_power"

definition vinv :: "(bytes \<Rightarrow> addr) \<Rightarrow> vstate \<Rightarrow> bool" where
  "vinv p2a st \<longleftrightarrow> vbase st \<and> finite (dom (dgts st)) \<and>
     (\<forall>a d. dgts st a = Some d \<longrightarrow> dgt_ok p2a (into a (vpows st)) a d)"

lemma vbaseD:
  assumes "vbase st"
  shows "finite (dom (vpows st))" "finite (dom (frozens st))"
    "vpows st (f, t) = Some v \<Longrightarrow> vp_ok f t v"
    "vpows st (f, t) = Some v \<Longrightarrow> \<exists>d. dgts st t = Some d"
    "frozens st (h, f) = Some z \<Longrightarrow> fz_ok z"
    "bonded st + frozen_sum st \<le> max_power"
  using assms by (auto simp: vbase_def)

lemma vinvD:
  assumes "vinv p2a st"
  shows "vbase st" "finite (dom (dgts st))"
    "dgts st a = Some d \<Longrightarrow> dgt_ok p2a (into a (vpows st)) a d"
  using assms by (auto simp: vinv_def)

lemma chunk_sum_simps [simp]:
  "chunk_sum [] = 0" "chunk_sum (c # cs) = cPower c + chunk_sum cs"
  "chunk_sum (cs @ cs') = chunk_sum cs + chunk_sum cs'" "chunk_sum (rev cs) = chunk_sum cs"
  by (simp_all add: chunk_sum_def flip: rev_map)

lemma chunks_ok_simps [simp]:
  "chunks_ok []" "chunks_ok (c # cs) \<longleftrightarrow> 0 \<le> cPower c \<and> chunks_ok cs"
  "chunks_ok (cs @ cs') \<longleftrightarrow> chunks_ok cs \<and> chunks_ok cs'" "chunks_ok (rev cs) \<longleftrightarrow> chunks_ok cs"
  by (auto simp: chunks_ok_def)

lemma chunk_sum_nonneg: "chunks_ok cs \<Longrightarrow> 0 \<le> chunk_sum cs"
  by (induction cs) auto

lemma into_upd [simp]:
  "into a (m((f, t) := x)) = (if t = a then (into a m)(f := x) else into a m)"
  by (auto simp: into_def)

lemma into_apply [simp]: "into a m f = m (f, a)"
  by (simp add: into_def)

lemma dom_into: "dom (into a m) = fst ` {p \<in> dom m. snd p = a}"
  by (force simp: into_def)

lemma finite_into [simp]: "finite (dom m) \<Longrightarrow> finite (dom (into a m))"
  by (simp add: dom_into)

lemma msum_nonneg:
  fixes g :: "'v \<Rightarrow> int"
  assumes "\<And>k v. m k = Some v \<Longrightarrow> 0 \<le> g v"
  shows "0 \<le> msum g m"
  unfolding msum_def using assms by (intro sum_nonneg) auto

lemma msum_ge:
  fixes g :: "'v \<Rightarrow> int"
  assumes "finite (dom m)" "\<And>k v. m k = Some v \<Longrightarrow> 0 \<le> g v" "m k = Some v"
  shows "g v \<le> msum g m"
proof -
  have "msum g m = msum g (m(k := None)) + g v" using msum_delete[OF assms(1), of g k] assms(3) by simp
  moreover have "0 \<le> msum g (m(k := None))"
    using assms(2) by (intro msum_nonneg) (auto split: if_splits)
  ultimately show ?thesis by simp
qed

lemma msum_into_le:
  assumes "finite (dom m)" "\<And>k v. m k = Some v \<Longrightarrow> 0 \<le> csum v"
  shows "msum csum (into a m) \<le> msum csum m"
proof -
  have "msum csum (into a m) = (\<Sum>p \<in> (\<lambda>f. (f, a)) ` dom (into a m). csum (the (m p)))"
    by (subst sum.reindex) (auto simp: msum_def inj_on_def)
  also have "\<dots> \<le> (\<Sum>p \<in> dom m. csum (the (m p)))"
    using assms by (intro sum_mono2) (auto simp: into_def)
  finally show ?thesis by (simp add: msum_def)
qed

lemma vp_ok_csum: "vp_ok f t v \<Longrightarrow> 0 \<le> csum v"
  by (simp add: vp_ok_def csum_def chunk_sum_nonneg)

lemma fz_ok_fsum: "fz_ok z \<Longrightarrow> 0 \<le> fsum z"
  by (simp add: fz_ok_def fsum_def chunk_sum_nonneg)

lemma csum_nonneg: "vbase st \<Longrightarrow> vpows st k = Some v \<Longrightarrow> 0 \<le> csum v"
  by (cases k) (auto dest: vbaseD(3) vp_ok_csum)

lemma fsum_nonneg: "vbase st \<Longrightarrow> frozens st k = Some z \<Longrightarrow> 0 \<le> fsum z"
  by (cases k) (auto dest: vbaseD(5) fz_ok_fsum)

lemma bonded_nonneg: "vbase st \<Longrightarrow> 0 \<le> bonded st"
  unfolding bonded_def by (rule msum_nonneg) (rule csum_nonneg)

lemma frozen_nonneg: "vbase st \<Longrightarrow> 0 \<le> frozen_sum st"
  unfolding frozen_sum_def by (rule msum_nonneg) (rule fsum_nonneg)

lemma csum_le_bonded: "vbase st \<Longrightarrow> vpows st k = Some v \<Longrightarrow> csum v \<le> bonded st"
  unfolding bonded_def by (rule msum_ge) (auto intro: vbaseD(1) csum_nonneg)

lemma fsum_le_frozen: "vbase st \<Longrightarrow> frozens st k = Some z \<Longrightarrow> fsum z \<le> frozen_sum st"
  unfolding frozen_sum_def by (rule msum_ge) (auto intro: vbaseD(2) fsum_nonneg)

lemma into_le_bonded: "vbase st \<Longrightarrow> msum csum (into a (vpows st)) \<le> bonded st"
  unfolding bonded_def by (rule msum_into_le) (auto intro: vbaseD(1) csum_nonneg)

lemma into_nonneg: "vbase st \<Longrightarrow> 0 \<le> msum csum (into a (vpows st))"
  by (rule msum_nonneg) (auto intro: csum_nonneg)

lemma self_bounds: "vbase st \<Longrightarrow>
    0 \<le> mval csum (into a (vpows st)) a \<and> mval csum (into a (vpows st)) a \<le> bonded st"
  by (cases "vpows st (a, a)") (auto simp: mval_def bonded_nonneg csum_le_bonded csum_nonneg)

lemma into_unknown: "vbase st \<Longrightarrow> dgts st a = None \<Longrightarrow> into a (vpows st) = Map.empty"
proof
  fix f assume "vbase st" "dgts st a = None"
  then show "into a (vpows st) f = None" by (cases "vpows st (f, a)") (auto dest: vbaseD(4))
qed

lemma total_bounds: "vbase st \<Longrightarrow> bonded st \<le> max_power" "vbase st \<Longrightarrow> frozen_sum st \<le> max_power"
  using bonded_nonneg frozen_nonneg vbaseD(6) by fastforce+

lemma in64_small: "0 \<le> x \<Longrightarrow> x \<le> max_power \<Longrightarrow> i64 x = x"
  by (rule i64_id) (simp add: in64_def max_power_def)

section \<open>Changing one voting power and its delegatee\<close>

lemma vinv_update:
  assumes "vinv p2a st"
    and vp: "vpows st' = (vpows st)((f, a) := x)" and dg: "dgts st' = (dgts st)(a := y)"
    and x: "\<And>v. x = Some v \<Longrightarrow> vp_ok f a v"
    and y: "\<And>d. y = Some d \<Longrightarrow> dgt_ok p2a ((into a (vpows st))(f := x)) a d"
    and none: "y = None \<Longrightarrow> (into a (vpows st))(f := x) = Map.empty"
    and fz: "finite (dom (frozens st'))" "\<And>h g z. frozens st' (h, g) = Some z \<Longrightarrow> fz_ok z"
    and tot: "bonded st' + frozen_sum st' \<le> max_power"
  shows "vinv p2a st'"
proof -
  have "dgt_ok p2a (into b (vpows st')) b d" if "dgts st' b = Some d" for b d
    using that vp dg y vinvD(3)[OF assms(1), of b d] by (cases "b = a") auto
  moreover have "vp_ok g t v \<and> dgts st' t \<noteq> None" if v: "vpows st' (g, t) = Some v" for g t v
  proof (cases "t = a")
    case True
    have "((into a (vpows st))(f := x)) g = Some v" using v True vp by (auto simp: into_def split: if_splits)
    then have "y \<noteq> None" using none by (metis option.distinct(1))
    then show ?thesis using v vp dg x True vbaseD(3)[OF vinvD(1)[OF assms(1)]] by (auto split: if_splits)
  next
    case False
    then show ?thesis using v vp dg vbaseD(3,4)[OF vinvD(1)[OF assms(1)], of g t v] by auto
  qed
  ultimately show ?thesis
    using vinvD(2)[OF assms(1)] vbaseD(1)[OF vinvD(1)[OF assms(1)]] vp dg fz tot by (simp add: vinv_def vbase_def)
qed

lemma msum_into_upd:
  assumes "vinv p2a st"
  shows "msum csum ((into a (vpows st))(f \<mapsto> v)) = msum csum (into a (vpows st)) - mval csum (vpows st) (f, a) + csum v"
    and "msum csum ((into a (vpows st))(f := None)) = msum csum (into a (vpows st)) - mval csum (vpows st) (f, a)"
  using msum_update[of "into a (vpows st)" csum f v] msum_delete[of "into a (vpows st)" csum f] vbaseD(1)[OF vinvD(1)[OF assms]]
  by (simp_all add: mval_def)

lemma hasDelegator_iff [simp]: "hasDelegator d f \<longleftrightarrow> f \<in> set (Delegators d)"
  by (auto simp: hasDelegator_def list_ex_iff)

section \<open>Bonding\<close>

text \<open>The voting power a bonding transaction adds to: the stored one, or a new one.\<close>

definition vpow_of :: "vstate \<Rightarrow> addr \<Rightarrow> addr \<Rightarrow> VPower" where
  "vpow_of st f a = (case vpows st (f, a) of None \<Rightarrow> NewVPower f a | Some v \<Rightarrow> v)"

lemma vpow_of_csum: "csum (vpow_of st f a) = mval csum (vpows st) (f, a)"
  by (auto simp: vpow_of_def mval_def csum_def NewVPower_def split: option.splits)

lemma vpow_of_props:
  assumes "vinv p2a st"
  shows "vfrom (vpow_of st f a) = f" "vto (vpow_of st f a) = a" "vSumPower (vpow_of st f a) = csum (vpow_of st f a)"
    "chunks_ok (vPowerChunks (vpow_of st f a))"
    "0 \<le> csum (vpow_of st f a)" "csum (vpow_of st f a) \<le> msum csum (into a (vpows st))"
proof -
  have "mval csum (vpows st) (f, a) \<le> msum csum (into a (vpows st))"
    using msum_ge[of "into a (vpows st)" csum f] vbaseD(1)[OF vinvD(1)[OF assms]] csum_nonneg[OF vinvD(1)[OF assms]] into_nonneg[OF vinvD(1)[OF assms], of a]
    by (cases "vpows st (f, a)") auto
  then show "csum (vpow_of st f a) \<le> msum csum (into a (vpows st))" by (simp add: vpow_of_csum)
qed (use vbaseD(3)[OF vinvD(1)[OF assms]] csum_nonneg[OF vinvD(1)[OF assms]] in
    \<open>auto simp: vpow_of_def NewVPower_def vp_ok_def csum_def split: option.splits\<close>)

lemma bond_vpow:
  fixes f a :: addr and h :: int and tx :: bytes
  assumes "vinv p2a st" "0 \<le> pw" "bonded st + frozen_sum st + pw \<le> max_power"
  defines "v1 \<equiv> addPowerWithTxHash (vpow_of st f a) pw h tx"
  shows "vp_ok f a v1" "csum v1 = csum (vpow_of st f a) + pw"
proof -
  note props = vpow_of_props[OF assms(1), of f a]
  have "csum (vpow_of st f a) + pw \<le> max_power"
    using props(6) into_le_bonded[OF vinvD(1)[OF assms(1)], of a] frozen_nonneg[OF vinvD(1)[OF assms(1)]] assms(3) by linarith
  then have "i64 (vSumPower (vpow_of st f a) + pw) = csum (vpow_of st f a) + pw"
    unfolding props(3) using props(5) assms(2) by (intro in64_small) auto
  then show "vp_ok f a v1" "csum v1 = csum (vpow_of st f a) + pw"
    using props assms(2) by (auto simp: v1_def addPowerWithTxHash_def vp_ok_def csum_def)
qed

lemma bond_dgtee:
  assumes "vinv p2a st" "dgt_ok p2a (into a (vpows st)) a d" "0 \<le> pw"
    "bonded st + frozen_sum st + pw \<le> max_power"
    "csum v1 = csum (vpow_of st f a) + pw"
  shows "dgt_ok p2a ((into a (vpows st))(f \<mapsto> v1)) a (addDelegator (addPower d f pw) f)"
proof -
  let ?m = "into a (vpows st)"
  have sums: "dSumPower d = msum csum ?m" "dSelfPower d = mval csum ?m a" and [simp]: "daddr d = a"
    using assms(2) by (auto simp: dgt_ok_def)
  have le: "msum csum ?m \<le> bonded st" "0 \<le> msum csum ?m" "0 \<le> mval csum ?m a" "mval csum ?m a \<le> bonded st"
    "0 \<le> frozen_sum st"
    using into_le_bonded[OF vinvD(1)[OF assms(1)]] into_nonneg[OF vinvD(1)[OF assms(1)]] self_bounds[OF vinvD(1)[OF assms(1)], of a] frozen_nonneg[OF vinvD(1)[OF assms(1)]]
    by auto
  have "i64 (dSumPower d + pw) = msum csum (?m(f \<mapsto> v1))"
    unfolding sums msum_into_upd(1)[OF assms(1)] assms(5) vpow_of_csum
    using le assms(3,4) by (subst in64_small) auto
  moreover have "i64 (dSelfPower d + pw) = mval csum (?m(a \<mapsto> v1)) a" if "f = a"
    unfolding sums using le assms(3,4,5) that vpow_of_csum[of st a a]
    by (subst in64_small) (auto simp: mval_def)
  ultimately show ?thesis
    using assms(2) by (auto simp: dgt_ok_def addDelegator_def addPower_def Let_def mval_def)
qed

lemma bondPowerChunk_spec:
  fixes f a :: addr and h :: int and tx :: bytes
  assumes inv: "vinv p2a st" and d: "dgt_ok p2a (into a (vpows st)) a d" and pw: "0 \<le> pw"
    and tot: "bonded st + frozen_sum st + pw \<le> max_power"
  defines "st' \<equiv> bondPowerChunk st d (vpow_of st f a) pw h tx"
  shows "vinv p2a st' \<and> bonded st' = bonded st + pw \<and> frozens st' = frozens st \<and> missed st' = missed st"
proof -
  let ?v1 = "addPowerWithTxHash (vpow_of st f a) pw h tx"
  note v1 = bond_vpow[OF inv pw tot, of f a h tx]
  have f: "vfrom ?v1 = f" "vto ?v1 = a" using v1(1) by (auto simp: vp_ok_def)
  have eq: "st' = st\<lparr>vpows := (vpows st)((f, a) \<mapsto> ?v1),
      dgts := (dgts st)(a \<mapsto> addDelegator (addPower d f pw) f)\<rparr>"
    using d by (simp add: st'_def bondPowerChunk_def Let_def writeVPower_def writeDelegatee_def f
        dgt_ok_def addDelegator_def addPower_def)
  have b: "bonded st' = bonded st + pw"
    using msum_update[OF vbaseD(1)[OF vinvD(1)[OF inv]], of csum "(f, a)" ?v1] v1(2)
    by (simp add: eq bonded_def vpow_of_csum)
  have fz: "frozens st' = frozens st" "missed st' = missed st" "frozen_sum st' = frozen_sum st"
    by (simp_all add: eq frozen_sum_def)
  have "vinv p2a st'"
  proof (rule vinv_update[OF inv])
    show "vpows st' = (vpows st)((f, a) := Some ?v1)"
      "dgts st' = (dgts st)(a := Some (addDelegator (addPower d f pw) f))" by (simp_all add: eq)
    show "vp_ok f a v" if "Some ?v1 = Some v" for v using that v1 by simp
    show "dgt_ok p2a ((into a (vpows st))(f := Some ?v1)) a e" if "Some (addDelegator (addPower d f pw) f) = Some e" for e
      using that bond_dgtee[OF inv d pw tot v1(2)] by simp
  qed (use fz b tot vbaseD(2)[OF vinvD(1)[OF inv]] vbaseD(5)[OF vinvD(1)[OF inv]] in auto)
  then show ?thesis using b fz by simp
qed

section \<open>Unbonding\<close>

lemma delPower_chunk:
  assumes "vp_ok f a v" "csum v \<le> max_power" "delPowerWithTxHash v tx = Some (pc, v1)"
  shows "0 \<le> cPower pc" "csum v1 = csum v - cPower pc" "vSumPower v1 = csum v1" "chunks_ok (vPowerChunks v1)"
    "vfrom v1 = f" "vto v1 = a" "cTxHash pc = tx" "pc \<in> set (vPowerChunks v)" "cPower pc \<le> csum v"
proof -
  obtain cs where rl: "remove_last (\<lambda>c. cTxHash c = tx) (vPowerChunks v) = Some (pc, cs)"
    and v1: "v1 = v\<lparr>vPowerChunks := cs, vSumPower := i64 (vSumPower v - cPower pc)\<rparr>"
    using assms(3) by (auto simp: delPowerWithTxHash_def split: option.splits)
  note pred = remove_last_pred[OF rl]
  have ok: "chunks_ok (vPowerChunks v)" using assms(1) by (simp add: vp_ok_def)
  then show "0 \<le> cPower pc" "chunks_ok (vPowerChunks v1)" using pred v1 by (auto simp: chunks_ok_def)
  have sum: "chunk_sum cs = csum v - cPower pc"
    using remove_last_sum[OF rl, of cPower] by (simp add: csum_def chunk_sum_def)
  then show "csum v1 = csum v - cPower pc" using v1 by (simp add: csum_def)
  have "0 \<le> chunk_sum cs" using \<open>chunks_ok (vPowerChunks v1)\<close> v1 by (simp add: chunk_sum_nonneg)
  with sum show "cPower pc \<le> csum v" by simp
  with sum \<open>0 \<le> chunk_sum cs\<close> \<open>0 \<le> cPower pc\<close> assms(1,2) show "vSumPower v1 = csum v1"
    using v1 by (simp add: vp_ok_def csum_def in64_small)
  show "vfrom v1 = f" "vto v1 = a" "cTxHash pc = tx" "pc \<in> set (vPowerChunks v)"
    using assms(1) v1 pred by (auto simp: vp_ok_def)
qed

lemma delPower_none: "delPowerWithTxHash v tx = None \<longleftrightarrow> findPowerChunk v tx = None"
  by (auto simp: delPowerWithTxHash_def findPowerChunk_def find_None_iff split: option.splits
      dest: remove_last_pred)

lemma delDelegator_props:
  assumes "distinct (Delegators d)"
  shows "distinct (Delegators (delDelegator d f)) \<and> set (Delegators (delDelegator d f)) = set (Delegators d) - {f} \<and>
    daddr (delDelegator d f) = daddr d \<and> PubKey (delDelegator d f) = PubKey d \<and>
    dSumPower (delDelegator d f) = dSumPower d \<and> dSelfPower (delDelegator d f) = dSelfPower d"
proof (cases "remove_last (\<lambda>x. x = f) (Delegators d)")
  case None
  then have "f \<notin> set (Delegators d)" by auto
  moreover have "delDelegator d f = d" unfolding delDelegator_def None by simp
  ultimately show ?thesis using assms by simp
next
  case (Some r)
  obtain y ys where r: "remove_last (\<lambda>x. x = f) (Delegators d) = Some (y, ys)" using Some by (cases r) auto
  have "y = f" using remove_last_pred[OF r] by simp
  then show ?thesis using r remove_last_distinct[OF r assms] by (simp add: delDelegator_def)
qed

lemma delPower_dgtee:
  assumes "vbase st" "dgt_ok p2a (into a (vpows st)) a d" "0 \<le> p" "p \<le> mval csum (into a (vpows st)) f"
  shows "daddr (delPower d f p) = a \<and> PubKey (delPower d f p) = PubKey d \<and> Delegators (delPower d f p) = Delegators d \<and>
    dSumPower (delPower d f p) = msum csum (into a (vpows st)) - p \<and>
    dSelfPower (delPower d f p) = mval csum (into a (vpows st)) a - (if f = a then p else 0)"
proof -
  let ?m = "into a (vpows st)"
  have "mval csum ?m f \<le> msum csum ?m"
    using msum_ge[of ?m csum f] vbaseD(1)[OF assms(1)] csum_nonneg[OF assms(1)] into_nonneg[OF assms(1), of a]
    by (cases "vpows st (f, a)") auto
  then have "i64 (msum csum ?m - p) = msum csum ?m - p"
    using assms(3,4) into_le_bonded[OF assms(1), of a] total_bounds(1)[OF assms(1)] by (intro in64_small) linarith+
  moreover have "i64 (mval csum ?m a - p) = mval csum ?m a - p" if "f = a"
    using assms(3,4) that self_bounds[OF assms(1), of a] total_bounds(1)[OF assms(1)] by (intro in64_small) auto
  ultimately show ?thesis using assms(2) by (auto simp: delPower_def Let_def dgt_ok_def)
qed

lemma unbondPowerChunk_spec:
  assumes inv: "vinv p2a st" and d: "dgts st a = Some d" and v: "vpows st (f, a) = Some v"
    and pc: "delPowerWithTxHash v tx = Some (pc, v1)"
  shows "\<exists>d' st'. unbondPowerChunk st d v tx = Inr (pc, d', st') \<and> vinv p2a st' \<and>
    bonded st' = bonded st - cPower pc \<and> frozens st' = frozens st \<and> missed st' = missed st \<and>
    dgts st' = (dgts st)(a \<mapsto> d') \<and>
    dSelfPower d' = dSelfPower d - (if f = a then cPower pc else 0) \<and> dSumPower d' = dSumPower d - cPower pc"
proof -
  let ?m = "into a (vpows st)"
  note b = vinvD(1)[OF inv]
  have vp: "vp_ok f a v" using vbaseD(3)[OF b v] .
  have vle: "csum v \<le> max_power" using csum_le_bonded[OF b v] total_bounds(1)[OF b] by simp
  note c = delPower_chunk[OF vp vle pc]
  have dok: "dgt_ok p2a ?m a d" using vinvD(3)[OF inv d] .
  define d1 where "d1 = delPower d f (cPower pc)"
  have d1: "daddr d1 = a" "PubKey d1 = PubKey d" "Delegators d1 = Delegators d"
      "dSumPower d1 = msum csum ?m - cPower pc" "dSelfPower d1 = mval csum ?m a - (if f = a then cPower pc else 0)"
    using delPower_dgtee[OF b dok c(1), of f] v c(9) by (simp_all add: d1_def)
  define empty where "empty = (vPowerChunks v1 = [])"
  define d2 where "d2 = (if empty then delDelegator d1 f else d1)"
  define x where "x = (if empty then None else Some v1)"
  define st' where "st' = st\<lparr>vpows := (vpows st)((f, a) := x), dgts := (dgts st)(a \<mapsto> d2)\<rparr>"
  have dist: "distinct (Delegators d1)" using dok d1 by (simp add: dgt_ok_def)
  have d2: "daddr d2 = a" "PubKey d2 = PubKey d" "dSumPower d2 = dSumPower d1" "dSelfPower d2 = dSelfPower d1"
      "distinct (Delegators d2)" "set (Delegators d2) = (if empty then set (Delegators d) - {f} else set (Delegators d))"
    using delDelegator_props[OF dist, of f] d1(1-3) dist by (cases empty; simp add: d2_def)+
  have eq: "unbondPowerChunk st d v tx = Inr (pc, d2, st')"
    using pc c(5,6) d2(1) by (cases "vPowerChunks v1 = []") (simp_all add: unbondPowerChunk_def
        d1_def[symmetric] d2_def x_def st'_def empty_def Let_def removeVPower_def writeVPower_def writeDelegatee_def)
  have x0: "mval csum (?m(f := x)) g = (if g = f then csum v - cPower pc else mval csum ?m g)" for g
    using c(2) by (auto simp: x_def empty_def mval_def csum_def)
  have xs: "msum csum (?m(f := x)) = msum csum ?m - cPower pc"
    using msum_into_upd[OF inv, of a f] v c(2) by (auto simp: x_def empty_def csum_def)
  have bd: "bonded st' = bonded st - cPower pc"
    using msum_update[OF vbaseD(1)[OF b], of csum "(f, a)" v1] msum_delete[OF vbaseD(1)[OF b], of csum "(f, a)"] v c(2)
    by (auto simp: bonded_def st'_def x_def empty_def csum_def)
  have "dgt_ok p2a (?m(f := x)) a d2"
    using dok d2 d1 x0[of a] xs v by (auto simp: dgt_ok_def x_def split: if_splits)
  then have "vinv p2a st'"
    using bd c vbaseD(2,5,6)[OF b] by (intro vinv_update[OF inv, of st' f a x "Some d2"])
      (auto simp: st'_def x_def empty_def vp_ok_def frozen_sum_def split: if_splits)
  then show ?thesis using eq bd d2 d1 dok by (auto simp: st'_def dgt_ok_def)
qed

section \<open>Freezing and releasing\<close>

lemma fold_i64_sum:
  "chunks_ok pcs \<Longrightarrow> 0 \<le> r \<Longrightarrow> r + chunk_sum pcs \<le> max_power \<Longrightarrow>
    fold (\<lambda>pc r. i64 (r + cPower pc)) pcs r = r + chunk_sum pcs"
proof (induction pcs arbitrary: r)
  case (Cons c cs)
  have "0 \<le> chunk_sum cs" using Cons.prems(1) by (simp add: chunk_sum_nonneg)
  with Cons.prems have "i64 (r + cPower c) = r + cPower c" by (intro in64_small) auto
  with Cons show ?case by simp
qed simp

lemma frozen_at_props:
  assumes "vbase st"
  shows "fz_ok (frozen_at st h f)" "fsum (frozen_at st h f) = mval fsum (frozens st) (h, f)"
    "0 \<le> fsum (frozen_at st h f)" "fsum (frozen_at st h f) \<le> frozen_sum st"
proof -
  show "fz_ok (frozen_at st h f)" using vbaseD(5)[OF assms]
    by (auto simp: frozen_at_def newFrozenVPower_def fz_ok_def fsum_def split: option.splits)
  then show "0 \<le> fsum (frozen_at st h f)" by (rule fz_ok_fsum)
qed (use fsum_le_frozen[OF assms] frozen_nonneg[OF assms] in
    \<open>auto simp: frozen_at_def newFrozenVPower_def fsum_def mval_def split: option.splits\<close>)

lemma freezeList_spec:
  fixes f :: addr and h :: int
  assumes b: "vbase st" and pcs: "chunks_ok pcs" "frozen_sum st + chunk_sum pcs \<le> max_power"
  defines "st' \<equiv> freezePowerChunkList st f pcs h"
  shows "finite (dom (frozens st'))" "frozens st' (h', f') = Some z \<Longrightarrow> fz_ok z"
    "frozen_sum st' = frozen_sum st + chunk_sum pcs"
    "vpows st' = vpows st" "dgts st' = dgts st" "missed st' = missed st"
proof -
  let ?z = "frozen_at st h f"
  let ?z1 = "?z\<lparr>RefundPower := fold (\<lambda>pc r. i64 (r + cPower pc)) pcs (RefundPower ?z), fPowerChunks := fPowerChunks ?z @ pcs\<rparr>"
  have st': "st' = st\<lparr>frozens := (frozens st)((h, f) \<mapsto> ?z1)\<rparr>"
    by (simp add: st'_def freezePowerChunkList_def Let_def)
  note z = frozen_at_props[OF b, of h f]
  have "fold (\<lambda>pc r. i64 (r + cPower pc)) pcs (RefundPower ?z) = RefundPower ?z + chunk_sum pcs"
    using z pcs by (intro fold_i64_sum) (auto simp: fz_ok_def)
  then have z1: "fz_ok ?z1" "fsum ?z1 = fsum ?z + chunk_sum pcs" using z(1) pcs by (auto simp: fz_ok_def fsum_def)
  show "frozen_sum st' = frozen_sum st + chunk_sum pcs"
    unfolding frozen_sum_def st' using msum_update[OF vbaseD(2)[OF b], of fsum "(h, f)" ?z1] z1(2) z(2) by simp
  show "fz_ok z" if "frozens st' (h', f') = Some z"
    using that z1(1) vbaseD(5)[OF b] by (auto simp: st' split: if_splits)
qed (use vbaseD(2)[OF b] in \<open>auto simp: st'_def freezePowerChunkList_def Let_def\<close>)

lemma freeze_one: "freezePowerChunk st f pc h = freezePowerChunkList st f [pc] h"
  by (simp add: freezePowerChunk_def freezePowerChunkList_def)

lemma freezePowerChunk_spec:
  assumes inv: "vinv p2a st" and pc: "0 \<le> cPower pc" "bonded st + frozen_sum st + cPower pc \<le> max_power"
  shows "vinv p2a (freezePowerChunk st f pc h) \<and> bonded (freezePowerChunk st f pc h) = bonded st \<and>
    frozen_sum (freezePowerChunk st f pc h) = frozen_sum st + cPower pc \<and>
    dgts (freezePowerChunk st f pc h) = dgts st \<and> vpows (freezePowerChunk st f pc h) = vpows st \<and>
    missed (freezePowerChunk st f pc h) = missed st"
proof -
  have le: "frozen_sum st + chunk_sum [pc] \<le> max_power" using pc bonded_nonneg[OF vinvD(1)[OF inv]] by simp
  note fs = freezeList_spec[OF vinvD(1)[OF inv] _ le, of f h]
  then show ?thesis using inv pc unfolding freeze_one vinv_def vbase_def
    by (auto simp: bonded_def)
qed

lemma release_one:
  fixes h :: int
  assumes b: "vbase st" and v: "vpows st (f, a) = Some v"
  defines "st' \<equiv> removeVPower (freezePowerChunkList st f (vPowerChunks v) h) f a"
  shows "vbase st' \<and> bonded st' = bonded st - csum v \<and> frozen_sum st' = frozen_sum st + csum v \<and>
    dgts st' = dgts st \<and> missed st' = missed st \<and> vpows st' = (vpows st)((f, a) := None)"
proof -
  have ok: "chunks_ok (vPowerChunks v)" using vbaseD(3)[OF b v] by (simp add: vp_ok_def)
  have le: "frozen_sum st + chunk_sum (vPowerChunks v) \<le> max_power"
    using csum_le_bonded[OF b v] vbaseD(6)[OF b] by (simp add: csum_def)
  note fs = freezeList_spec[OF b ok le, of f h]
  have st': "vpows st' = (vpows st)((f, a) := None)" "frozen_sum st' = frozen_sum st + csum v"
    "dgts st' = dgts st" "missed st' = missed st" "frozens st' = frozens (freezePowerChunkList st f (vPowerChunks v) h)"
    using fs by (auto simp: st'_def removeVPower_def frozen_sum_def csum_def)
  moreover have "bonded st' = bonded st - csum v"
    using msum_delete[OF vbaseD(1)[OF b], of csum "(f, a)"] v st'(1) by (simp add: bonded_def)
  moreover have "vbase st'" using b fs(1,2) st' calculation(6) unfolding vbase_def by auto
  ultimately show ?thesis by simp
qed

lemma releaseDelegators_spec:
  assumes "vbase st" "distinct fs" "set fs \<subseteq> dom (into a (vpows st))"
  shows "\<exists>st'. releaseDelegators st a fs h = (st', None) \<and> vbase st' \<and>
    bonded st' + frozen_sum st' = bonded st + frozen_sum st \<and> dgts st' = dgts st \<and> missed st' = missed st \<and>
    (\<forall>f t. vpows st' (f, t) = (if t = a \<and> f \<in> set fs then None else vpows st (f, t)))"
  using assms
proof (induction fs arbitrary: st)
  case (Cons f fs)
  obtain v where v: "vpows st (f, a) = Some v" using Cons.prems(3) by auto
  have vf: "vfrom v = f" "vto v = a" using vbaseD(3)[OF Cons.prems(1) v] by (auto simp: vp_ok_def)
  define st1 where "st1 = removeVPower (freezePowerChunkList st f (vPowerChunks v) h) f a"
  note r = release_one[OF Cons.prems(1) v, of h, folded st1_def]
  have sub: "set fs \<subseteq> dom (into a (vpows st1))" using r Cons.prems(2,3) by auto
  obtain st' where st': "releaseDelegators st1 a fs h = (st', None)" "vbase st'"
      "bonded st' + frozen_sum st' = bonded st1 + frozen_sum st1" "dgts st' = dgts st1" "missed st' = missed st1"
      "\<forall>f t. vpows st' (f, t) = (if t = a \<and> f \<in> set fs then None else vpows st1 (f, t))"
    using Cons.IH[OF conjunct1[OF r] _ sub] Cons.prems(2) by auto
  have "releaseDelegators st a (f # fs) h = (st', None)"
    using v vf st'(1) by (simp add: readVPower_def st1_def)
  then show ?case using st' r by auto
qed simp

lemma release_all_spec:
  assumes inv: "vinv p2a st" and d: "dgts st a = Some d"
  shows "\<exists>st'. releaseDelegators st a (Delegators d) h = (st', None) \<and> vinv p2a (removeDelegatee st' a) \<and>
    bonded st' + frozen_sum st' = bonded st + frozen_sum st \<and> dgts st' = dgts st \<and> missed st' = missed st \<and>
    into a (vpows st') = Map.empty"
proof -
  have dok: "dgt_ok p2a (into a (vpows st)) a d" using vinvD(3)[OF inv d] .
  obtain st' where st': "releaseDelegators st a (Delegators d) h = (st', None)" "vbase st'"
      "bonded st' + frozen_sum st' = bonded st + frozen_sum st" "dgts st' = dgts st" "missed st' = missed st"
      "\<forall>f t. vpows st' (f, t) = (if t = a \<and> f \<in> set (Delegators d) then None else vpows st (f, t))"
    using releaseDelegators_spec[OF vinvD(1)[OF inv], of "Delegators d" a h] dok by (auto simp: dgt_ok_def)
  have gone: "into a (vpows st') = Map.empty" using st'(6) dok by (auto simp: into_def dgt_ok_def fun_eq_iff dom_def)
  have same: "into b (vpows st') = into b (vpows st)" if "b \<noteq> a" for b using st'(6) that by (auto simp: into_def)
  let ?st = "removeDelegatee st' a"
  have "vbase ?st"
  proof -
    have "dgts ?st t \<noteq> None" if "vpows st' (f, t) = Some v" for f t v
      using that gone vbaseD(4)[OF st'(2) that] by (cases "t = a") (auto simp: removeDelegatee_def into_def fun_eq_iff)
    then show ?thesis using st'(2) by (auto simp: vbase_def removeDelegatee_def bonded_def frozen_sum_def)
  qed
  moreover have "dgt_ok p2a (into b (vpows ?st)) b e" if "dgts ?st b = Some e" for b e
    using that same vinvD(3)[OF inv, of b e] st'(4) by (auto simp: removeDelegatee_def split: if_splits)
  ultimately have "vinv p2a ?st" using vinvD(2)[OF inv] st'(4) by (simp add: vinv_def removeDelegatee_def)
  then show ?thesis using st' gone by blast
qed

section \<open>Slashing\<close>

definition slash_of :: "int \<Rightarrow> PowerChunk \<Rightarrow> int" where
  "slash_of rate c = cPower c * rate div 100"

definition slash_sum :: "int \<Rightarrow> PowerChunk list \<Rightarrow> int" where
  "slash_sum rate cs = sum_list (map (slash_of rate) cs)"

lemma slash_of_bounds:
  assumes "0 \<le> cPower c" "0 \<le> rate" "rate \<le> 100"
  shows "0 \<le> slash_of rate c" "slash_of rate c \<le> cPower c" "slash_of rate c * 100 \<le> cPower c * rate"
proof -
  have "cPower c * rate \<le> cPower c * 100" using assms by (intro mult_left_mono) auto
  then show "slash_of rate c \<le> cPower c" unfolding slash_of_def by linarith
  have "0 \<le> cPower c * rate" using assms by simp
  then show "0 \<le> slash_of rate c" "slash_of rate c * 100 \<le> cPower c * rate"
    unfolding slash_of_def by linarith+
qed

lemma slash_sum_bounds:
  assumes "chunks_ok cs" "0 \<le> rate" "rate \<le> 100"
  shows "0 \<le> slash_sum rate cs \<and> slash_sum rate cs \<le> chunk_sum cs \<and> slash_sum rate cs * 100 \<le> chunk_sum cs * rate"
  using assms(1)
proof (induction cs)
  case (Cons c cs)
  then show ?case using slash_of_bounds[of c rate] assms(2,3)
    by (simp add: slash_sum_def distrib_right)
qed (simp add: slash_sum_def)

lemma slash_chunk_eq:
  assumes "0 \<le> cPower c" "cPower c \<le> max_power" "0 \<le> rate" "rate \<le> 100"
  shows "i64 (cPower c * rate) sdiv 100 = slash_of rate c"
proof -
  have "cPower c * rate \<le> max_power * 100" using assms by (intro mult_mono) auto
  moreover have "0 \<le> cPower c * rate" using assms by simp
  ultimately have "in64 (cPower c * rate)" by (auto simp: in64_def max_power_def)
  then show ?thesis using assms by (simp add: slash_of_def)
qed

definition slash_chunk :: "int \<Rightarrow> PowerChunk \<Rightarrow> PowerChunk" where
  "slash_chunk rate c = c\<lparr>cPower := cPower c - slash_of rate c\<rparr>"

lemma slashChunks_spec:
  assumes "chunks_ok cs" "chunk_sum cs \<le> max_power" "0 \<le> rate" "rate \<le> 100"
    and "slash_sum rate cs \<le> sVSum acc" "sVSum acc \<le> max_power"
    and "slash_sum rate cs \<le> sDSum acc" "sDSum acc \<le> max_power"
    and "self \<Longrightarrow> slash_sum rate cs \<le> sDSelf acc" "sDSelf acc \<le> max_power"
    and "0 \<le> sTotal acc" "sTotal acc + slash_sum rate cs \<le> max_power"
  shows "slashChunks rate self cs acc = (map (slash_chunk rate) cs,
    \<lparr>sVSum = sVSum acc - slash_sum rate cs, sDSum = sDSum acc - slash_sum rate cs,
     sDSelf = (if self then sDSelf acc - slash_sum rate cs else sDSelf acc),
     sTotal = sTotal acc + slash_sum rate cs\<rparr>)"
  using assms
proof (induction cs arbitrary: acc)
  case Nil
  then show ?case by (cases acc) (simp add: slash_sum_def)
next
  case (Cons c cs)
  let ?s = "slash_of rate c" and ?S = "slash_sum rate cs"
  have S: "slash_sum rate (c # cs) = ?s + ?S" by (simp add: slash_sum_def)
  have c: "0 \<le> cPower c" "cPower c \<le> max_power"
    using Cons.prems(1,2) chunk_sum_nonneg[of cs] by auto
  note sb = slash_of_bounds[OF c(1) assms(3,4)]
  have Sb: "0 \<le> ?S" using slash_sum_bounds[of cs rate] Cons.prems(1) assms(3,4) by simp
  note eq = slash_chunk_eq[OF c assms(3,4)]
  define acc1 where "acc1 = \<lparr>sVSum = sVSum acc - ?s, sDSum = sDSum acc - ?s,
      sDSelf = (if self then sDSelf acc - ?s else sDSelf acc), sTotal = sTotal acc + ?s\<rparr>"
  have wrap: "i64 (sVSum acc - ?s) = sVSum acc - ?s" "i64 (sDSum acc - ?s) = sDSum acc - ?s"
      "self \<Longrightarrow> i64 (sDSelf acc - ?s) = sDSelf acc - ?s" "i64 (sTotal acc + ?s) = sTotal acc + ?s"
      "i64 (cPower c - ?s) = cPower c - ?s"
    using Cons.prems(5-12) S Sb sb c by (auto intro!: in64_small)
  have "slashChunks rate self cs acc1 = (map (slash_chunk rate) cs,
      \<lparr>sVSum = sVSum acc1 - ?S, sDSum = sDSum acc1 - ?S,
       sDSelf = (if self then sDSelf acc1 - ?S else sDSelf acc1), sTotal = sTotal acc1 + ?S\<rparr>)"
    using Cons.prems S Sb sb by (intro Cons.IH) (auto simp: acc1_def)
  then show ?case using wrap by (auto simp: eq S acc1_def slash_chunk_def Let_def)
qed

lemma chunk_sum_slashed: "chunk_sum (map (slash_chunk rate) cs) = chunk_sum cs - slash_sum rate cs"
  by (induction cs) (auto simp: slash_sum_def slash_chunk_def)

lemma chunks_ok_slashed: "chunks_ok cs \<Longrightarrow> 0 \<le> rate \<Longrightarrow> rate \<le> 100 \<Longrightarrow> chunks_ok (map (slash_chunk rate) cs)"
  by (induction cs) (auto simp: slash_chunk_def slash_of_bounds)

lemma slash_sum_rev [simp]: "slash_sum rate (rev cs) = slash_sum rate cs"
  by (simp add: slash_sum_def flip: rev_map)

lemma slash_one:
  assumes b: "vbase st" and v: "vpows st (f, a) = Some v" and d: "dgt_ok p2a (into a (vpows st)) a d"
    and rate: "0 \<le> rate" "rate \<le> 100" and tot: "0 \<le> tot" "tot + bonded st \<le> max_power"
  defines "S \<equiv> slash_sum rate (vPowerChunks v)"
  defines "v1 \<equiv> v\<lparr>vPowerChunks := map (slash_chunk rate) (vPowerChunks v), vSumPower := vSumPower v - S\<rparr>"
  defines "d1 \<equiv> d\<lparr>dSumPower := dSumPower d - S, dSelfPower := dSelfPower d - (if f = a then S else 0)\<rparr>"
  shows "slashChunks rate (f = vto v) (rev (vPowerChunks v))
      \<lparr>sVSum = vSumPower v, sDSum = dSumPower d, sDSelf = dSelfPower d, sTotal = tot\<rparr> =
      (rev (vPowerChunks v1), \<lparr>sVSum = vSumPower v1, sDSum = dSumPower d1, sDSelf = dSelfPower d1, sTotal = tot + S\<rparr>)"
    and "vbase (writeVPower st v1)" "bonded (writeVPower st v1) = bonded st - S"
    and "dgt_ok p2a (into a (vpows (writeVPower st v1))) a d1"
    and "0 \<le> S" "S * 100 \<le> csum v * rate"
    and "writeVPower st v1 = st\<lparr>vpows := (vpows st)((f, a) \<mapsto> v1)\<rparr>" "vfrom v1 = f" "vto v1 = a"
proof -
  let ?m = "into a (vpows st)"
  have vp: "vp_ok f a v" using vbaseD(3)[OF b v] .
  then have ok: "chunks_ok (vPowerChunks v)" and vf: "vfrom v = f" "vto v = a" "vSumPower v = csum v"
    and ne: "vPowerChunks v \<noteq> []" by (auto simp: vp_ok_def)
  note sb = slash_sum_bounds[OF ok rate, folded S_def]
  have sums: "dSumPower d = msum csum ?m" "dSelfPower d = mval csum ?m a" using d by (auto simp: dgt_ok_def)
  have vle: "csum v \<le> msum csum ?m"
    using msum_ge[of ?m csum f v] vbaseD(1)[OF b] csum_nonneg[OF b] v by auto
  note le = into_le_bonded[OF b, of a] total_bounds(1)[OF b] self_bounds[OF b, of a]
  have self: "f = a \<Longrightarrow> mval csum ?m a = csum v" using v by simp
  show "slashChunks rate (f = vto v) (rev (vPowerChunks v))
      \<lparr>sVSum = vSumPower v, sDSum = dSumPower d, sDSelf = dSelfPower d, sTotal = tot\<rparr> =
      (rev (vPowerChunks v1), \<lparr>sVSum = vSumPower v1, sDSum = dSumPower d1, sDSelf = dSelfPower d1, sTotal = tot + S\<rparr>)"
    using sb vle le self tot ok rate sums vf
    by (subst slashChunks_spec) (auto simp: v1_def d1_def S_def[symmetric] rev_map csum_def)
  have c1: "csum v1 = csum v - S" using chunk_sum_slashed[of rate "vPowerChunks v"] by (simp add: v1_def csum_def S_def)
  have vp1: "vp_ok f a v1"
    using chunks_ok_slashed[OF ok rate] vf ne c1 by (simp add: vp_ok_def v1_def)
  then show w: "writeVPower st v1 = st\<lparr>vpows := (vpows st)((f, a) \<mapsto> v1)\<rparr>" "vfrom v1 = f" "vto v1 = a"
    by (auto simp: writeVPower_def vp_ok_def)
  show bd: "bonded (writeVPower st v1) = bonded st - S"
    using msum_update[OF vbaseD(1)[OF b], of csum "(f, a)" v1] v c1 by (simp add: w bonded_def)
  show "vbase (writeVPower st v1)"
    using b vp1 sb bd v vbaseD(4)[OF b v] by (auto simp: w vbase_def frozen_sum_def split: if_splits)
  have "msum csum (?m(f \<mapsto> v1)) = msum csum ?m - S"
    using msum_update[of ?m csum f v1] vbaseD(1)[OF b] v c1 by simp
  then show "dgt_ok p2a (into a (vpows (writeVPower st v1))) a d1"
    using d c1 v by (auto simp: w dgt_ok_def d1_def mval_def)
  show "0 \<le> S" "S * 100 \<le> csum v * rate" using sb by (auto simp: csum_def)
qed

lemma slashDelegators_spec:
  assumes "vbase st" "dgt_ok p2a (into a (vpows st)) a d" "distinct fs" "set fs \<subseteq> dom (into a (vpows st))"
    and rate: "0 \<le> rate" "rate \<le> 100" and "0 \<le> tot" "tot + bonded st \<le> max_power"
  shows "\<exists>st' d' S. slashDelegators st rate d fs tot = (st', Inr (d', tot + S)) \<and> vbase st' \<and>
    dgt_ok p2a (into a (vpows st')) a d' \<and> bonded st' = bonded st - S \<and> 0 \<le> S \<and>
    S * 100 \<le> sum_list (map (mval csum (into a (vpows st))) fs) * rate \<and>
    (\<forall>t. t \<noteq> a \<longrightarrow> into t (vpows st') = into t (vpows st)) \<and>
    frozens st' = frozens st \<and> dgts st' = dgts st \<and> missed st' = missed st"
  using assms
proof (induction fs arbitrary: st d tot)
  case (Cons f fs)
  obtain v where v: "vpows st (f, a) = Some v" using Cons.prems(4) by auto
  define S where "S = slash_sum rate (vPowerChunks v)"
  define v1 where "v1 = v\<lparr>vPowerChunks := map (slash_chunk rate) (vPowerChunks v), vSumPower := vSumPower v - S\<rparr>"
  define d1 where "d1 = d\<lparr>dSumPower := dSumPower d - S, dSelfPower := dSelfPower d - (if f = a then S else 0)\<rparr>"
  define st1 where "st1 = writeVPower st v1"
  note one = slash_one[OF Cons.prems(1) v Cons.prems(2) rate Cons.prems(7,8),
      folded S_def, folded v1_def d1_def, folded st1_def]
  have m1: "into a (vpows st1) = (into a (vpows st))(f \<mapsto> v1)" using one(7) by simp
  have dfs: "distinct fs" using Cons.prems(3) by simp
  have pre: "set fs \<subseteq> dom (into a (vpows st1))" "0 \<le> tot + S" "tot + S + bonded st1 \<le> max_power"
    using one Cons.prems(3,4,7,8) m1 by auto
  obtain st' d' S' where IH: "slashDelegators st1 rate d1 fs (tot + S) = (st', Inr (d', tot + S + S'))" "vbase st'"
      "dgt_ok p2a (into a (vpows st')) a d'" "bonded st' = bonded st1 - S'" "0 \<le> S'"
      "S' * 100 \<le> sum_list (map (mval csum (into a (vpows st1))) fs) * rate"
      "\<forall>t. t \<noteq> a \<longrightarrow> into t (vpows st') = into t (vpows st1)"
      "frozens st' = frozens st1" "dgts st' = dgts st1" "missed st' = missed st1"
    using Cons.IH[OF one(2,4) dfs pre(1) rate pre(2,3)] by blast
  have da: "daddr d = a" using Cons.prems(2) by (simp add: dgt_ok_def)
  have run: "slashDelegators st rate d (f # fs) tot = (st', Inr (d', tot + (S + S')))"
    using v IH(1) one(1) by (simp add: readVPower_def da st1_def v1_def d1_def add.assoc)
  have same: "map (mval csum (into a (vpows st1))) fs = map (mval csum (into a (vpows st))) fs"
    using Cons.prems(3) m1 by (auto simp: mval_def)
  have "(S + S') * 100 \<le> sum_list (map (mval csum (into a (vpows st))) (f # fs)) * rate"
    using IH(6) one(6) v unfolding same by (simp add: distrib_right)
  moreover have "\<forall>t. t \<noteq> a \<longrightarrow> into t (vpows st') = into t (vpows st)" using IH(7) one(7) by simp
  moreover have "bonded st' = bonded st - (S + S')" "0 \<le> S + S'" "frozens st' = frozens st" "dgts st' = dgts st"
      "missed st' = missed st"
    using IH(4,5,8-10) one(3,5,7) by simp_all
  ultimately show ?case using run IH(2,3) by blast
qed auto

lemma doSlash_spec:
  assumes inv: "vinv p2a st" and d: "dgts st a = Some d" and rate: "0 \<le> rate" "rate \<le> 100"
  shows "\<exists>st' S. doSlash st a rate = (st', Inr S) \<and> vinv p2a st' \<and> bonded st' = bonded st - S \<and>
    0 \<le> S \<and> S * 100 \<le> dSumPower d * rate \<and> frozens st' = frozens st \<and> missed st' = missed st \<and>
    dom (dgts st') = dom (dgts st)"
proof -
  note b = vinvD(1)[OF inv] and dok = vinvD(3)[OF inv d]
  have dd: "distinct (Delegators d)" "set (Delegators d) = dom (into a (vpows st))" "dSumPower d = msum csum (into a (vpows st))"
    using dok by (auto simp: dgt_ok_def)
  have pre: "0 + bonded st \<le> max_power" using total_bounds(1)[OF b] by simp
  obtain st' d' S where sl: "slashDelegators st rate d (Delegators d) 0 = (st', Inr (d', 0 + S))" "vbase st'"
      "dgt_ok p2a (into a (vpows st')) a d'" "bonded st' = bonded st - S" "0 \<le> S"
      "S * 100 \<le> sum_list (map (mval csum (into a (vpows st))) (Delegators d)) * rate"
      "\<forall>t. t \<noteq> a \<longrightarrow> into t (vpows st') = into t (vpows st)"
      "frozens st' = frozens st" "dgts st' = dgts st" "missed st' = missed st"
    using slashDelegators_spec[OF b dok dd(1) eq_refl[OF dd(2)] rate order_refl pre] by blast
  have "sum_list (map (mval csum (into a (vpows st))) (Delegators d)) = dSumPower d"
    unfolding sum_list_distinct_conv_sum_set[OF dd(1)] dd(2,3) msum_def
    by (rule sum.cong) (auto simp: mval_def)
  moreover have da: "daddr d' = a" using sl(3) by (simp add: dgt_ok_def)
  moreover have "vinv p2a (writeDelegatee st' d')"
    using sl da inv by (auto simp: vinv_def vbase_def writeDelegatee_def bonded_def frozen_sum_def)
  moreover have "doSlash st a rate = (writeDelegatee st' d', Inr S)"
    using sl(1) d by (simp add: doSlash_def readDelegatee_def)
  ultimately show ?thesis using sl d
    by (intro exI[of _ "writeDelegatee st' d'"] exI[of _ S]) (auto simp: writeDelegatee_def bonded_def)
qed

end
