(* ===== verification/Limiter.thy ===== *)
theory Limiter
  imports VPower_Inv
begin

text \<open>
  The limiter of \<open>src/ctrlers/vpower/limiter.go\<close>: in one block, the power that remains of the last
  validators must stay at least \<open>100 - allowRate\<close> percent of the estimated new total.
\<close>

record VPowerLimiter =
  lastTotalPower :: int
  estimatedTotalPower :: int
  addingPower :: int
  subingPower :: int
  allowRate :: int

definition NewVPowerLimiter :: VPowerLimiter where
  "NewVPowerLimiter = \<lparr>lastTotalPower = 0, estimatedTotalPower = 0, addingPower = 0, subingPower = 0, allowRate = 0\<rparr>"

definition Limiter_Reset :: "VPowerLimiter \<Rightarrow> int \<Rightarrow> int \<Rightarrow> VPowerLimiter" where
  "Limiter_Reset lim tot rate =
     \<lparr>lastTotalPower = tot, estimatedTotalPower = tot, addingPower = 0, subingPower = 0, allowRate = rate\<rparr>"

text \<open>The operations: \<open>ADD_POWER\<close> is \<open>True\<close>, \<open>SUB_POWER\<close> is \<open>False\<close>.\<close>

definition ADD_POWER :: bool where "ADD_POWER = True"
definition SUB_POWER :: bool where "SUB_POWER = False"

definition checkTotalPower :: "VPowerLimiter \<Rightarrow> int \<Rightarrow> bool \<Rightarrow> xerror option go" where
  "checkTotalPower lim diff op =
     (let remainTotal = i64 (lastTotalPower lim - subingPower lim); newTotal = estimatedTotalPower lim in
      if op = SUB_POWER \<and> remainTotal \<le> diff
      then Ret (Some (Wrapf ErrOverFlow ''remained total power > diff''))
      else
        let (remainTotal, newTotal) =
              (if op = ADD_POWER then (remainTotal, i64 (newTotal + diff))
               else (i64 (remainTotal - diff), i64 (newTotal - diff)))
        in if newTotal = 0 then Panic
           else let remainRate = i32 (i64 (i64 (remainTotal * 100) sdiv newTotal)) in
             if i32 (100 - remainRate) > allowRate lim
             then Ret (Some (Wrapf ErrUpdatableStakeRatio ''changeRate >= allowedRate''))
             else Ret None)"

definition CheckLimit :: "VPowerLimiter \<Rightarrow> int \<Rightarrow> bool \<Rightarrow> (VPowerLimiter \<times> xerror option) go" where
  "CheckLimit lim pw op =
     (case checkTotalPower lim pw op of
        Panic \<Rightarrow> Panic
      | Ret (Some xerr) \<Rightarrow> Ret (lim, Some xerr)
      | Ret None \<Rightarrow>
          Ret (if op = ADD_POWER
               then lim\<lparr>estimatedTotalPower := i64 (estimatedTotalPower lim + pw), addingPower := i64 (addingPower lim + pw)\<rparr>
               else lim\<lparr>estimatedTotalPower := i64 (estimatedTotalPower lim - pw), subingPower := i64 (subingPower lim + pw)\<rparr>,
               None))"

definition changeRate :: "int \<Rightarrow> int \<Rightarrow> int go" where
  "changeRate part tot = (if tot = 0 then Panic else Ret (i32 (i64 (i64 (part * 100) sdiv tot))))"

definition ChangeRate :: "VPowerLimiter \<Rightarrow> int \<Rightarrow> bool \<Rightarrow> (VPowerLimiter \<times> int res) go" where
  "ChangeRate lim pw op =
     (if op = ADD_POWER then
        (let l1 = lim\<lparr>estimatedTotalPower := i64 (estimatedTotalPower lim + pw), addingPower := i64 (addingPower lim + pw)\<rparr> in
         case changeRate (addingPower l1) (estimatedTotalPower l1) of Panic \<Rightarrow> Panic | Ret r \<Rightarrow> Ret (l1, Inr r))
      else if estimatedTotalPower lim \<ge> pw then
        (let l1 = lim\<lparr>estimatedTotalPower := i64 (estimatedTotalPower lim - pw), subingPower := i64 (subingPower lim + pw)\<rparr> in
         case changeRate (addingPower l1) (estimatedTotalPower l1) of Panic \<Rightarrow> Panic | Ret r \<Rightarrow> Ret (l1, Inr r))
      else Ret (lim, Inl (Wrapf ErrOverFlow ''estimatedTotalPower > subtractedPower'')))"

text \<open>The limiter over the requests of a block, refused ones included.\<close>

fun limiter_run :: "VPowerLimiter \<Rightarrow> (int \<times> bool) list \<Rightarrow> VPowerLimiter go" where
  "limiter_run lim [] = Ret lim"
| "limiter_run lim ((pw, op) # rs) =
     (case CheckLimit lim pw op of Panic \<Rightarrow> Panic | Ret (l1, _) \<Rightarrow> limiter_run l1 rs)"

section \<open>The bound it enforces\<close>

definition limiter_inv :: "int \<Rightarrow> VPowerLimiter \<Rightarrow> bool" where
  "limiter_inv budget lim \<longleftrightarrow>
     0 \<le> allowRate lim \<and> allowRate lim \<le> 100 \<and>
     0 \<le> addingPower lim \<and> 0 \<le> subingPower lim \<and> subingPower lim < lastTotalPower lim \<and>
     estimatedTotalPower lim = lastTotalPower lim + addingPower lim - subingPower lim \<and>
     lastTotalPower lim + addingPower lim + budget \<le> max_power \<and> 0 \<le> budget \<and>
     (100 - allowRate lim) * estimatedTotalPower lim \<le> 100 * (lastTotalPower lim - subingPower lim)"

lemma in64_times100: "0 \<le> x \<Longrightarrow> x \<le> max_power \<Longrightarrow> i64 (x * 100) = x * 100"
  by (intro i64_id) (simp add: in64_def max_power_def)

lemma i32_percent: "0 \<le> x \<Longrightarrow> x \<le> 100 \<Longrightarrow> i32 x = x"
  by (simp add: i32_def)

lemma div_less_pos: "0 < n \<Longrightarrow> x div n < k \<longleftrightarrow> x < k * (n :: int)"
proof -
  assume n: "0 < n"
  have x: "x = x div n * n + x mod n" "0 \<le> x mod n" "x mod n < n" using n by simp_all
  show ?thesis
  proof
    assume "x div n < k"
    then have "(x div n + 1) * n \<le> k * n" using n by (intro mult_right_mono) auto
    then have "x div n * n + n \<le> k * n" by (simp add: distrib_right)
    then show "x < k * n" using x by linarith
  next
    assume "x < k * n"
    moreover have "k * n \<le> x div n * n" if "k \<le> x div n" using n that by (intro mult_right_mono) auto
    ultimately show "x div n < k" using x by linarith
  qed
qed

lemma rate_check:
  fixes r n a :: int
  assumes "0 \<le> r" "r \<le> n" "0 < n" "n \<le> max_power" "a \<le> 100"
  defines "q \<equiv> i32 (i64 (i64 (r * 100) sdiv n))"
  shows "i32 (100 - q) > a \<longleftrightarrow> 100 * r < (100 - a) * n"
proof -
  have m: "i64 (r * 100) = r * 100" using assms by (intro in64_times100) auto
  have d: "r * 100 sdiv n = r * 100 div n" using assms by (intro sdiv_nonneg) auto
  have "r * 100 \<le> n * 100" using assms by simp
  then have "r * 100 div n \<le> n * 100 div n" using assms(3) by (intro zdiv_mono1)
  then have q0: "0 \<le> r * 100 div n" "r * 100 div n \<le> 100"
    using assms by (simp_all add: pos_imp_zdiv_nonneg_iff)
  then have q: "q = r * 100 div n" unfolding q_def m d by (simp add: i32_percent i64_id in64_def)
  have "i32 (100 - q) = 100 - q" using q0 q by (intro i32_percent) auto
  then have "i32 (100 - q) > a \<longleftrightarrow> q < 100 - a" by auto
  also have "\<dots> \<longleftrightarrow> r * 100 < (100 - a) * n"
    unfolding q using assms(3) by (rule div_less_pos)
  finally show ?thesis by (simp add: mult.commute)
qed

lemma CheckLimit_eq:
  assumes inv: "limiter_inv budget lim" and pw: "0 < pw" "pw \<le> budget"
  defines "R \<equiv> lastTotalPower lim - subingPower lim" and "N \<equiv> estimatedTotalPower lim"
  shows "CheckLimit lim pw True =
      (if 100 * R < (100 - allowRate lim) * (N + pw)
       then Ret (lim, Some (Wrapf ErrUpdatableStakeRatio ''changeRate >= allowedRate''))
       else Ret (lim\<lparr>estimatedTotalPower := N + pw, addingPower := addingPower lim + pw\<rparr>, None))"
    and "CheckLimit lim pw False =
      (if R \<le> pw then Ret (lim, Some (Wrapf ErrOverFlow ''remained total power > diff''))
       else if 100 * (R - pw) < (100 - allowRate lim) * (N - pw)
       then Ret (lim, Some (Wrapf ErrUpdatableStakeRatio ''changeRate >= allowedRate''))
       else Ret (lim\<lparr>estimatedTotalPower := N - pw, subingPower := subingPower lim + pw\<rparr>, None))"
proof -
  have b: "0 \<le> allowRate lim" "allowRate lim \<le> 100" "0 \<le> addingPower lim" "0 \<le> subingPower lim"
      "0 < R" "N = R + addingPower lim" "R + subingPower lim + addingPower lim + budget \<le> max_power"
    using inv by (auto simp: limiter_inv_def R_def N_def)
  have r: "i64 R = R" using b pw by (intro in64_small) auto
  note defs = CheckLimit_def checkTotalPower_def ADD_POWER_def SUB_POWER_def R_def[symmetric] N_def[symmetric] r
  have a: "i64 (N + pw) = N + pw" "i64 (addingPower lim + pw) = addingPower lim + pw" "N + pw \<noteq> 0"
    using b pw by (auto intro!: in64_small)
  have "allowRate lim < i32 (100 - i32 (i64 (i64 (R * 100) sdiv (N + pw)))) \<longleftrightarrow>
      100 * R < (100 - allowRate lim) * (N + pw)"
    using b pw by (intro rate_check) auto
  then show "CheckLimit lim pw True =
      (if 100 * R < (100 - allowRate lim) * (N + pw)
       then Ret (lim, Some (Wrapf ErrUpdatableStakeRatio ''changeRate >= allowedRate''))
       else Ret (lim\<lparr>estimatedTotalPower := N + pw, addingPower := addingPower lim + pw\<rparr>, None))"
    unfolding defs by (simp add: a(1,2)) (use a(3) in auto)
  show "CheckLimit lim pw False =
      (if R \<le> pw then Ret (lim, Some (Wrapf ErrOverFlow ''remained total power > diff''))
       else if 100 * (R - pw) < (100 - allowRate lim) * (N - pw)
       then Ret (lim, Some (Wrapf ErrUpdatableStakeRatio ''changeRate >= allowedRate''))
       else Ret (lim\<lparr>estimatedTotalPower := N - pw, subingPower := subingPower lim + pw\<rparr>, None))"
  proof (cases "R \<le> pw")
    case True
    then show ?thesis unfolding defs by simp
  next
    case False
    define R1 where "R1 = R - pw"
    define N1 where "N1 = N - pw"
    have w: "i64 N1 = N1" using b pw False by (auto simp: N1_def intro!: in64_small)
    have n: "i64 (N - pw) = N1" "i64 (R - pw) = R1" "i64 (subingPower lim + pw) = subingPower lim + pw" "N1 \<noteq> 0"
      using b pw False by (auto simp: R1_def N1_def intro!: in64_small)
    have "allowRate lim < i32 (100 - i32 (i64 (i64 (R1 * 100) sdiv N1))) \<longleftrightarrow>
        100 * R1 < (100 - allowRate lim) * N1"
      using b pw False by (intro rate_check) (auto simp: R1_def N1_def)
    then show ?thesis using False n(4) unfolding defs R1_def[symmetric] N1_def[symmetric] by (simp add: n(1-3) w Let_def)
  qed
qed

lemma CheckLimit_spec:
  assumes inv: "limiter_inv budget lim" and pw: "0 < pw" "pw \<le> budget"
  shows "\<exists>lim' e. CheckLimit lim pw op = Ret (lim', e) \<and> limiter_inv (budget - pw) lim' \<and>
    (e \<noteq> None \<longrightarrow> lim' = lim) \<and> allowRate lim' = allowRate lim \<and> lastTotalPower lim' = lastTotalPower lim"
proof (cases op)
  case True
  then show ?thesis using inv pw by (auto simp: CheckLimit_eq(1)[OF assms] limiter_inv_def not_less)
next
  case False
  then show ?thesis using inv pw by (auto simp: CheckLimit_eq(2)[OF assms] limiter_inv_def not_less)
qed



end
