(* ===== verification/Account.thy ===== *)
theory Account
  imports Ledger_Keys Units
begin

text \<open>
  Accounts: \<open>src/ctrlers/types/account.go\<close>, \<open>src/ctrlers/account/ctrler.go\<close> and
  \<open>ctrler_block.go\<close>.

  The controller hands out pointers to account objects, and transactions change the objects before
  they are stored, so the model has an explicit heap: \<open>heap\<close> maps references to account objects,
  \<open>cached\<close> is the object cache of the committed ledger (\<open>MutableLedger.cachedObjs\<close>), \<open>atree\<close> the
  contents of its tree, and \<open>amem\<close> the contents of the check ledger, which decodes a fresh object on
  every \<open>Get\<close>. Encoding an account and decoding it gives the account back.
\<close>

section \<open>Account objects\<close>

record Account =
  Address :: addr
  Name :: string
  Nonce :: int
  Balance :: uint256
  AcctCode :: bytes
  DocURL :: string

definition MAX_ACCT_NAME :: nat where "MAX_ACCT_NAME = 2048"
definition MAX_ACCT_DOCURL :: nat where "MAX_ACCT_DOCURL = 2048"

definition NewAccount :: "addr \<Rightarrow> Account" where
  "NewAccount a = \<lparr>Address = a, Name = [], Nonce = 0, Balance = 0, AcctCode = [], DocURL = []\<rparr>"

definition NewAccountWithName :: "addr \<Rightarrow> string \<Rightarrow> Account" where
  "NewAccountWithName a n = (NewAccount a)\<lparr>Name := n\<rparr>"

text \<open>\<open>Clone\<close> leaves \<open>DocURL\<close> empty.\<close>

definition Account_Clone :: "Account \<Rightarrow> Account" where
  "Account_Clone x = \<lparr>Address = Address x, Name = Name x, Nonce = Nonce x, Balance = Balance x,
     AcctCode = AcctCode x, DocURL = []\<rparr>"

definition Account_SetName :: "Account \<Rightarrow> string \<Rightarrow> Account" where
  "Account_SetName x s = x\<lparr>Name := s\<rparr>"

definition Account_SetDocURL :: "Account \<Rightarrow> string \<Rightarrow> Account" where
  "Account_SetDocURL x s = x\<lparr>DocURL := s\<rparr>"

definition Account_AddNonce :: "Account \<Rightarrow> Account" where
  "Account_AddNonce x = x\<lparr>Nonce := i64 (Nonce x + 1)\<rparr>"

definition Account_SetNonce :: "Account \<Rightarrow> int \<Rightarrow> Account" where
  "Account_SetNonce x n = x\<lparr>Nonce := n\<rparr>"

definition Account_CheckNonce :: "Account \<Rightarrow> int \<Rightarrow> xerror option" where
  "Account_CheckNonce x n = (if Nonce x \<noteq> n then Some ErrInvalidNonce else None)"

definition Account_AddBalance :: "Account \<Rightarrow> uint256 \<Rightarrow> Account res" where
  "Account_AddBalance x amt =
     (if Sign amt < 0 then Inl ErrInvalidAmount else Inr (x\<lparr>Balance := Balance x + amt\<rparr>))"

definition Account_SubBalance :: "Account \<Rightarrow> uint256 \<Rightarrow> Account res" where
  "Account_SubBalance x amt =
     (if Sign amt < 0 then Inl ErrInvalidAmount
      else if amt > Balance x then Inl ErrInsufficientFund
      else Inr (x\<lparr>Balance := Balance x - amt\<rparr>))"

definition Account_SetBalance :: "Account \<Rightarrow> uint256 \<Rightarrow> Account" where
  "Account_SetBalance x amt = x\<lparr>Balance := amt\<rparr>"

definition Account_CheckBalance :: "Account \<Rightarrow> uint256 \<Rightarrow> xerror option" where
  "Account_CheckBalance x amt = (if amt > Balance x then Some ErrInsufficientFund else None)"

definition Account_SetCode :: "Account \<Rightarrow> bytes \<Rightarrow> Account" where
  "Account_SetCode x c = x\<lparr>AcctCode := c\<rparr>"

section \<open>The controller\<close>

type_synonym aref = nat

record AcctCtrler =
  heap :: "aref \<Rightarrow> Account"
  nextref :: aref
  atree :: "addr \<rightharpoonup> Account"
  cached :: "addr \<rightharpoonup> aref"
  amem :: "addr \<rightharpoonup> Account"
  newbiesCheck :: "addr \<rightharpoonup> aref"
  newbiesDeliver :: "addr \<rightharpoonup> aref"

definition alloc :: "AcctCtrler \<Rightarrow> Account \<Rightarrow> AcctCtrler \<times> aref" where
  "alloc c x = (c\<lparr>heap := (heap c)(nextref c := x), nextref := nextref c + 1\<rparr>, nextref c)"

definition put :: "AcctCtrler \<Rightarrow> aref \<Rightarrow> Account \<Rightarrow> AcctCtrler" where
  "put c r x = c\<lparr>heap := (heap c)(r := x)\<rparr>"

definition NewAcctCtrler :: "(addr \<rightharpoonup> Account) \<Rightarrow> AcctCtrler" where
  "NewAcctCtrler tr = \<lparr>heap = (\<lambda>_. NewAccount []), nextref = 0, atree = tr, cached = Map.empty, amem = tr,
     newbiesCheck = Map.empty, newbiesDeliver = Map.empty\<rparr>"

definition findAccount :: "AcctCtrler \<Rightarrow> addr \<Rightarrow> bool \<Rightarrow> AcctCtrler \<times> aref option" where
  "findAccount c a exec =
     (if exec then
        (case cached c a of
           Some r \<Rightarrow> (c, Some r)
         | None \<Rightarrow> (case atree c a of
             None \<Rightarrow> (c, None)
           | Some x \<Rightarrow> (case alloc c x of (c1, r) \<Rightarrow> (c1\<lparr>cached := (cached c1)(a \<mapsto> r)\<rparr>, Some r))))
      else
        (case amem c a of
           None \<Rightarrow> (c, None)
         | Some x \<Rightarrow> (case alloc c x of (c1, r) \<Rightarrow> (c1, Some r))))"

definition setAccount :: "AcctCtrler \<Rightarrow> aref \<Rightarrow> bool \<Rightarrow> AcctCtrler" where
  "setAccount c r exec =
     (let x = heap c r; a = Address x in
      if exec then c\<lparr>atree := (atree c)(a \<mapsto> x), cached := (cached c)(a \<mapsto> r)\<rparr>
      else c\<lparr>amem := (amem c)(a \<mapsto> x)\<rparr>)"

text \<open>\<open>ToAcctKey\<close> slices the first 20 bytes; addresses have that length.\<close>

definition FindOrNewAccount :: "AcctCtrler \<Rightarrow> addr \<Rightarrow> bool \<Rightarrow> AcctCtrler \<times> aref" where
  "FindOrNewAccount c a exec =
     (case findAccount c a exec of
        (c1, Some r) \<Rightarrow> (c1, r)
      | (c1, None) \<Rightarrow>
          (let newbies = (if exec then newbiesDeliver c1 else newbiesCheck c1) in
           case newbies a of
             Some r \<Rightarrow> (c1, r)
           | None \<Rightarrow> (case alloc c1 (NewAccountWithName a []) of
               (c2, r) \<Rightarrow> (if exec then c2\<lparr>newbiesDeliver := (newbiesDeliver c2)(a \<mapsto> r)\<rparr>
                          else c2\<lparr>newbiesCheck := (newbiesCheck c2)(a \<mapsto> r)\<rparr>, r))))"

definition acct_transfer :: "AcctCtrler \<Rightarrow> aref \<Rightarrow> aref \<Rightarrow> uint256 \<Rightarrow> AcctCtrler \<times> xerror option" where
  "acct_transfer c frm to amt =
     (case Account_SubBalance (heap c frm) amt of
        Inl e \<Rightarrow> (c, Some e)
      | Inr x \<Rightarrow>
          (let c1 = put c frm x in
           case Account_AddBalance (heap c1 to) amt of
             Inl e \<Rightarrow> (case Account_AddBalance (heap c1 frm) amt of
                 Inl _ \<Rightarrow> (c1, Some e) | Inr x' \<Rightarrow> (put c1 frm x', Some e))
           | Inr y \<Rightarrow> (put c1 to y, None)))"

definition AcctCtrler_Transfer :: "AcctCtrler \<Rightarrow> addr \<Rightarrow> addr \<Rightarrow> uint256 \<Rightarrow> bool \<Rightarrow> AcctCtrler \<times> xerror option" where
  "AcctCtrler_Transfer c frm to amt exec =
     (case findAccount c frm exec of
        (c1, None) \<Rightarrow> (c1, Some (Wrapf ErrNotFoundAccount ''Transfer - address''))
      | (c1, Some r0) \<Rightarrow>
          (case (case findAccount c1 to exec of
                   (c2, Some r1) \<Rightarrow> (c2, r1)
                 | (c2, None) \<Rightarrow> alloc c2 (NewAccountWithName to [])) of
             (c2, r1) \<Rightarrow> (case acct_transfer c2 r0 r1 amt of
                (c3, Some e) \<Rightarrow> (c3, Some e)
              | (c3, None) \<Rightarrow> (setAccount (setAccount c3 r0 exec) r1 exec, None))))"

definition AcctCtrler_SetCode :: "AcctCtrler \<Rightarrow> addr \<Rightarrow> bytes \<Rightarrow> bool \<Rightarrow> AcctCtrler \<times> xerror option" where
  "AcctCtrler_SetCode c a code exec =
     (case findAccount c a exec of
        (c1, None) \<Rightarrow> (c1, Some (Wrapf ErrNotFoundAccount ''SetCode - address''))
      | (c1, Some r) \<Rightarrow> (setAccount (put c1 r (Account_SetCode (heap c1 r) code)) r exec, None))"

definition acct_setDoc :: "AcctCtrler \<Rightarrow> aref \<Rightarrow> string \<Rightarrow> string \<Rightarrow> AcctCtrler" where
  "acct_setDoc c r n url = put c r (Account_SetDocURL (Account_SetName (heap c r) n) url)"

definition AcctCtrler_SetDoc :: "AcctCtrler \<Rightarrow> addr \<Rightarrow> string \<Rightarrow> string \<Rightarrow> bool \<Rightarrow> AcctCtrler \<times> xerror option" where
  "AcctCtrler_SetDoc c a n url exec =
     (case findAccount c a exec of
        (c1, None) \<Rightarrow> (c1, Some (Wrapf ErrNotFoundAccount ''SetDoc - address''))
      | (c1, Some r) \<Rightarrow> (setAccount (acct_setDoc c1 r n url) r exec, None))"

definition AcctCtrler_Reward :: "AcctCtrler \<Rightarrow> addr \<Rightarrow> uint256 \<Rightarrow> bool \<Rightarrow> AcctCtrler \<times> xerror option" where
  "AcctCtrler_Reward c a amt exec =
     (case findAccount c a exec of
        (c1, None) \<Rightarrow> (c1, Some (Wrapf ErrNotFoundAccount ''Reward - address''))
      | (c1, Some r) \<Rightarrow> (case Account_AddBalance (heap c1 r) amt of
          Inl e \<Rightarrow> (c1, Some e)
        | Inr x \<Rightarrow> (setAccount (put c1 r x) r exec, None)))"

definition findOrAlloc :: "AcctCtrler \<Rightarrow> addr \<Rightarrow> bool \<Rightarrow> AcctCtrler \<times> aref" where
  "findOrAlloc c a exec = (case findAccount c a exec of
     (c1, Some r) \<Rightarrow> (c1, r) | (c1, None) \<Rightarrow> alloc c1 (NewAccount a))"

definition AcctCtrler_AddBalance :: "AcctCtrler \<Rightarrow> addr \<Rightarrow> uint256 \<Rightarrow> bool \<Rightarrow> AcctCtrler \<times> xerror option" where
  "AcctCtrler_AddBalance c a amt exec =
     (case findOrAlloc c a exec of
        (c1, r) \<Rightarrow> (case Account_AddBalance (heap c1 r) amt of
          Inl e \<Rightarrow> (c1, Some e)
        | Inr x \<Rightarrow> (setAccount (put c1 r x) r exec, None)))"

definition AcctCtrler_SubBalance :: "AcctCtrler \<Rightarrow> addr \<Rightarrow> uint256 \<Rightarrow> bool \<Rightarrow> AcctCtrler \<times> xerror option" where
  "AcctCtrler_SubBalance c a amt exec =
     (case findAccount c a exec of
        (c1, None) \<Rightarrow> (c1, Some (Wrapf ErrNotFoundAccount ''SubBalance - address''))
      | (c1, Some r) \<Rightarrow> (case Account_SubBalance (heap c1 r) amt of
          Inl e \<Rightarrow> (c1, Some e)
        | Inr x \<Rightarrow> (setAccount (put c1 r x) r exec, None)))"

definition AcctCtrler_SetBalance :: "AcctCtrler \<Rightarrow> addr \<Rightarrow> uint256 \<Rightarrow> bool \<Rightarrow> AcctCtrler \<times> xerror option" where
  "AcctCtrler_SetBalance c a amt exec =
     (case findOrAlloc c a exec of
        (c1, r) \<Rightarrow> (setAccount (put c1 r (Account_SetBalance (heap c1 r) amt)) r exec, None))"

fun AcctCtrler_InitLedger :: "AcctCtrler \<Rightarrow> (addr \<times> uint256) list \<Rightarrow> AcctCtrler" where
  "AcctCtrler_InitLedger c [] = c"
| "AcctCtrler_InitLedger c ((a, bal) # hs) =
     (case alloc c ((NewAccount a)\<lparr>Balance := bal\<rparr>) of
        (c1, r) \<Rightarrow> AcctCtrler_InitLedger (setAccount c1 r True) hs)"

section \<open>Transactions\<close>

text \<open>The two transaction types the controller handles, with their payloads.\<close>

datatype acct_trx = AcctTransfer uint256 | AcctSetDoc string string | AcctOther

definition AcctCtrler_ValidateTrx :: "acct_trx \<Rightarrow> xerror option" where
  "AcctCtrler_ValidateTrx tx = (case tx of
     AcctSetDoc n url \<Rightarrow>
       (if length n > MAX_ACCT_NAME then Some (Wrapf ErrInvalidTrxPayloadParams ''too long name. it should be less than 2048.'')
        else if length url > MAX_ACCT_DOCURL then Some (Wrapf ErrInvalidTrxPayloadParams ''too long url. it should be less than 2048.'')
        else None)
   | _ \<Rightarrow> None)"

definition AcctCtrler_ExecuteTrx ::
  "AcctCtrler \<Rightarrow> acct_trx \<Rightarrow> aref \<Rightarrow> aref option \<Rightarrow> bool \<Rightarrow> (AcctCtrler \<times> xerror option) go" where
  "AcctCtrler_ExecuteTrx c tx sender receiver exec =
     (case (case tx of
              AcctTransfer amt \<Rightarrow> (case receiver of
                  None \<Rightarrow> (case Account_SubBalance (heap c sender) amt of Inl e \<Rightarrow> Ret (c, Some e) | Inr _ \<Rightarrow> Panic)
                | Some r \<Rightarrow> Ret (acct_transfer c sender r amt))
            | AcctSetDoc n url \<Rightarrow> Ret (acct_setDoc c sender n url, None)
            | AcctOther \<Rightarrow> Ret (c, None)) of
        Panic \<Rightarrow> Panic
      | Ret (c1, Some e) \<Rightarrow> Ret (c1, Some e)
      | Ret (c1, None) \<Rightarrow>
          (let c2 = setAccount c1 sender exec in
           Ret (case receiver of None \<Rightarrow> c2 | Some r \<Rightarrow> setAccount c2 r exec, None)))"

section \<open>Blocks\<close>

text \<open>\<open>proposer\<close> is \<open>None\<close> when the header has no proposer; \<open>rate\<close> is \<open>TxFeeRewardRate\<close>, an \<open>int32\<close>.\<close>

definition fee_reward :: "uint256 \<Rightarrow> int \<Rightarrow> uint256" where
  "fee_reward sumFee rate = (sumFee * NewInt rate) div NewInt 100"

definition AcctCtrler_EndBlock ::
  "AcctCtrler \<Rightarrow> addr option \<Rightarrow> uint256 \<Rightarrow> int \<Rightarrow> addr \<Rightarrow> AcctCtrler \<times> xerror option" where
  "AcctCtrler_EndBlock c proposer sumFee rate dead =
     (case proposer of
        Some p \<Rightarrow> (if Sign sumFee > 0 then
            (let rwdAmt = fee_reward sumFee rate in
             case AcctCtrler_AddBalance c p rwdAmt True of
               (c1, Some e) \<Rightarrow> (c1, Some e)
             | (c1, None) \<Rightarrow> AcctCtrler_AddBalance c1 dead (sumFee - rwdAmt) True)
          else (c, None))
      | None \<Rightarrow> (c, None))"

definition AcctCtrler_Commit :: "AcctCtrler \<Rightarrow> AcctCtrler" where
  "AcctCtrler_Commit c = c\<lparr>newbiesCheck := Map.empty, newbiesDeliver := Map.empty,
     cached := Map.empty, amem := atree c\<rparr>"

end
