(* ===== verification/Account_Inv.thy ===== *)
theory Account_Inv
  imports Account
begin

text \<open>
  Properties of the account controller on the state transactions are executed on (\<open>exec = True\<close>).
  Between calls the cached objects agree with the stored accounts (\<open>ainv\<close>), the stored accounts are
  the map \<open>atree\<close>, and \<open>total_balance\<close> is the sum of their balances modulo \<open>2^256\<close>, the ring the
  code computes in.
\<close>

section \<open>Invariant\<close>

definition ainv :: "AcctCtrler \<Rightarrow> bool" where
  "ainv c \<longleftrightarrow> finite (dom (atree c)) \<and>
     (\<forall>a r. cached c a = Some r \<longrightarrow> r < nextref c \<and> Address (heap c r) = a \<and> atree c a = Some (heap c r)) \<and>
     (\<forall>a x. atree c a = Some x \<longrightarrow> Address x = a) \<and>
     (\<forall>a r. newbiesDeliver c a = Some r \<longrightarrow> r < nextref c \<and> Address (heap c r) = a)"

definition total_balance :: "AcctCtrler \<Rightarrow> uint256" where
  "total_balance c = msum Balance (atree c)"

definition bal :: "AcctCtrler \<Rightarrow> addr \<Rightarrow> uint256" where
  "bal c a = mval Balance (atree c) a"

text \<open>
  A reference a transaction may hold for the account at \<open>a\<close>: the cached object, or, while no account
  is stored at \<open>a\<close>, a new object without balance.
\<close>

definition current :: "AcctCtrler \<Rightarrow> addr \<Rightarrow> aref \<Rightarrow> bool" where
  "current c a r \<longleftrightarrow> r < nextref c \<and> Address (heap c r) = a \<and>
     (if atree c a = None then Balance (heap c r) = 0 else cached c a = Some r)"

lemma ainvD:
  assumes "ainv c"
  shows "finite (dom (atree c))" "cached c a = Some r \<Longrightarrow> r < nextref c"
    "cached c a = Some r \<Longrightarrow> Address (heap c r) = a" "cached c a = Some r \<Longrightarrow> atree c a = Some (heap c r)"
    "atree c a = Some x \<Longrightarrow> Address x = a"
    "newbiesDeliver c a = Some r \<Longrightarrow> r < nextref c" "newbiesDeliver c a = Some r \<Longrightarrow> Address (heap c r) = a"
  using assms by (auto simp: ainv_def)

lemma current_balance: "ainv c \<Longrightarrow> current c a r \<Longrightarrow> Balance (heap c r) = bal c a"
  by (cases "atree c a") (auto simp: current_def bal_def mval_def dest: ainvD(4))

lemma ainv_alloc: "ainv c \<Longrightarrow> ainv (fst (alloc c x))"
  by (fastforce simp: ainv_def alloc_def)

lemma ainv_set:
  assumes "ainv c" "r < nextref c" "Address (heap c r) = a" "Address x = a"
  shows "ainv (setAccount (put c r x) r True)"
    and "atree (setAccount (put c r x) r True) = (atree c)(a \<mapsto> x)"
proof -
  show "atree (setAccount (put c r x) r True) = (atree c)(a \<mapsto> x)"
    using assms by (simp add: setAccount_def put_def Let_def)
  have "b = a" if "cached c b = Some r \<or> newbiesDeliver c b = Some r" for b
    using that assms(1,3) by (auto dest: ainvD)
  then show "ainv (setAccount (put c r x) r True)"
    using assms unfolding ainv_def setAccount_def put_def Let_def by auto
qed

section \<open>Finding accounts\<close>

lemma findAccount_exec:
  assumes "ainv c" "findAccount c a True = (c', r)"
  shows "ainv c' \<and> atree c' = atree c \<and> nextref c \<le> nextref c' \<and> newbiesDeliver c' = newbiesDeliver c \<and>
    (\<forall>i < nextref c. heap c' i = heap c i) \<and> (\<forall>b. b \<noteq> a \<longrightarrow> cached c' b = cached c b) \<and>
    (case r of None \<Rightarrow> atree c a = None \<and> c' = c | Some i \<Rightarrow> cached c' a = Some i \<and> atree c a = Some (heap c' i))"
proof (cases "cached c a")
  case (Some i)
  then have "c' = c" "r = Some i" using assms(2) by (auto simp: findAccount_def)
  then show ?thesis using assms(1) Some ainvD(4)[OF assms(1) Some] by simp
next
  case None
  show ?thesis
  proof (cases "atree c a")
    case (Some x)
    then have c': "c' = c\<lparr>heap := (heap c)(nextref c := x), nextref := nextref c + 1, cached := (cached c)(a \<mapsto> nextref c)\<rparr>"
        "r = Some (nextref c)"
      using assms(2) None by (auto simp: findAccount_def alloc_def)
    have "i \<noteq> nextref c" if "cached c b = Some i \<or> newbiesDeliver c b = Some i" for b i
      using that ainvD(2,6)[OF assms(1)] by blast
    then have "ainv c'" using assms(1) Some by (auto simp: c' ainv_def less_Suc_eq)
    then show ?thesis using Some by (simp add: c')
  next
    case atree: None
    then have "c' = c" "r = None" using assms(2) None by (auto simp: findAccount_def)
    then show ?thesis using assms(1) atree by simp
  qed
qed

lemma findOrAlloc_exec:
  assumes "ainv c" "findOrAlloc c a True = (c', r)"
  shows "ainv c' \<and> atree c' = atree c \<and> r < nextref c' \<and> Address (heap c' r) = a \<and>
    Balance (heap c' r) = bal c a \<and> (\<forall>x. atree c a = Some x \<longrightarrow> heap c' r = x)"
proof -
  obtain c1 i where f: "findAccount c a True = (c1, i)" by (cases "findAccount c a True")
  note fa = findAccount_exec[OF assms(1) f]
  show ?thesis
  proof (cases i)
    case None
    then have "c' = fst (alloc c1 (NewAccount a))" "r = nextref c1" "c1 = c"
      using assms(2) f fa by (auto simp: findOrAlloc_def alloc_def)
    then show ?thesis using fa None ainv_alloc[OF assms(1)]
      by (auto simp: alloc_def bal_def NewAccount_def)
  next
    case (Some j)
    then have "c' = c1" "r = j" using assms(2) f by (auto simp: findOrAlloc_def)
    then show ?thesis using fa Some by (auto simp: bal_def dest: ainvD)
  qed
qed

section \<open>Balance changes\<close>

lemma total_upd: "finite (dom (atree c)) \<Longrightarrow> atree c' = (atree c)(a \<mapsto> x) \<Longrightarrow>
    total_balance c' = total_balance c - bal c a + Balance x"
  by (simp add: total_balance_def bal_def msum_update)

lemma AddBalance_exec:
  assumes "ainv c" "0 \<le> Sign amt"
  shows "\<exists>c' x. AcctCtrler_AddBalance c a amt True = (c', None) \<and> ainv c' \<and> atree c' = (atree c)(a \<mapsto> x) \<and>
    Balance x = bal c a + amt \<and> total_balance c' = total_balance c + amt"
proof -
  obtain c1 r where f: "findOrAlloc c a True = (c1, r)" by (cases "findOrAlloc c a True")
  note fa = findOrAlloc_exec[OF assms(1) f]
  let ?x = "(heap c1 r)\<lparr>Balance := Balance (heap c1 r) + amt\<rparr>"
  have st: "ainv (setAccount (put c1 r ?x) r True)" "atree (setAccount (put c1 r ?x) r True) = (atree c1)(a \<mapsto> ?x)"
    using ainv_set[of c1 r a ?x] fa by auto
  moreover have "AcctCtrler_AddBalance c a amt True = (setAccount (put c1 r ?x) r True, None)"
    using assms(2) f by (simp add: AcctCtrler_AddBalance_def Account_AddBalance_def)
  ultimately show ?thesis using fa total_upd[OF ainvD(1)[OF assms(1)], of "setAccount (put c1 r ?x) r True" a ?x] by auto
qed

lemma AddBalance_neg: "Sign amt < 0 \<Longrightarrow> \<exists>c'. AcctCtrler_AddBalance c a amt True = (c', Some ErrInvalidAmount)"
  by (simp add: AcctCtrler_AddBalance_def Account_AddBalance_def split: prod.splits)

lemma SubBalance_exec:
  assumes "ainv c"
  shows "case AcctCtrler_SubBalance c a amt True of
      (c', Some e) \<Rightarrow> ainv c' \<and> atree c' = atree c \<and> (Sign amt < 0 \<or> amt > bal c a \<or> atree c a = None)
    | (c', None) \<Rightarrow> ainv c' \<and> 0 \<le> Sign amt \<and> amt \<le> bal c a \<and> total_balance c' = total_balance c - amt \<and>
        (\<forall>b. bal c' b = (if b = a then bal c a - amt else bal c b))"
proof -
  obtain c1 i where f: "findAccount c a True = (c1, i)" by (cases "findAccount c a True")
  note fa = findAccount_exec[OF assms f]
  show ?thesis
  proof (cases i)
    case None
    then show ?thesis using f fa by (auto simp: AcctCtrler_SubBalance_def)
  next
    case (Some r)
    have r: "r < nextref c1" "Address (heap c1 r) = a" "Balance (heap c1 r) = bal c a"
      using fa Some by (auto simp: bal_def dest: ainvD)
    let ?x = "(heap c1 r)\<lparr>Balance := Balance (heap c1 r) - amt\<rparr>"
    let ?c = "setAccount (put c1 r ?x) r True"
    have st: "ainv ?c" "atree ?c = (atree c)(a \<mapsto> ?x)" using ainv_set[of c1 r a ?x] fa r by auto
    have "bal ?c b = (if b = a then bal c a - amt else bal c b)" for b
      unfolding bal_def st(2) using r(3) by (simp add: mval_def bal_def)
    then show ?thesis
      using f fa Some r st total_upd[OF ainvD(1)[OF assms] st(2)]
      by (auto simp: AcctCtrler_SubBalance_def Account_SubBalance_def)
  qed
qed

lemma Reward_exec:
  assumes "ainv c" "0 \<le> Sign amt" "atree c a \<noteq> None"
  shows "\<exists>c' x. AcctCtrler_Reward c a amt True = (c', None) \<and> ainv c' \<and> atree c' = (atree c)(a \<mapsto> x) \<and>
    Balance x = bal c a + amt \<and> total_balance c' = total_balance c + amt"
proof -
  obtain c1 i where f: "findAccount c a True = (c1, i)" by (cases "findAccount c a True")
  note fa = findAccount_exec[OF assms(1) f]
  obtain r where r: "i = Some r" using fa assms(3) by (cases i) auto
  have "findOrAlloc c a True = (c1, r)" using f r by (simp add: findOrAlloc_def)
  then have "AcctCtrler_Reward c a amt True = AcctCtrler_AddBalance c a amt True"
    using f r by (simp add: AcctCtrler_Reward_def AcctCtrler_AddBalance_def)
  then show ?thesis using AddBalance_exec[OF assms(1,2)] by simp
qed

section \<open>Transfers\<close>

lemma set_put_commute: "r0 \<noteq> r1 \<Longrightarrow>
    setAccount (put (put c r0 x0) r1 x1) r0 True = put (setAccount (put c r0 x0) r0 True) r1 x1"
  by (simp add: setAccount_def put_def Let_def)

lemma bal_upd: "atree c' = (atree c)(a \<mapsto> x) \<Longrightarrow> bal c' b = (if b = a then Balance x else bal c b)"
  by (simp add: bal_def mval_def)

definition moved :: "AcctCtrler \<Rightarrow> addr \<Rightarrow> addr \<Rightarrow> uint256 \<Rightarrow> addr \<Rightarrow> uint256" where
  "moved c a0 a1 amt b = bal c b - (if b = a0 then amt else 0) + (if b = a1 then amt else 0)"

lemma transfer_exec:
  assumes inv: "ainv c" and cur: "current c a0 r0" "current c a1 r1" "a0 = a1 \<longrightarrow> r0 = r1"
  shows "case acct_transfer c r0 r1 amt of
      (c', Some e) \<Rightarrow> c' = c \<and> (Sign amt < 0 \<and> e = ErrInvalidAmount \<or> amt > bal c a0 \<and> e = ErrInsufficientFund)
    | (c', None) \<Rightarrow> (let c'' = setAccount (setAccount c' r0 True) r1 True in
        ainv c'' \<and> amt \<le> bal c a0 \<and> total_balance c'' = total_balance c \<and> bal c'' = moved c a0 a1 amt)"
proof (cases "Sign amt < 0 \<or> amt > bal c a0")
  case True
  then show ?thesis using current_balance[OF inv cur(1)]
    by (auto simp: acct_transfer_def Account_SubBalance_def)
next
  case ok: False
  let ?x0 = "(heap c r0)\<lparr>Balance := Balance (heap c r0) - amt\<rparr>"
  have r: "r0 < nextref c" "Address (heap c r0) = a0" "r1 < nextref c" "Address (heap c r1) = a1"
    using cur by (auto simp: current_def)
  note b0 = current_balance[OF inv cur(1)] and b1 = current_balance[OF inv cur(2)]
  show ?thesis
  proof (cases "a0 = a1")
    case True
    then have "r1 = r0" using cur(3) by simp
    have same: "(heap c r0)\<lparr>Balance := bal c a0\<rparr> = heap c r0" unfolding b0[symmetric] by simp
    from \<open>r1 = r0\<close> have t: "acct_transfer c r0 r1 amt = (put c r0 (heap c r0), None)"
      using ok b0 by (simp add: acct_transfer_def Account_SubBalance_def Account_AddBalance_def put_def same)
    let ?c = "setAccount (put c r0 (heap c r0)) r0 True"
    have st: "ainv ?c" "atree ?c = (atree c)(a0 \<mapsto> heap c r0)" using ainv_set[OF inv r(1,2), of "heap c r0"] r by auto
    have twice: "setAccount ?c r0 True = ?c" by (simp add: setAccount_def put_def Let_def)
    have "bal ?c = moved c a0 a1 amt"
      using bal_upd[OF st(2)] b0 True by (auto simp: moved_def)
    moreover have "total_balance ?c = total_balance c"
      using total_upd[OF ainvD(1)[OF inv] st(2)] b0 by simp
    ultimately show ?thesis using t st(1) ok True \<open>r1 = r0\<close> twice by (simp add: Let_def not_less)
  next
    case False
    then have ne: "r0 \<noteq> r1" using r by auto
    let ?x1 = "(heap c r1)\<lparr>Balance := Balance (heap c r1) + amt\<rparr>"
    have t: "acct_transfer c r0 r1 amt = (put (put c r0 ?x0) r1 ?x1, None)"
      using ok b0 ne by (simp add: acct_transfer_def Account_SubBalance_def Account_AddBalance_def put_def)
    let ?c1 = "setAccount (put c r0 ?x0) r0 True"
    have s1: "ainv ?c1" "atree ?c1 = (atree c)(a0 \<mapsto> ?x0)" using ainv_set[OF inv r(1,2), of ?x0] r by auto
    have h1: "heap ?c1 r1 = heap c r1" "nextref ?c1 = nextref c" using ne by (simp_all add: setAccount_def put_def Let_def)
    let ?c2 = "setAccount (put ?c1 r1 ?x1) r1 True"
    have s2: "ainv ?c2" "atree ?c2 = (atree ?c1)(a1 \<mapsto> ?x1)" using ainv_set[OF s1(1), of r1 a1 ?x1] r h1 by auto
    have t1: "total_balance ?c1 = total_balance c - amt" using total_upd[OF ainvD(1)[OF inv] s1(2)] b0 by simp
    have ba: "bal ?c1 a1 = bal c a1" using bal_upd[OF s1(2), of a1] False by simp
    have t2: "total_balance ?c2 = total_balance c" using total_upd[OF ainvD(1)[OF s1(1)] s2(2)] t1 ba b1 by simp
    have "bal ?c2 = moved c a0 a1 amt"
      using bal_upd[OF s2(2)] bal_upd[OF s1(2)] b0 b1 False by (auto simp: moved_def)
    then show ?thesis using t s2(1) t2 ok by (simp add: Let_def set_put_commute[OF ne] not_less)
  qed
qed

text \<open>
  (C14) Transfers conserve coins: executing a transfer transaction on objects obtained from the
  controller either fails and changes nothing, or moves exactly the amount from a sender who has it
  to the receiver, other balances and the total unchanged; a transfer to oneself changes no
  balance. The cache stays coherent with the store.
\<close>

theorem transfer_conserves:
  assumes "ainv c" "current c a0 s" "current c a1 r" "a0 = a1 \<longrightarrow> s = r"
    and "AcctCtrler_ExecuteTrx c (AcctTransfer amt) s (Some r) True = Ret (c', e)"
  shows "ainv c' \<and> total_balance c' = total_balance c \<and>
    (case e of
       Some err \<Rightarrow> c' = c \<and> (err = ErrInvalidAmount \<or> err = ErrInsufficientFund)
     | None \<Rightarrow> amt \<le> bal c a0 \<and>
         (\<forall>b. bal c' b = bal c b - (if b = a0 then amt else 0) + (if b = a1 then amt else 0)))"
proof -
  obtain c1 e1 where t: "acct_transfer c s r amt = (c1, e1)" by (cases "acct_transfer c s r amt")
  have "Ret (c', e) = (case e1 of Some x \<Rightarrow> Ret (c1, Some x) | None \<Rightarrow> Ret (setAccount (setAccount c1 s True) r True, None))"
    using assms(5) t by (cases e1) (auto simp: AcctCtrler_ExecuteTrx_def Let_def)
  then show ?thesis using transfer_exec[OF assms(1-4), of amt] t assms(1)
    by (cases e1) (auto simp: Let_def moved_def)
qed

definition acct_ex :: AcctCtrler where
  "acct_ex = (NewAcctCtrler Map.empty)\<lparr>nextref := 2,
     heap := (\<lambda>i. if i = 0 then (NewAccount [1])\<lparr>Balance := 10\<rparr> else (NewAccount [2])\<lparr>Balance := 3\<rparr>),
     atree := [[1] \<mapsto> (NewAccount [1])\<lparr>Balance := 10\<rparr>, [2] \<mapsto> (NewAccount [2])\<lparr>Balance := 3\<rparr>],
     cached := [[1] \<mapsto> 0, [2] \<mapsto> 1]\<rparr>"

lemma acct_ex_inv: "ainv acct_ex" "current acct_ex [1] 0" "current acct_ex [2] 1"
  by (auto simp: ainv_def current_def acct_ex_def NewAcctCtrler_def NewAccount_def)

theorem transfer_conserves_witness:
  "\<exists>c'. AcctCtrler_ExecuteTrx acct_ex (AcctTransfer 4) 0 (Some 1) True = Ret (c', None) \<and>
     bal c' [1] = 6 \<and> bal c' [2] = 7"
proof -
  have s: "Sign 4 = 1" by (simp add: Sign_def)
  obtain c' e where e: "AcctCtrler_ExecuteTrx acct_ex (AcctTransfer 4) 0 (Some 1) True = Ret (c', e)" "e = None"
    using s by (simp add: AcctCtrler_ExecuteTrx_def acct_transfer_def Account_SubBalance_def Account_AddBalance_def
        acct_ex_def NewAcctCtrler_def NewAccount_def put_def Let_def)
  have b: "bal acct_ex [1] = 10" "bal acct_ex [2] = 3" by (simp_all add: bal_def acct_ex_def NewAccount_def)
  show ?thesis
    using transfer_conserves[OF acct_ex_inv(1,2,3) _ e(1)] e b by auto
qed

section \<open>Fees of a block\<close>

lemma Sign_small: "uint x < 2 ^ 255 \<Longrightarrow> Sign x = sgn (uint x)"
proof -
  assume "uint x < 2 ^ 255"
  moreover have "- (2 ^ 255) \<le> uint x" using uint_ge_0[of x] by (rule order_trans[rotated]) simp
  ultimately have "signed_take_bit 255 (uint x) = uint x" by (intro signed_take_bit_int_eq_self)
  then show ?thesis by (simp add: Sign_def sint_uint)
qed

lemma fee_reward_val:
  assumes "uint sumFee < 2 ^ 240" "0 \<le> rate" "rate \<le> 100"
  shows "uint (fee_reward sumFee rate) = uint sumFee * rate div 100" "fee_reward sumFee rate \<le> sumFee"
    "uint (sumFee - fee_reward sumFee rate) = uint sumFee - uint sumFee * rate div 100"
proof -
  have r: "uint (NewInt rate) = rate" "uint (NewInt 100) = 100" using assms by (simp_all add: uint_NewInt u64_id)
  have "uint sumFee * rate \<le> 2 ^ 240 * 100" using assms by (intro mult_mono) auto
  then have "uint sumFee * uint (NewInt rate) < 2 ^ 256" using r by simp
  from uint_mult_lt[OF this] have "uint (sumFee * NewInt rate) = uint sumFee * rate" unfolding r .
  then show v: "uint (fee_reward sumFee rate) = uint sumFee * rate div 100"
    by (simp add: fee_reward_def uint_div_distrib r)
  have "uint sumFee * rate \<le> uint sumFee * 100" using assms by (intro mult_left_mono) auto
  then have le: "uint sumFee * rate div 100 \<le> uint sumFee" by linarith
  then show "fee_reward sumFee rate \<le> sumFee" by (simp add: word_le_def v)
  then show "uint (sumFee - fee_reward sumFee rate) = uint sumFee - uint sumFee * rate div 100"
    by (simp add: uint_minus_simple_alt[THEN iffD1] v)
qed

text \<open>
  (C20) The fees of a block are paid out in full: with a proposer, a positive sum of fees and a reward
  rate of 0 to 100 percent, \<open>EndBlock\<close> succeeds, the proposer receives \<open>sumFee * rate / 100\<close> rounded
  down, the dead address receives exactly the rest, and the total of the balances grows by the fees.
\<close>

theorem EndBlock_fee_split:
  assumes "ainv c" "0 < uint sumFee" "uint sumFee < 2 ^ 240" "0 \<le> rate" "rate \<le> 100"
  shows "\<exists>c'. AcctCtrler_EndBlock c (Some p) sumFee rate dead = (c', None) \<and> ainv c' \<and>
    total_balance c' = total_balance c + sumFee \<and>
    uint (fee_reward sumFee rate) = uint sumFee * rate div 100 \<and>
    (p \<noteq> dead \<longrightarrow> bal c' p = bal c p + fee_reward sumFee rate \<and>
       bal c' dead = bal c dead + (sumFee - fee_reward sumFee rate)) \<and>
    (\<forall>b. b \<noteq> p \<and> b \<noteq> dead \<longrightarrow> bal c' b = bal c b)"
proof -
  note fv = fee_reward_val[OF assms(3-5)]
  let ?r = "fee_reward sumFee rate"
  have nn: "0 \<le> uint sumFee * rate div 100" using assms by (intro pos_imp_zdiv_nonneg_iff[THEN iffD2]) auto
  have lt: "uint ?r < 2 ^ 255" "uint (sumFee - ?r) < 2 ^ 255"
    using fv assms(3) nn by (auto simp: word_le_def)
  have sg: "0 \<le> Sign ?r" "0 \<le> Sign (sumFee - ?r)" "0 < Sign sumFee"
    using Sign_small[of ?r] Sign_small[of "sumFee - ?r"] Sign_small[of sumFee] lt assms(2,3) by auto
  obtain c1 x1 where a1: "AcctCtrler_AddBalance c p ?r True = (c1, None)" "ainv c1" "atree c1 = (atree c)(p \<mapsto> x1)"
      "Balance x1 = bal c p + ?r" "total_balance c1 = total_balance c + ?r"
    using AddBalance_exec[OF assms(1) sg(1)] by blast
  obtain c2 x2 where a2: "AcctCtrler_AddBalance c1 dead (sumFee - ?r) True = (c2, None)" "ainv c2"
      "atree c2 = (atree c1)(dead \<mapsto> x2)" "Balance x2 = bal c1 dead + (sumFee - ?r)"
      "total_balance c2 = total_balance c1 + (sumFee - ?r)"
    using AddBalance_exec[OF a1(2) sg(2)] by blast
  have "AcctCtrler_EndBlock c (Some p) sumFee rate dead = (c2, None)"
    using sg(3) a1(1) a2(1) by (simp add: AcctCtrler_EndBlock_def Let_def)
  then show ?thesis using a1 a2 fv(1) bal_upd[OF a1(3)] bal_upd[OF a2(3)] by auto
qed

theorem EndBlock_fee_split_witness:
  "\<exists>c'. AcctCtrler_EndBlock acct_ex (Some [1]) 99 50 [3] = (c', None) \<and> bal c' [1] = 59 \<and> bal c' [3] = 50"
proof -
  have f: "fee_reward 99 50 = 49" by (simp add: fee_reward_def NewInt_def u64_def)
  have b: "bal acct_ex [1] = 10" "bal acct_ex [3] = 0" by (simp_all add: bal_def acct_ex_def NewAccount_def)
  show ?thesis
    using EndBlock_fee_split[OF acct_ex_inv(1), of 99 50 "[1]" "[3]"] f b by auto
qed

section \<open>The check state\<close>



end
