(* ===== verification/Gov_Params.thy ===== *)
theory Gov_Params
  imports Bytes_Codec Units
begin

text \<open>
  The governance parameters of \<open>src/ctrlers/types/gov_params.go\<close>. The record has the fields of the
  protobuf message; its selectors are the accessor methods of the same name. A \<open>bytes\<close> field is
  \<open>None\<close> when the message does not have it. Protobuf and JSON encoding are outside the model.
\<close>

section \<open>Big-endian integers\<close>

definition SetBytes :: "bytes \<Rightarrow> uint256" where
  "SetBytes b = foldl (\<lambda>acc x. acc * 256 + word_of_int (uint x)) 0 b"

fun be_bytes :: "nat \<Rightarrow> bytes" where
  "be_bytes n = (if n = 0 then [] else be_bytes (n div 256) @ [word_of_nat (n mod 256)])"

declare be_bytes.simps [simp del]

definition u256_Bytes :: "uint256 \<Rightarrow> bytes" where
  "u256_Bytes x = be_bytes (unat x)"

lemma SetBytes_be: "SetBytes (be_bytes n) = word_of_nat n"
proof (induction n rule: be_bytes.induct)
  case (1 n)
  show ?case
  proof (cases "n = 0")
    case True
    then show ?thesis by (simp add: be_bytes.simps[of 0] SetBytes_def)
  next
    case False
    have "uint (word_of_nat (n mod 256) :: byte) = int (n mod 256)"
      by (simp add: unsigned_of_nat take_bit_eq_mod zmod_int)
    moreover have "SetBytes (be_bytes (n div 256) @ [word_of_nat (n mod 256)]) =
        SetBytes (be_bytes (n div 256)) * 256 + word_of_int (uint (word_of_nat (n mod 256) :: byte))"
      by (simp add: SetBytes_def)
    ultimately have "SetBytes (be_bytes n) = of_nat (n div 256) * 256 + of_nat (n mod 256)"
      using 1 False by (simp add: be_bytes.simps[of n])
    also have "\<dots> = of_nat (n div 256 * 256 + n mod 256)" by (simp only: of_nat_add of_nat_mult of_nat_numeral)
    finally show ?thesis by simp
  qed
qed

lemma SetBytes_Bytes [simp]: "SetBytes (u256_Bytes x) = x"
  by (simp add: u256_Bytes_def SetBytes_be)

section \<open>Parameters\<close>

definition DaySeconds :: int where "DaySeconds = 86400"
definition WeekSeconds :: int where "WeekSeconds = DaySeconds * 7"
definition YearSeconds :: int where "YearSeconds = DaySeconds * 365"

record GovParams =
  Version :: int
  EmptyBlockIntervalSecs :: int
  MaxValidatorCnt :: int
  MinValidatorPower :: int
  MinDelegatorPower :: int
  MaxValidatorsOfDelegator :: int
  MaxDelegatorsOfValidator :: int
  MinSelfPowerRate :: int
  MaxUpdatablePowerRate :: int
  MaxIndividualPowerRate :: int
  MinBondingBlocks :: int
  MinSignedBlocks :: int
  LazyUnbondingBlocks :: int
  XMaxTotalSupply :: "bytes option"
  InflationWeightPermil :: int
  InflationCycleBlocks :: int
  BondingBlocksWeightPermil :: int
  RipeningBlocks :: int
  XRewardPoolAddress :: "bytes option"
  XDeadAddress :: "bytes option"
  ValidatorRewardRate :: int
  TxFeeRewardRate :: int
  SlashRate :: int
  XGasPrice :: "bytes option"
  MinTrxGas :: int
  BlockSizeLimit :: int
  BlockGasLimit :: int
  MinVotingPeriodBlocks :: int
  MaxVotingPeriodBlocks :: int
  LazyApplyingBlocks :: int

definition NewGovParams :: "int \<Rightarrow> GovParams" where
  "NewGovParams interval0 =
     (let interval = (if interval0 \<le> 0 then 1 else interval0) in
      \<lparr>Version = 4,
       EmptyBlockIntervalSecs = i32 interval,
       MaxValidatorCnt = 21,
       MinValidatorPower = 100000,
       MinDelegatorPower = 100,
       MaxValidatorsOfDelegator = 1,
       MaxDelegatorsOfValidator = 1000,
       MinSelfPowerRate = 50,
       MaxUpdatablePowerRate = 33,
       MaxIndividualPowerRate = 33,
       MinBondingBlocks = 2 * WeekSeconds sdiv interval,
       MinSignedBlocks = 500,
       LazyUnbondingBlocks = 30 * DaySeconds sdiv interval,
       XMaxTotalSupply = Some (u256_Bytes 700000000000000000000000000),
       InflationWeightPermil = 3,
       InflationCycleBlocks = WeekSeconds sdiv interval,
       BondingBlocksWeightPermil = 500,
       RipeningBlocks = YearSeconds sdiv interval,
       XRewardPoolAddress = Some ZeroAddress,
       XDeadAddress = Some Bytes_Codec.DeadAddress,
       ValidatorRewardRate = 30,
       TxFeeRewardRate = 90,
       SlashRate = 50,
       XGasPrice = Some (u256_Bytes (NewInt 48000000000)),
       MinTrxGas = 5000,
       BlockSizeLimit = 22020096,
       BlockGasLimit = 120000000,
       MinVotingPeriodBlocks = DaySeconds sdiv interval,
       MaxVotingPeriodBlocks = 7 * DaySeconds sdiv interval,
       LazyApplyingBlocks = DaySeconds sdiv interval\<rparr>)"

definition DefaultGovParams :: GovParams where
  "DefaultGovParams = NewGovParams 1"

definition opt_bytes :: "bytes option \<Rightarrow> bytes" where
  "opt_bytes b = (case b of None \<Rightarrow> [] | Some x \<Rightarrow> x)"

definition MaxTotalSupply :: "GovParams \<Rightarrow> uint256" where
  "MaxTotalSupply g = SetBytes (opt_bytes (XMaxTotalSupply g))"

definition GasPrice :: "GovParams \<Rightarrow> uint256" where
  "GasPrice g = SetBytes (opt_bytes (XGasPrice g))"

definition RewardPoolAddress :: "GovParams \<Rightarrow> addr" where
  "RewardPoolAddress g = bytes_Copy (opt_bytes (XRewardPoolAddress g))"

definition GovDeadAddress :: "GovParams \<Rightarrow> addr" where
  "GovDeadAddress g = bytes_Copy (opt_bytes (XDeadAddress g))"

definition MinTrxFee :: "GovParams \<Rightarrow> uint256" where
  "MinTrxFee g = NewInt (MinTrxGas g) * SetBytes (opt_bytes (XGasPrice g))"

section \<open>Merging\<close>

text \<open>\<open>MergeGovParams\<close> fills every field of the new parameters that has its zero value.\<close>

definition mrg :: "int \<Rightarrow> int \<Rightarrow> int" where
  "mrg old new = (if new = 0 then old else new)"

definition mrgb :: "bytes option \<Rightarrow> bytes option \<Rightarrow> bytes option" where
  "mrgb old new = (case new of None \<Rightarrow> old | Some _ \<Rightarrow> new)"

definition MergeGovParams :: "GovParams \<Rightarrow> GovParams \<Rightarrow> GovParams" where
  "MergeGovParams old new =
     \<lparr>Version = mrg (Version old) (Version new),
      EmptyBlockIntervalSecs = mrg (EmptyBlockIntervalSecs old) (EmptyBlockIntervalSecs new),
      MaxValidatorCnt = mrg (MaxValidatorCnt old) (MaxValidatorCnt new),
      MinValidatorPower = mrg (MinValidatorPower old) (MinValidatorPower new),
      MinDelegatorPower = mrg (MinDelegatorPower old) (MinDelegatorPower new),
      MaxValidatorsOfDelegator = mrg (MaxValidatorsOfDelegator old) (MaxValidatorsOfDelegator new),
      MaxDelegatorsOfValidator = mrg (MaxDelegatorsOfValidator old) (MaxDelegatorsOfValidator new),
      MinSelfPowerRate = mrg (MinSelfPowerRate old) (MinSelfPowerRate new),
      MaxUpdatablePowerRate = mrg (MaxUpdatablePowerRate old) (MaxUpdatablePowerRate new),
      MaxIndividualPowerRate = mrg (MaxIndividualPowerRate old) (MaxIndividualPowerRate new),
      MinBondingBlocks = mrg (MinBondingBlocks old) (MinBondingBlocks new),
      MinSignedBlocks = mrg (MinSignedBlocks old) (MinSignedBlocks new),
      LazyUnbondingBlocks = mrg (LazyUnbondingBlocks old) (LazyUnbondingBlocks new),
      XMaxTotalSupply = mrgb (XMaxTotalSupply old) (XMaxTotalSupply new),
      InflationWeightPermil = mrg (InflationWeightPermil old) (InflationWeightPermil new),
      InflationCycleBlocks = mrg (InflationCycleBlocks old) (InflationCycleBlocks new),
      BondingBlocksWeightPermil = mrg (BondingBlocksWeightPermil old) (BondingBlocksWeightPermil new),
      RipeningBlocks = mrg (RipeningBlocks old) (RipeningBlocks new),
      XRewardPoolAddress = mrgb (XRewardPoolAddress old) (XRewardPoolAddress new),
      XDeadAddress = mrgb (XDeadAddress old) (XDeadAddress new),
      ValidatorRewardRate = mrg (ValidatorRewardRate old) (ValidatorRewardRate new),
      TxFeeRewardRate = mrg (TxFeeRewardRate old) (TxFeeRewardRate new),
      SlashRate = mrg (SlashRate old) (SlashRate new),
      XGasPrice = mrgb (XGasPrice old) (XGasPrice new),
      MinTrxGas = mrg (MinTrxGas old) (MinTrxGas new),
      BlockSizeLimit = mrg (BlockSizeLimit old) (BlockSizeLimit new),
      BlockGasLimit = mrg (BlockGasLimit old) (BlockGasLimit new),
      MinVotingPeriodBlocks = mrg (MinVotingPeriodBlocks old) (MinVotingPeriodBlocks new),
      MaxVotingPeriodBlocks = mrg (MaxVotingPeriodBlocks old) (MaxVotingPeriodBlocks new),
      LazyApplyingBlocks = mrg (LazyApplyingBlocks old) (LazyApplyingBlocks new)\<rparr>"

lemma mrg_simps [simp]: "mrg old 0 = old" "new \<noteq> 0 \<Longrightarrow> mrg old new = new" "mrg old (mrg old new) = mrg old new"
  "mrgb b None = b" "mrgb b (Some x) = Some x" "mrgb b (mrgb b c) = mrgb b c"
  by (auto simp: mrg_def mrgb_def split: option.splits)

lemma Merge_idem: "MergeGovParams old (MergeGovParams old new) = MergeGovParams old new"
  by (simp add: MergeGovParams_def)

text \<open>What the other components rely on: the rates are percentages and the cycles are positive.\<close>

definition gov_ok :: "GovParams \<Rightarrow> bool" where
  "gov_ok g \<longleftrightarrow> 0 < MaxValidatorCnt g \<and> 0 \<le> MaxUpdatablePowerRate g \<and> MaxUpdatablePowerRate g \<le> 100 \<and>
     0 \<le> SlashRate g \<and> SlashRate g \<le> 100 \<and> 0 \<le> TxFeeRewardRate g \<and> TxFeeRewardRate g \<le> 100 \<and>
     0 < InflationCycleBlocks g \<and> 0 \<le> MinSelfPowerRate g \<and> MinSelfPowerRate g \<le> 100 \<and>
     0 < MinVotingPeriodBlocks g \<and> MinVotingPeriodBlocks g \<le> MaxVotingPeriodBlocks g \<and>
     0 < LazyApplyingBlocks g \<and> 0 < LazyUnbondingBlocks g \<and> 0 < MinValidatorPower g \<and> 0 < MinTrxGas g"

lemma NewGovParams_price: "GasPrice (NewGovParams interval) = 48000000000"
  by (simp add: NewGovParams_def Let_def GasPrice_def opt_bytes_def NewInt_def u64_def)



end
