(* ===== verification/Proposal.thy ===== *)
theory Proposal
  imports VPower_Inv
begin

text \<open>
  Governance proposals: \<open>src/ctrlers/gov/proposal/\<close>. A proposal has the validators of the block that
  created it as voters, options to vote for, and counts the power voted for each option. The tally
  invariant \<open>prop_ok\<close> says that the counts are what the voters chose.
\<close>

section \<open>The proposal\<close>

definition PROPOSAL_ONCHAIN :: int where "PROPOSAL_ONCHAIN = 0x0100"
definition PROPOSAL_OFFCHAIN :: int where "PROPOSAL_OFFCHAIN = 0x0200"
definition PROPOSAL_GOVPARAMS :: int where "PROPOSAL_GOVPARAMS = 0x0101"
definition PROPOSAL_COMMON :: int where "PROPOSAL_COMMON = 0x0200"
definition NOT_CHOICE :: int where "NOT_CHOICE = -1"

record Voter =
  voAddress :: addr
  voPower :: int
  voChoice :: int

definition NewVoter :: "addr \<Rightarrow> int \<Rightarrow> Voter" where
  "NewVoter a p = \<lparr>voAddress = a, voPower = p, voChoice = 0\<rparr>"

record VoteOption =
  opOption :: bytes
  opVotes :: int

definition NewVoteOptions :: "bytes list \<Rightarrow> VoteOption list" where
  "NewVoteOptions os = map (\<lambda>b. \<lparr>opOption = b, opVotes = 0\<rparr>) os"

definition VoteOption_DoVote :: "VoteOption \<Rightarrow> int \<Rightarrow> VoteOption" where
  "VoteOption_DoVote x pw = x\<lparr>opVotes := i64 (opVotes x + pw)\<rparr>"

definition VoteOption_CancelVote :: "VoteOption \<Rightarrow> int \<Rightarrow> VoteOption" where
  "VoteOption_CancelVote x pw = x\<lparr>opVotes := i64 (opVotes x - pw)\<rparr>"

definition powerOrder_Less :: "VoteOption \<Rightarrow> VoteOption \<Rightarrow> bool" where
  "powerOrder_Less x y \<longleftrightarrow> opVotes x > opVotes y"

record GovProposal =
  PropType :: int
  prTxHash :: bytes
  StartVotingHeight :: int
  EndVotingHeight :: int
  ApplyHeight :: int
  TotalVotingPower :: int
  MajorityPower :: int
  Voters :: "Voter list"
  Options :: "VoteOption list"
  MajorOption :: "VoteOption option"

definition NewGovProposal :: "int \<Rightarrow> bytes \<Rightarrow> int \<Rightarrow> int \<Rightarrow> int \<Rightarrow> int \<Rightarrow> GovProposal" where
  "NewGovProposal propType txhash startHeight votingBlocks totalVotingPower applyingHeight =
     \<lparr>PropType = propType, prTxHash = txhash, StartVotingHeight = startHeight,
      EndVotingHeight = i64 (startHeight + votingBlocks), ApplyHeight = applyingHeight,
      TotalVotingPower = totalVotingPower, MajorityPower = i64 (totalVotingPower * 2) sdiv 3,
      Voters = [], Options = [], MajorOption = None\<rparr>"

definition AddOption :: "GovProposal \<Rightarrow> bytes \<Rightarrow> GovProposal" where
  "AddOption p b = p\<lparr>Options := Options p @ [\<lparr>opOption = b, opVotes = 0\<rparr>]\<rparr>"

definition SumVotingPowers :: "GovProposal \<Rightarrow> int" where
  "SumVotingPowers p = foldl (\<lambda>s v. i64 (s + voPower v)) 0 (Voters p)"

definition IsVoter :: "GovProposal \<Rightarrow> addr \<Rightarrow> bool" where
  "IsVoter p a = list_ex (\<lambda>v. bytes_Equal (voAddress v) a) (Voters p)"

definition findVoter :: "GovProposal \<Rightarrow> addr \<Rightarrow> Voter option" where
  "findVoter p a = List.find (\<lambda>v. bytes_Equal (voAddress v) a) (Voters p)"

definition addVoter :: "GovProposal \<Rightarrow> addr \<Rightarrow> int \<Rightarrow> GovProposal" where
  "addVoter p a pw = (case findVoter p a of
     Some _ \<Rightarrow> p
   | None \<Rightarrow> p\<lparr>Voters := Voters p @ [\<lparr>voAddress = a, voPower = pw, voChoice = NOT_CHOICE\<rparr>]\<rparr>)"

definition removeVoter :: "GovProposal \<Rightarrow> addr \<Rightarrow> GovProposal" where
  "removeVoter p a = (case remove_last (\<lambda>v. bytes_Equal (voAddress v) a) (Voters p) of
     None \<Rightarrow> p | Some (_, rest) \<Rightarrow> p\<lparr>Voters := rest\<rparr>)"

section \<open>Voting\<close>

text \<open>\<open>findVoter\<close> returns a pointer to the first voter with the address; this writes through it.\<close>

fun set_voter :: "Voter list \<Rightarrow> addr \<Rightarrow> Voter \<Rightarrow> Voter list" where
  "set_voter [] a x = []"
| "set_voter (v # vs) a x = (if voAddress v = a then x # vs else v # set_voter vs a x)"

definition cancelVote :: "VoteOption list \<Rightarrow> Voter \<Rightarrow> (VoteOption list \<times> Voter) go" where
  "cancelVote os v =
     (if voChoice v \<ge> 0 then
        (let i = nat (voChoice v) in
         if i \<ge> length os then Panic
         else Ret (os[i := VoteOption_CancelVote (os ! i) (voPower v)], v\<lparr>voChoice := -1\<rparr>))
      else Ret (os, v))"

definition doVote :: "VoteOption list \<Rightarrow> Voter \<Rightarrow> int \<Rightarrow> (VoteOption list \<times> Voter) go" where
  "doVote os v choice =
     (if choice \<ge> 0 then
        (let i = nat choice in
         if i \<ge> length os then Panic
         else Ret (os[i := VoteOption_DoVote (os ! i) (voPower v)], v\<lparr>voChoice := choice\<rparr>))
      else Ret (os, v))"

definition DoVote :: "GovProposal \<Rightarrow> addr \<Rightarrow> int \<Rightarrow> (GovProposal \<times> xerror option) go" where
  "DoVote p a choice =
     (case findVoter p a of
        None \<Rightarrow> Ret (p, Some ErrNotFoundVoter)
      | Some v \<Rightarrow>
          if voChoice v = choice then Ret (p, None)
          else (case cancelVote (Options p) v of
            Panic \<Rightarrow> Panic
          | Ret (os1, v1) \<Rightarrow> (case doVote os1 v1 choice of
              Panic \<Rightarrow> Panic
            | Ret (os2, v2) \<Rightarrow> Ret (p\<lparr>Options := os2, Voters := set_voter (Voters p) a v2\<rparr>, None))))"

definition DoSlash :: "GovProposal \<Rightarrow> addr \<Rightarrow> int \<Rightarrow> (GovProposal \<times> int res) go" where
  "DoSlash p a rate =
     (case findVoter p a of
        None \<Rightarrow> Ret (p, Inl ErrNotFoundVoter)
      | Some v \<Rightarrow>
          (case (if voChoice v \<ge> 0 then cancelVote (Options p) v else Ret (Options p, v)) of
             Panic \<Rightarrow> Panic
           | Ret (os1, v1) \<Rightarrow>
               (let choice = voChoice v;
                    slash0 = i64 (voPower v * rate) sdiv 100;
                    slash = (if slash0 \<le> 0 then voPower v else slash0);
                    v2 = v1\<lparr>voPower := i64 (voPower v - slash)\<rparr>;
                    p1 = p\<lparr>Options := os1, Voters := set_voter (Voters p) a v2\<rparr>;
                    tot = i64 (TotalVotingPower p - slash) in
                case (if voPower v2 \<le> 0 then Ret (removeVoter p1 a)
                      else if choice \<ge> 0 then
                        (case doVote os1 v2 choice of
                           Panic \<Rightarrow> Panic
                         | Ret (os3, v3) \<Rightarrow> Ret (p1\<lparr>Options := os3, Voters := set_voter (Voters p1) a v3\<rparr>))
                      else Ret p1) of
                  Panic \<Rightarrow> Panic
                | Ret p2 \<Rightarrow> Ret (p2\<lparr>TotalVotingPower := tot, MajorityPower := i64 (tot * 2) sdiv 3\<rparr>, Inr slash))))"

definition updateMajorOption :: "GovProposal \<Rightarrow> GovProposal go" where
  "updateMajorOption p =
     (let os = sort_by powerOrder_Less (Options p) in
      case os of
        [] \<Rightarrow> Panic
      | x # _ \<Rightarrow> Ret (if opVotes x \<ge> MajorityPower p then p\<lparr>Options := os, MajorOption := Some x\<rparr>
                       else p\<lparr>Options := os\<rparr>))"

section \<open>JSON\<close>

text \<open>The object that \<open>MarshalJSON\<close> hands to the JSON library and \<open>UnmarshalJSON\<close> gets from it.\<close>

record proposalObj =
  poPropType :: int
  poTxHash :: bytes
  poStartVotingHeight :: int
  poEndVotingHeight :: int
  poApplyHeight :: int
  poTotalVotingPower :: int
  poMajorityPower :: int
  poVoters :: "(addr \<times> int \<times> int) list"
  poOptions :: "(bytes \<times> int) list"
  poMajorOption :: "(bytes \<times> int) option"

definition GovProposal_MarshalJSON :: "GovProposal \<Rightarrow> proposalObj" where
  "GovProposal_MarshalJSON p =
     \<lparr>poPropType = PropType p, poTxHash = prTxHash p, poStartVotingHeight = StartVotingHeight p,
      poEndVotingHeight = EndVotingHeight p, poApplyHeight = ApplyHeight p,
      poTotalVotingPower = TotalVotingPower p, poMajorityPower = MajorityPower p,
      poVoters = map (\<lambda>v. (voAddress v, voPower v, voChoice v)) (Voters p),
      poOptions = map (\<lambda>x. (opOption x, opVotes x)) (Options p),
      poMajorOption = map_option (\<lambda>x. (opOption x, opVotes x)) (MajorOption p)\<rparr>"

definition GovProposal_UnmarshalJSON :: "proposalObj \<Rightarrow> GovProposal \<Rightarrow> GovProposal" where
  "GovProposal_UnmarshalJSON q p =
     \<lparr>PropType = poPropType q, prTxHash = poTxHash q, StartVotingHeight = poStartVotingHeight q,
      EndVotingHeight = poEndVotingHeight q, ApplyHeight = poApplyHeight q,
      TotalVotingPower = poTotalVotingPower q, MajorityPower = poMajorityPower q,
      Voters = map (\<lambda>(a, pw, c). \<lparr>voAddress = a, voPower = pw, voChoice = c\<rparr>) (poVoters q),
      Options = map (\<lambda>(b, n). \<lparr>opOption = b, opVotes = n\<rparr>) (poOptions q),
      MajorOption = (case poMajorOption q of None \<Rightarrow> MajorOption p
        | Some (b, n) \<Rightarrow> Some \<lparr>opOption = b, opVotes = n\<rparr>)\<rparr>"

lemma proposal_json: "MajorOption p0 = None \<Longrightarrow> GovProposal_UnmarshalJSON (GovProposal_MarshalJSON p) p0 = p"
  by (cases p) (auto simp: GovProposal_UnmarshalJSON_def GovProposal_MarshalJSON_def comp_def intro!: map_idI split: option.splits)

section \<open>The tally\<close>

definition tally :: "Voter list \<Rightarrow> nat \<Rightarrow> int" where
  "tally vs i = (\<Sum>v\<leftarrow>vs. if voChoice v = int i then voPower v else 0)"

definition powsum :: "Voter list \<Rightarrow> int" where
  "powsum vs = (\<Sum>v\<leftarrow>vs. voPower v)"

definition prop_ok :: "GovProposal \<Rightarrow> bool" where
  "prop_ok p \<longleftrightarrow> distinct (map voAddress (Voters p)) \<and> Options p \<noteq> [] \<and>
     (\<forall>v \<in> set (Voters p). 0 \<le> voPower v \<and> voChoice v < int (length (Options p))) \<and>
     (\<forall>i < length (Options p). opVotes (Options p ! i) = tally (Voters p) i) \<and>
     TotalVotingPower p = powsum (Voters p) \<and> powsum (Voters p) \<le> max_power \<and>
     MajorityPower p = 2 * TotalVotingPower p div 3"

lemma tally_simps [simp]: "tally [] i = 0"
  "tally (v # vs) i = (if voChoice v = int i then voPower v else 0) + tally vs i"
  "tally (us @ vs) i = tally us i + tally vs i"
  by (simp_all add: tally_def)

lemma powsum_simps [simp]: "powsum [] = 0" "powsum (v # vs) = voPower v + powsum vs"
  "powsum (us @ vs) = powsum us + powsum vs"
  by (simp_all add: powsum_def)

definition pow_ok :: "Voter list \<Rightarrow> bool" where
  "pow_ok vs \<longleftrightarrow> (\<forall>v \<in> set vs. 0 \<le> voPower v)"

lemma pow_ok_simps [simp]: "pow_ok []" "pow_ok (v # vs) \<longleftrightarrow> 0 \<le> voPower v \<and> pow_ok vs"
  by (auto simp: pow_ok_def)

lemma tally_nonneg: "pow_ok vs \<Longrightarrow> 0 \<le> tally vs i"
  by (induction vs) auto

lemma powsum_nonneg: "pow_ok vs \<Longrightarrow> 0 \<le> powsum vs"
  by (induction vs) auto

lemma tally_two: "pow_ok vs \<Longrightarrow> i \<noteq> j \<Longrightarrow> tally vs i + tally vs j \<le> powsum vs"
  by (induction vs) auto

lemma tally_le: "pow_ok vs \<Longrightarrow> tally vs i \<le> powsum vs"
  by (induction vs) auto

lemma voter_le: "pow_ok vs \<Longrightarrow> v \<in> set vs \<Longrightarrow> voPower v \<le> powsum vs"
proof (induction vs)
  case (Cons w vs)
  then show ?case using powsum_nonneg[of vs] by auto
qed simp

lemma voter_tally: "pow_ok vs \<Longrightarrow> v \<in> set vs \<Longrightarrow> voChoice v = int i \<Longrightarrow> voPower v \<le> tally vs i"
proof (induction vs)
  case (Cons w vs)
  then show ?case using tally_nonneg[of vs i] by auto
qed simp

text \<open>Writing one voter changes the sums by that voter.\<close>

lemma set_voter_eq:
  assumes "List.find (\<lambda>v. voAddress v = a) vs = Some v" "voAddress x = a"
  shows "tally (set_voter vs a x) i = tally vs i - (if voChoice v = int i then voPower v else 0) + (if voChoice x = int i then voPower x else 0)"
    "powsum (set_voter vs a x) = powsum vs - voPower v + voPower x"
    "map voAddress (set_voter vs a x) = map voAddress vs"
    "set (set_voter vs a x) \<subseteq> insert x (set vs)" "x \<in> set (set_voter vs a x)"
    "List.find (\<lambda>v. voAddress v = a) (set_voter vs a x) = Some x"
  using assms by (induction vs) (auto split: if_splits)

lemma find_voter: "findVoter p a = Some v \<Longrightarrow> List.find (\<lambda>v. voAddress v = a) (Voters p) = Some v \<and> v \<in> set (Voters p) \<and> voAddress v = a"
  by (auto simp: findVoter_def bytes_Equal_def find_Some_iff)

lemma removeVoter_eq:
  assumes "List.find (\<lambda>v. voAddress v = a) vs = Some v" "distinct (map voAddress vs)"
  shows "\<exists>rest. remove_last (\<lambda>v. bytes_Equal (voAddress v) a) vs = Some (v, rest) \<and>
    (\<forall>i. tally rest i = tally vs i - (if voChoice v = int i then voPower v else 0)) \<and>
    powsum rest = powsum vs - voPower v \<and> distinct (map voAddress rest) \<and> set rest \<subseteq> set vs"
proof -
  have v: "v \<in> set vs" "voAddress v = a" using assms(1) by (auto simp: find_Some_iff)
  obtain w rest where r: "remove_last (\<lambda>v. bytes_Equal (voAddress v) a) vs = Some (w, rest)"
    using v remove_last_None[of "\<lambda>v. bytes_Equal (voAddress v) a" vs]
    by (cases "remove_last (\<lambda>v. bytes_Equal (voAddress v) a) vs") (auto simp: bytes_Equal_def)
  obtain us ws where s: "vs = us @ w # ws" "rest = us @ ws" "voAddress w = a"
    using remove_last_Some[OF r] unfolding bytes_Equal_def by blast
  have "w \<in> set vs" by (simp add: s(1))
  then have w: "w = v" using assms(2) v s(3) by (auto simp: distinct_map dest: inj_onD)
  have "distinct (map voAddress (us @ ws))" using assms(2) unfolding s(1) by auto
  moreover have "tally (us @ ws) i = tally vs i - (if voChoice v = int i then voPower v else 0)" for i unfolding s(1) w by simp
  moreover have "powsum (us @ ws) = powsum vs - voPower v" "set (us @ ws) \<subseteq> set vs" unfolding s(1) w by auto
  ultimately show ?thesis using r unfolding w s(2) by blast
qed

lemma vote_options:
  "cancelVote os v = Ret (os1, v1) \<Longrightarrow> map opOption os1 = map opOption os"
  "doVote os v c = Ret (os1, v1) \<Longrightarrow> map opOption os1 = map opOption os"
proof -
  have "map opOption (os[i := x]) = map opOption os" if "opOption x = opOption (os ! i)" "i < length os" for i x
    using that by (simp add: map_update list_update_same_conv)
  then show "cancelVote os v = Ret (os1, v1) \<Longrightarrow> map opOption os1 = map opOption os"
    "doVote os v c = Ret (os1, v1) \<Longrightarrow> map opOption os1 = map opOption os"
    by (auto simp: cancelVote_def doVote_def VoteOption_CancelVote_def VoteOption_DoVote_def Let_def split: if_splits)
qed

lemma prop_okD:
  assumes "prop_ok p"
  shows "distinct (map voAddress (Voters p))" "Options p \<noteq> []" "pow_ok (Voters p)"
    "v \<in> set (Voters p) \<Longrightarrow> voChoice v < int (length (Options p))"
    "i < length (Options p) \<Longrightarrow> opVotes (Options p ! i) = tally (Voters p) i"
    "TotalVotingPower p = powsum (Voters p)" "powsum (Voters p) \<le> max_power"
    "MajorityPower p = 2 * TotalVotingPower p div 3"
  using assms by (auto simp: prop_ok_def pow_ok_def)

lemma in64_power: "0 \<le> x \<Longrightarrow> x \<le> max_power \<Longrightarrow> in64 x"
  by (simp add: in64_def max_power_def)

section \<open>Voting keeps the tally\<close>

definition tally_ok :: "VoteOption list \<Rightarrow> Voter list \<Rightarrow> bool" where
  "tally_ok os vs \<longleftrightarrow> (\<forall>i < length os. opVotes (os ! i) = tally vs i)"

definition voters_ok :: "nat \<Rightarrow> Voter list \<Rightarrow> bool" where
  "voters_ok n vs \<longleftrightarrow> distinct (map voAddress vs) \<and> pow_ok vs \<and> (\<forall>v \<in> set vs. voChoice v < int n) \<and> powsum vs \<le> max_power"

lemma prop_ok_iff: "prop_ok p \<longleftrightarrow> Options p \<noteq> [] \<and> voters_ok (length (Options p)) (Voters p) \<and> tally_ok (Options p) (Voters p) \<and>
    TotalVotingPower p = powsum (Voters p) \<and> MajorityPower p = 2 * TotalVotingPower p div 3"
  by (auto simp: prop_ok_def voters_ok_def tally_ok_def pow_ok_def)

lemma set_voter_twice: "voAddress x = a \<Longrightarrow> set_voter (set_voter vs a x) a y = set_voter vs a y"
  by (induction vs) auto

lemma set_voter_same: "List.find (\<lambda>v. voAddress v = a) vs = Some v \<Longrightarrow> set_voter vs a v = vs"
  by (induction vs) (auto split: if_splits)

lemma voters_ok_set:
  assumes "voters_ok n vs" "List.find (\<lambda>v. voAddress v = a) vs = Some v" "voAddress x = a" "0 \<le> voPower x"
    "voPower x \<le> voPower v" "voChoice x < int n"
  shows "voters_ok n (set_voter vs a x)"
proof -
  note S = set_voter_eq[OF assms(2,3)]
  have "pow_ok (set_voter vs a x)" "\<forall>w \<in> set (set_voter vs a x). voChoice w < int n"
    using assms(1,4,6) S(4) by (auto simp: voters_ok_def pow_ok_def)
  then show ?thesis using assms(1,5) S(2,3) by (simp add: voters_ok_def)
qed

lemma cancelVote_ok:
  assumes V: "voters_ok (length os) vs" and T: "tally_ok os vs" and F: "List.find (\<lambda>v. voAddress v = a) vs = Some v"
  defines "v1 \<equiv> (if voChoice v \<ge> 0 then v\<lparr>voChoice := -1\<rparr> else v)"
  shows "\<exists>os1. cancelVote os v = Ret (os1, v1) \<and> length os1 = length os \<and> tally_ok os1 (set_voter vs a v1)"
proof -
  have v: "v \<in> set vs" "voAddress v = a" using F by (auto simp: find_Some_iff)
  note S = set_voter_eq[OF F, of v1]
  have a: "voAddress v1 = a" using v(2) by (simp add: v1_def)
  show ?thesis
  proof (cases "voChoice v \<ge> 0")
    case False
    have "tally (set_voter vs a v1) i = tally vs i" for i using S(1)[OF a] False by (simp add: v1_def)
    then show ?thesis using False T by (simp add: cancelVote_def tally_ok_def v1_def)
  next
    case True
    let ?i = "nat (voChoice v)"
    have i: "?i < length os" using V v(1) True by (auto simp: voters_ok_def)
    have p: "pow_ok vs" "powsum vs \<le> max_power" using V by (auto simp: voters_ok_def)
    have le: "voPower v \<le> tally vs ?i" "tally vs ?i \<le> max_power" "0 \<le> voPower v"
      using voter_tally[OF p(1) v(1), of ?i] tally_le[OF p(1), of ?i] p True v(1) by (auto simp: pow_ok_def)
    have "i64 (tally vs ?i - voPower v) = tally vs ?i - voPower v" using le by (intro i64_id in64_power) auto
    then have "tally_ok (os[?i := VoteOption_CancelVote (os ! ?i) (voPower v)]) (set_voter vs a v1)"
      using T i True S(1)[OF a] by (auto simp: tally_ok_def VoteOption_CancelVote_def v1_def nth_list_update)
    then show ?thesis using True i by (simp add: cancelVote_def v1_def Let_def)
  qed
qed

lemma doVote_ok:
  assumes V: "voters_ok (length os) vs" and T: "tally_ok os vs" and F: "List.find (\<lambda>v. voAddress v = a) vs = Some v"
    and c: "voChoice v < 0" "0 \<le> choice" "choice < int (length os)"
  shows "\<exists>os1. doVote os v choice = Ret (os1, v\<lparr>voChoice := choice\<rparr>) \<and> length os1 = length os \<and>
    tally_ok os1 (set_voter vs a (v\<lparr>voChoice := choice\<rparr>))"
proof -
  have v: "v \<in> set vs" "voAddress v = a" using F by (auto simp: find_Some_iff)
  let ?v = "v\<lparr>voChoice := choice\<rparr>" and ?i = "nat choice"
  note S = set_voter_eq[OF F, of ?v]
  have p: "pow_ok vs" "powsum vs \<le> max_power" using V by (auto simp: voters_ok_def)
  have "voters_ok (length os) (set_voter vs a ?v)" using V F v c p by (intro voters_ok_set) (auto simp: pow_ok_def)
  then have p': "pow_ok (set_voter vs a ?v)" "powsum (set_voter vs a ?v) \<le> max_power" by (auto simp: voters_ok_def)
  have t: "tally (set_voter vs a ?v) ?i = tally vs ?i + voPower v" using S(1) v c by simp
  have "i64 (tally vs ?i + voPower v) = tally vs ?i + voPower v"
    using tally_nonneg[OF p'(1), of ?i] tally_le[OF p'(1), of ?i] p'(2) t by (intro i64_id in64_power) auto
  then have "tally_ok (os[?i := VoteOption_DoVote (os ! ?i) (voPower v)]) (set_voter vs a ?v)"
    using T c S(1) v by (auto simp: tally_ok_def VoteOption_DoVote_def nth_list_update)
  then show ?thesis using c by (simp add: doVote_def Let_def)
qed

lemma DoVote_spec:
  assumes ok: "prop_ok p" and f: "findVoter p a = Some v" and c: "0 \<le> choice" "choice < int (length (Options p))"
  shows "\<exists>os. DoVote p a choice = Ret (p\<lparr>Options := os, Voters := set_voter (Voters p) a (v\<lparr>voChoice := choice\<rparr>)\<rparr>, None) \<and>
    map opOption os = map opOption (Options p) \<and> prop_ok (p\<lparr>Options := os, Voters := set_voter (Voters p) a (v\<lparr>voChoice := choice\<rparr>)\<rparr>)"
proof -
  let ?vs = "Voters p" let ?v = "v\<lparr>voChoice := choice\<rparr>"
  define v1 where "v1 = (if voChoice v \<ge> 0 then v\<lparr>voChoice := -1\<rparr> else v)"
  have V: "voters_ok (length (Options p)) ?vs" and T: "tally_ok (Options p) ?vs" using ok by (auto simp: prop_ok_iff)
  have F: "List.find (\<lambda>v. voAddress v = a) ?vs = Some v" "v \<in> set ?vs" "voAddress v = a" using find_voter[OF f] by auto
  have a: "voAddress v1 = a" "v1\<lparr>voChoice := choice\<rparr> = ?v" "voChoice v1 < 0" "voPower v1 = voPower v" using F(3) by (auto simp: v1_def)
  have pv: "0 \<le> voPower v" using V F(2) by (auto simp: voters_ok_def pow_ok_def)
  obtain os1 where C: "cancelVote (Options p) v = Ret (os1, v1)" "length os1 = length (Options p)" "tally_ok os1 (set_voter ?vs a v1)"
    using cancelVote_ok[OF V T F(1)] v1_def by auto
  have V1: "voters_ok (length os1) (set_voter ?vs a v1)"
    unfolding C(2) using V F(1) a pv by (intro voters_ok_set) auto
  obtain os2 where D: "doVote os1 v1 choice = Ret (os2, ?v)" "length os2 = length os1" "tally_ok os2 (set_voter (set_voter ?vs a v1) a ?v)"
    using doVote_ok[OF V1 C(3) set_voter_eq(6)[OF F(1) a(1)] a(3) c(1)] c(2) C(2) a(2) by auto
  have D3: "tally_ok os2 (set_voter ?vs a ?v)" using D(3) a(1) by (simp add: set_voter_twice)
  have V2: "voters_ok (length os2) (set_voter ?vs a ?v)" unfolding D(2) C(2) using V F pv c by (intro voters_ok_set) auto
  have s: "powsum (set_voter ?vs a ?v) = powsum ?vs" using set_voter_eq(2)[OF F(1), of ?v] F(3) by simp
  have os2: "os2 \<noteq> []" using D(2) C(2) ok by (auto simp: prop_ok_iff)
  show ?thesis
  proof (cases "voChoice v = choice")
    case True
    then have e: "?v = v" by simp
    have e': "p\<lparr>Options := Options p, Voters := set_voter ?vs a v\<rparr> = p" using set_voter_same[OF F(1)] by simp
    show ?thesis unfolding e using e' True f ok by (intro exI[of _ "Options p"]) (simp add: DoVote_def)
  next
    case False
    have "prop_ok (p\<lparr>Options := os2, Voters := set_voter ?vs a ?v\<rparr>)"
      using V2 D3 s os2 ok by (simp add: prop_ok_iff)
    then show ?thesis using False f C(1) D(1) vote_options(1)[OF C(1)] vote_options(2)[OF D(1)]
      by (intro exI[of _ os2]) (simp add: DoVote_def)
  qed
qed

section \<open>Slashing keeps the tally\<close>

definition slash_amount :: "int \<Rightarrow> int \<Rightarrow> int" where
  "slash_amount pw rate = (let s = pw * rate div 100 in if s \<le> 0 then pw else s)"

lemma slash_amount_bounds:
  assumes "0 \<le> pw" "pw \<le> max_power" "0 \<le> rate" "rate \<le> 100"
  shows "0 \<le> slash_amount pw rate" "slash_amount pw rate \<le> pw"
    "(let s = i64 (pw * rate) sdiv 100 in if s \<le> 0 then pw else s) = slash_amount pw rate"
proof -
  have r: "0 \<le> pw * rate" "pw * rate \<le> pw * 100" using assms by (auto intro: mult_left_mono)
  then have "in64 (pw * rate)" using assms(2) by (auto simp: in64_def max_power_def)
  then show "(let s = i64 (pw * rate) sdiv 100 in if s \<le> 0 then pw else s) = slash_amount pw rate"
    using r by (simp add: slash_amount_def)
  show "0 \<le> slash_amount pw rate" using assms(1) r by (auto simp: slash_amount_def Let_def)
  show "slash_amount pw rate \<le> pw" using r by (auto simp: slash_amount_def Let_def)
qed

lemma powsum_major: "0 \<le> t \<Longrightarrow> t \<le> max_power \<Longrightarrow> i64 (t * 2) sdiv 3 = 2 * t div 3"
  by (simp add: in64_def max_power_def mult.commute)

lemma DoSlash_spec:
  assumes ok: "prop_ok p" and f: "findVoter p a = Some v" and r: "0 \<le> rate" "rate \<le> 100"
  shows "\<exists>p'. DoSlash p a rate = Ret (p', Inr (slash_amount (voPower v) rate)) \<and> prop_ok p' \<and>
    length (Options p') = length (Options p) \<and>
    TotalVotingPower p' = TotalVotingPower p - slash_amount (voPower v) rate \<and>
    prTxHash p' = prTxHash p \<and> PropType p' = PropType p \<and> MajorOption p' = MajorOption p \<and>
    EndVotingHeight p' = EndVotingHeight p \<and> ApplyHeight p' = ApplyHeight p \<and>
    map opOption (Options p') = map opOption (Options p)"
proof -
  let ?vs = "Voters p" let ?s = "slash_amount (voPower v) rate"
  define v1 where "v1 = (if voChoice v \<ge> 0 then v\<lparr>voChoice := -1\<rparr> else v)"
  define v2 where "v2 = v1\<lparr>voPower := voPower v - ?s\<rparr>"
  have V: "voters_ok (length (Options p)) ?vs" and T: "tally_ok (Options p) ?vs" using ok by (auto simp: prop_ok_iff)
  have F: "List.find (\<lambda>v. voAddress v = a) ?vs = Some v" "v \<in> set ?vs" "voAddress v = a" using find_voter[OF f] by auto
  have pv: "0 \<le> voPower v" "voPower v \<le> powsum ?vs" "powsum ?vs \<le> max_power"
    using V F(2) voter_le[of ?vs v] by (auto simp: voters_ok_def pow_ok_def)
  note B = slash_amount_bounds[OF pv(1) _ r] 
  have B': "0 \<le> ?s" "?s \<le> voPower v" "(let s = i64 (voPower v * rate) sdiv 100 in if s \<le> 0 then voPower v else s) = ?s"
    using B pv by auto
  have i: "i64 (voPower v - ?s) = voPower v - ?s" "i64 (powsum ?vs - ?s) = powsum ?vs - ?s"
    using B' pv by (auto intro!: i64_id in64_power)
  obtain os1 where C: "cancelVote (Options p) v = Ret (os1, v1)" "length os1 = length (Options p)" "tally_ok os1 (set_voter ?vs a v1)"
    using cancelVote_ok[OF V T F(1)] v1_def by auto
  have a: "voAddress v1 = a" "voAddress v2 = a" "voChoice v1 < 0" "voChoice v2 < 0" "voPower v2 = voPower v - ?s"
    using F(3) by (auto simp: v1_def v2_def)
  let ?vs2 = "set_voter ?vs a v2"
  note S = set_voter_eq[OF F(1) a(2)]
  have tally2: "tally ?vs2 j = tally (set_voter ?vs a v1) j" for j
    using S(1) set_voter_eq(1)[OF F(1) a(1)] a(3,4) by simp
  have T2: "tally_ok os1 ?vs2" using C(3) by (simp add: tally_ok_def tally2)
  have V2: "voters_ok (length os1) ?vs2"
    unfolding C(2) using V F(1) a B' by (intro voters_ok_set) auto
  have p2: "powsum ?vs2 = powsum ?vs - ?s" using S(2) a(5) by simp
  define p1 where "p1 = p\<lparr>Options := os1, Voters := ?vs2\<rparr>"
  define fin where "fin q = q\<lparr>TotalVotingPower := powsum ?vs - ?s, MajorityPower := 2 * (powsum ?vs - ?s) div 3\<rparr>" for q :: GovProposal
  have m: "i64 ((powsum ?vs - ?s) * 2) sdiv 3 = 2 * (powsum ?vs - ?s) div 3" using pv B' by (intro powsum_major) auto
  have E: "DoSlash p a rate = (case (if voPower v2 \<le> 0 then Ret (removeVoter p1 a)
      else if voChoice v \<ge> 0 then (case doVote os1 v2 (voChoice v) of Panic \<Rightarrow> Panic
         | Ret (os3, v3) \<Rightarrow> Ret (p1\<lparr>Options := os3, Voters := set_voter ?vs2 a v3\<rparr>))
      else Ret p1) of Panic \<Rightarrow> Panic | Ret q \<Rightarrow> Ret (fin q, Inr ?s))"
  proof -
    have c: "(if voChoice v \<ge> 0 then cancelVote (Options p) v else Ret (Options p, v)) = Ret (os1, v1)"
      using C(1) by (auto simp: cancelVote_def)
    have t: "TotalVotingPower p = powsum ?vs" using ok by (simp add: prop_ok_iff)
    have U: "DoSlash p a rate = (let slash = (let s = i64 (voPower v * rate) sdiv 100 in if s \<le> 0 then voPower v else s);
        w = v1\<lparr>voPower := i64 (voPower v - slash)\<rparr>;
        p1 = p\<lparr>Options := os1, Voters := set_voter ?vs a w\<rparr>; tot = i64 (TotalVotingPower p - slash) in
        case (if voPower w \<le> 0 then Ret (removeVoter p1 a)
              else if voChoice v \<ge> 0 then (case doVote os1 w (voChoice v) of Panic \<Rightarrow> Panic
                 | Ret (os3, v3) \<Rightarrow> Ret (p1\<lparr>Options := os3, Voters := set_voter (Voters p1) a v3\<rparr>))
              else Ret p1) of Panic \<Rightarrow> Panic
            | Ret p2 \<Rightarrow> Ret (p2\<lparr>TotalVotingPower := tot, MajorityPower := i64 (tot * 2) sdiv 3\<rparr>, Inr slash))"
      unfolding DoSlash_def f option.case c go.case prod.case Let_def ..
    have w: "v1\<lparr>voPower := voPower v - ?s\<rparr> = v2" and pv1: "Voters p1 = ?vs2" by (simp_all add: v2_def p1_def)
    show ?thesis unfolding U B'(3) unfolding Let_def t i m w fin_def p1_def[symmetric] pv1 ..
  qed
  have os1: "os1 \<noteq> []" using C(2) ok by (auto simp: prop_ok_iff)
  have fin_ok: ?thesis if D: "DoSlash p a rate = Ret (fin (p\<lparr>Options := os, Voters := vs\<rparr>), Inr ?s)" and
      q: "voters_ok (length os) vs" "tally_ok os vs" "powsum vs = powsum ?vs - ?s" "length os = length (Options p)"
      "map opOption os = map opOption (Options p)" for os vs
  proof -
    have "os \<noteq> []" using q(4) os1 C(2) by auto
    then have "prop_ok (fin (p\<lparr>Options := os, Voters := vs\<rparr>))" using q by (simp add: prop_ok_iff fin_def)
    then show ?thesis using D q(4,5) ok unfolding prop_ok_iff
      by (intro exI[of _ "fin (p\<lparr>Options := os, Voters := vs\<rparr>)"]) (simp add: fin_def prop_ok_iff)
  qed
  consider (gone) "voPower v2 \<le> 0" | (again) "voPower v2 > 0" "voChoice v \<ge> 0" | (idle) "voPower v2 > 0" "voChoice v < 0" by linarith
  then show ?thesis
  proof cases
    case gone
    have d: "distinct (map voAddress ?vs2)" using V2 by (simp add: voters_ok_def)
    obtain rest where R: "remove_last (\<lambda>v. bytes_Equal (voAddress v) a) ?vs2 = Some (v2, rest)"
        "\<forall>j. tally rest j = tally ?vs2 j" "powsum rest = powsum ?vs2 - voPower v2" "distinct (map voAddress rest)" "set rest \<subseteq> set ?vs2"
      using removeVoter_eq[OF S(6) d] a(4) by auto
    have z: "voPower v2 = 0" using gone B' a(5) by simp
    have s: "powsum rest = powsum ?vs - ?s" using R(3) p2 z by simp
    have t: "tally_ok os1 rest" using T2 R(2) by (simp add: tally_ok_def)
    have "\<forall>w \<in> set rest. 0 \<le> voPower w \<and> voChoice w < int (length os1)"
      using V2 R(5) unfolding voters_ok_def pow_ok_def by blast
    then have o: "voters_ok (length os1) rest"
      using R(4) V2 s p2 by (simp add: voters_ok_def pow_ok_def)
    have e: "DoSlash p a rate = Ret (fin (p\<lparr>Options := os1, Voters := rest\<rparr>), Inr ?s)"
      using E gone R(1) by (simp add: removeVoter_def p1_def)
    show ?thesis by (rule fin_ok[OF e o t s C(2) vote_options(1)[OF C(1)]])
  next
    case again
    have c: "0 \<le> voChoice v" "voChoice v < int (length os1)" using again V F(2) C(2) by (auto simp: voters_ok_def)
    obtain os3 where D: "doVote os1 v2 (voChoice v) = Ret (os3, v2\<lparr>voChoice := voChoice v\<rparr>)" "length os3 = length os1"
        "tally_ok os3 (set_voter ?vs2 a (v2\<lparr>voChoice := voChoice v\<rparr>))"
      using doVote_ok[OF V2 T2 S(6) a(4) c] by blast
    let ?v3 = "v2\<lparr>voChoice := voChoice v\<rparr>"
    have o: "voters_ok (length os3) (set_voter ?vs2 a ?v3)"
      unfolding D(2) by (rule voters_ok_set[OF V2 S(6)]) (use a(2) c again(1) in simp_all)
    have s: "powsum (set_voter ?vs2 a ?v3) = powsum ?vs - ?s" using set_voter_eq(2)[OF S(6), of ?v3] a p2 by simp
    have e: "DoSlash p a rate = Ret (fin (p\<lparr>Options := os3, Voters := set_voter ?vs2 a ?v3\<rparr>), Inr ?s)"
      using E again D(1) by (simp add: p1_def)
    have l: "length os3 = length (Options p)" "map opOption os3 = map opOption (Options p)"
      using D(2) C(2) vote_options(1)[OF C(1)] vote_options(2)[OF D(1)] by auto
    show ?thesis by (rule fin_ok[OF e o D(3) s l])
  next
    case idle
    then have e: "DoSlash p a rate = Ret (fin (p\<lparr>Options := os1, Voters := ?vs2\<rparr>), Inr ?s)" using E p1_def by simp
    show ?thesis by (rule fin_ok[OF e V2 T2 p2 C(2) vote_options(1)[OF C(1)]])
  qed
qed

section \<open>The major option\<close>

lemma swo_powerOrder: "swo powerOrder_Less"
  by (auto simp: swo_def powerOrder_Less_def)

lemma updateMajorOption_spec:
  assumes "Options p \<noteq> []"
  shows "\<exists>x os. updateMajorOption p = Ret (if opVotes x \<ge> MajorityPower p then p\<lparr>Options := os, MajorOption := Some x\<rparr>
      else p\<lparr>Options := os\<rparr>) \<and> x \<in> set (Options p) \<and> (\<forall>y \<in> set (Options p). opVotes y \<le> opVotes x) \<and>
      mset os = mset (Options p)"
proof -
  let ?os = "sort_by powerOrder_Less (Options p)"
  obtain x xs where o: "?os = x # xs" using assms by (metis length_0_conv length_sort_by list.exhaust)
  have "sorted_wrt (\<lambda>a b. \<not> powerOrder_Less b a) ?os" by (rule sorted_sort_by[OF swo_powerOrder])
  then have "\<forall>y \<in> set xs. opVotes y \<le> opVotes x" unfolding o by (auto simp: powerOrder_Less_def not_less)
  moreover have "set (Options p) = insert x (set xs)" using set_sort_by[of powerOrder_Less "Options p"] o by simp
  moreover have "mset (x # xs) = mset (Options p)" using mset_sort_by[of powerOrder_Less "Options p"] o by simp
  ultimately show ?thesis by (intro exI[of _ x] exI[of _ "x # xs"]) (simp add: updateMajorOption_def o)
qed

text \<open>Two different options cannot both reach two thirds of a total of five or more.\<close>

lemma majority_unique:
  assumes "prop_ok p" "5 \<le> TotalVotingPower p" "i < length (Options p)" "j < length (Options p)" "i \<noteq> j"
    "MajorityPower p \<le> opVotes (Options p ! i)"
  shows "opVotes (Options p ! j) < MajorityPower p"
proof -
  have "opVotes (Options p ! i) + opVotes (Options p ! j) \<le> TotalVotingPower p"
    using tally_two[OF prop_okD(3)[OF assms(1)] assms(5)] prop_okD(5,6)[OF assms(1)] assms(3,4) by simp
  then show ?thesis using assms(2,6) prop_okD(8)[OF assms(1)] by linarith
qed

end
