(* ===== verification/Trx.thy ===== *)
theory Trx
  imports Gov_Params
begin

text \<open>
  Transactions: \<open>src/ctrlers/types/trx.go\<close>, the payloads of \<open>trx_*.go\<close> and the signers of
  \<open>signer.go\<close>, \<open>signer_v0.go\<close> and \<open>signer_v1.go\<close>. A byte slice whose nil-ness the code tests is a
  \<open>bytes option\<close>. The protobuf and RLP libraries and the recovery of a public key from a signature
  are parameters; the conversions between the Go structures and the library messages are modelled.
\<close>

section \<open>Types\<close>

definition TRX_TRANSFER :: int where "TRX_TRANSFER = 1"
definition TRX_STAKING :: int where "TRX_STAKING = 2"
definition TRX_UNSTAKING :: int where "TRX_UNSTAKING = 3"
definition TRX_PROPOSAL :: int where "TRX_PROPOSAL = 4"
definition TRX_VOTING :: int where "TRX_VOTING = 5"
definition TRX_CONTRACT :: int where "TRX_CONTRACT = 6"
definition TRX_SETDOC :: int where "TRX_SETDOC = 7"
definition TRX_WITHDRAW :: int where "TRX_WITHDRAW = 8"
definition TRX_MIN_TYPE :: int where "TRX_MIN_TYPE = TRX_TRANSFER"
definition TRX_MAX_TYPE :: int where "TRX_MAX_TYPE = TRX_WITHDRAW"

lemmas trx_types = TRX_TRANSFER_def TRX_STAKING_def TRX_UNSTAKING_def TRX_PROPOSAL_def TRX_VOTING_def
  TRX_CONTRACT_def TRX_SETDOC_def TRX_WITHDRAW_def TRX_MIN_TYPE_def TRX_MAX_TYPE_def

record proposal_payload =
  ppMessage :: string
  ppStartVotingHeight :: int
  ppVotingPeriodBlocks :: int
  ppApplyingHeight :: int
  ppOptType :: int
  ppOptions :: "bytes list"

datatype TrxPayload =
    TrxPayloadAssetTransfer
  | TrxPayloadStaking
  | TrxPayloadUnstaking bytes
  | TrxPayloadWithdraw uint256
  | TrxPayloadProposal proposal_payload
  | TrxPayloadVoting bytes int
  | TrxPayloadContract bytes
  | TrxPayloadSetDoc string string

fun Payload_Type :: "TrxPayload \<Rightarrow> int" where
  "Payload_Type TrxPayloadAssetTransfer = TRX_TRANSFER"
| "Payload_Type TrxPayloadStaking = TRX_STAKING"
| "Payload_Type (TrxPayloadUnstaking _) = TRX_UNSTAKING"
| "Payload_Type (TrxPayloadWithdraw _) = TRX_WITHDRAW"
| "Payload_Type (TrxPayloadProposal _) = TRX_PROPOSAL"
| "Payload_Type (TrxPayloadVoting _ _) = TRX_VOTING"
| "Payload_Type (TrxPayloadContract _) = TRX_CONTRACT"
| "Payload_Type (TrxPayloadSetDoc _ _) = TRX_SETDOC"

definition Proposal_Equal :: "proposal_payload \<Rightarrow> proposal_payload \<Rightarrow> bool" where
  "Proposal_Equal x y \<longleftrightarrow> ppMessage x = ppMessage y \<and> ppStartVotingHeight x = ppStartVotingHeight y \<and>
     ppVotingPeriodBlocks x = ppVotingPeriodBlocks y \<and> ppApplyingHeight x = ppApplyingHeight y \<and>
     ppOptType x = ppOptType y \<and> length (ppOptions x) = length (ppOptions y) \<and>
     list_all2 (\<lambda>a b. bytes_Compare a b = 0) (ppOptions x) (ppOptions y)"

text \<open>The empty payloads equal everything; the others require the same type.\<close>

definition Payload_Equal :: "TrxPayload \<Rightarrow> TrxPayload option \<Rightarrow> bool" where
  "Payload_Equal p q = (case p of
     TrxPayloadAssetTransfer \<Rightarrow> True
   | TrxPayloadStaking \<Rightarrow> True
   | TrxPayloadUnstaking h \<Rightarrow> (case q of Some (TrxPayloadUnstaking h') \<Rightarrow> bytes_Compare h h' = 0 | _ \<Rightarrow> False)
   | TrxPayloadWithdraw a \<Rightarrow> (case q of Some (TrxPayloadWithdraw a') \<Rightarrow> a = a' | _ \<Rightarrow> False)
   | TrxPayloadProposal x \<Rightarrow> (case q of Some (TrxPayloadProposal y) \<Rightarrow> Proposal_Equal x y | _ \<Rightarrow> False)
   | TrxPayloadVoting h c \<Rightarrow>
       (case q of Some (TrxPayloadVoting h' c') \<Rightarrow> bytes_Compare h h' = 0 \<and> c = c' | _ \<Rightarrow> False)
   | TrxPayloadContract d \<Rightarrow> (case q of Some (TrxPayloadContract d') \<Rightarrow> bytes_Compare d d' = 0 | _ \<Rightarrow> False)
   | TrxPayloadSetDoc n u \<Rightarrow> (case q of Some (TrxPayloadSetDoc n' u') \<Rightarrow> n = n' \<and> u = u' | _ \<Rightarrow> False))"

definition GetOption :: "proposal_payload \<Rightarrow> int \<Rightarrow> bytes option go" where
  "GetOption p i = (if i \<ge> int (length (ppOptions p)) then Ret None
     else if i < 0 then Panic else Ret (Some (ppOptions p ! nat i)))"

record Trx =
  txVersion :: int
  txTime :: int
  txNonce :: int
  txFrom :: bytes
  txTo :: "bytes option"
  txAmount :: uint256
  txGas :: int
  txGasPrice :: uint256
  txType :: int
  txPayload :: "TrxPayload option"
  txSig :: "bytes option"
  txPayer :: "bytes option"
  txPayerSig :: "bytes option"

definition Trx_Equal :: "Trx \<Rightarrow> Trx \<Rightarrow> bool" where
  "Trx_Equal tx tx' \<longleftrightarrow>
     txVersion tx = txVersion tx' \<and> txTime tx = txTime tx' \<and> txNonce tx = txNonce tx' \<and>
     HexBytes_Compare (txFrom tx) (txFrom tx') = 0 \<and>
     HexBytes_Compare (opt_bytes (txTo tx)) (opt_bytes (txTo tx')) = 0 \<and>
     txAmount tx = txAmount tx' \<and> txGas tx = txGas tx' \<and> txGasPrice tx = txGasPrice tx' \<and>
     txType tx = txType tx' \<and>
     bytes_Compare (opt_bytes (txSig tx)) (opt_bytes (txSig tx')) = 0 \<and>
     (case txPayload tx of Some p \<Rightarrow> Payload_Equal p (txPayload tx') | None \<Rightarrow> txPayload tx' = None)"

definition TrxTypeString :: "int \<Rightarrow> string" where
  "TrxTypeString t =
     (if t = TRX_TRANSFER then ''transfer'' else if t = TRX_STAKING then ''staking''
      else if t = TRX_UNSTAKING then ''unstaking'' else if t = TRX_WITHDRAW then ''withdraw''
      else if t = TRX_PROPOSAL then ''proposal'' else if t = TRX_VOTING then ''voting''
      else if t = TRX_CONTRACT then ''contract'' else if t = TRX_SETDOC then ''setdoc''
      else ''unknown'')"

section \<open>Validation\<close>

definition Trx_Validate :: "Trx \<Rightarrow> xerror option" where
  "Trx_Validate tx =
     (if length (txFrom tx) \<noteq> AddrSize then Some ErrInvalidAddress
      else if length (opt_bytes (txTo tx)) \<noteq> AddrSize \<and> (txType tx \<noteq> TRX_CONTRACT \<or> txTo tx \<noteq> None)
        then Some ErrInvalidAddress
      else if Sign (txAmount tx) < 0 then Some ErrInvalidAmount
      else if Sign (txGasPrice tx) < 0 then Some ErrInvalidGasPrice
      else if txType tx < TRX_MIN_TYPE \<and> txType tx > TRX_MAX_TYPE then Some ErrInvalidTrxType
      else if (case txPayload tx of None \<Rightarrow> False | Some p \<Rightarrow> txType tx \<noteq> Payload_Type p)
        then Some ErrInvalidTrxPayloadType
      else if txSig tx = None then Some ErrInvalidTrxSig
      else if (case txPayer tx of None \<Rightarrow> False | Some a \<Rightarrow> length a \<noteq> AddrSize)
        then Some (Wrapf ErrInvalidAddress ''payer's addr is invalid'')
      else if txPayer tx \<noteq> None \<and> txPayerSig tx = None
        then Some (Wrapf ErrInvalidTrxSig ''payer's sig is nil'')
      else None)"

section \<open>Protobuf messages\<close>

text \<open>The messages \<open>proto.Marshal\<close> and \<open>proto.Unmarshal\<close> are called with.\<close>

datatype payload_msg =
    UnstakingProto bytes
  | WithdrawProto bytes
  | ProposalProto string int int int int "bytes list"
  | VotingProto bytes int
  | ContractProto bytes
  | SetDocProto string string

fun msg_type :: "payload_msg \<Rightarrow> int" where
  "msg_type (UnstakingProto _) = TRX_UNSTAKING"
| "msg_type (WithdrawProto _) = TRX_WITHDRAW"
| "msg_type (ProposalProto _ _ _ _ _ _) = TRX_PROPOSAL"
| "msg_type (VotingProto _ _) = TRX_VOTING"
| "msg_type (ContractProto _) = TRX_CONTRACT"
| "msg_type (SetDocProto _ _) = TRX_SETDOC"

record protobuf =
  Marshal :: "payload_msg \<Rightarrow> goerror + bytes"
  Unmarshal :: "int \<Rightarrow> bytes \<Rightarrow> goerror + payload_msg"

definition protobuf_ok :: "protobuf \<Rightarrow> bool" where
  "protobuf_ok P \<longleftrightarrow> (\<forall>m bz. Marshal P m = Inr bz \<longrightarrow> Unmarshal P (msg_type m) bz = Inr m) \<and>
     (\<forall>t bz m. Unmarshal P t bz = Inr m \<longrightarrow> msg_type m = t)"

fun Payload_msg :: "TrxPayload \<Rightarrow> payload_msg option" where
  "Payload_msg TrxPayloadAssetTransfer = None"
| "Payload_msg TrxPayloadStaking = None"
| "Payload_msg (TrxPayloadUnstaking h) = Some (UnstakingProto h)"
| "Payload_msg (TrxPayloadWithdraw a) = Some (WithdrawProto (u256_Bytes a))"
| "Payload_msg (TrxPayloadProposal p) = Some (ProposalProto (ppMessage p) (ppStartVotingHeight p)
     (ppVotingPeriodBlocks p) (ppApplyingHeight p) (ppOptType p) (ppOptions p))"
| "Payload_msg (TrxPayloadVoting h c) = Some (VotingProto h c)"
| "Payload_msg (TrxPayloadContract d) = Some (ContractProto d)"
| "Payload_msg (TrxPayloadSetDoc n u) = Some (SetDocProto n u)"

fun msg_Payload :: "payload_msg \<Rightarrow> TrxPayload" where
  "msg_Payload (UnstakingProto h) = TrxPayloadUnstaking h"
| "msg_Payload (WithdrawProto a) = TrxPayloadWithdraw (SetBytes a)"
| "msg_Payload (ProposalProto m s v a t os) = TrxPayloadProposal
     \<lparr>ppMessage = m, ppStartVotingHeight = s, ppVotingPeriodBlocks = v, ppApplyingHeight = a,
      ppOptType = t, ppOptions = os\<rparr>"
| "msg_Payload (VotingProto h c) = TrxPayloadVoting h c"
| "msg_Payload (ContractProto d) = TrxPayloadContract d"
| "msg_Payload (SetDocProto n u) = TrxPayloadSetDoc n u"

definition Payload_Encode :: "protobuf \<Rightarrow> TrxPayload \<Rightarrow> bytes option res" where
  "Payload_Encode P p = (case Payload_msg p of
     None \<Rightarrow> Inr None
   | Some m \<Rightarrow> (case Marshal P m of Inl e \<Rightarrow> Inl (NewOrdinary (goError e)) | Inr bz \<Rightarrow> Inr (Some bz)))"

definition Payload_Decode :: "protobuf \<Rightarrow> int \<Rightarrow> bytes \<Rightarrow> TrxPayload res" where
  "Payload_Decode P t bz = (case Unmarshal P t bz of
     Inl e \<Rightarrow> Inl (NewOrdinary (goError e)) | Inr m \<Rightarrow> Inr (msg_Payload m))"

record TrxProto =
  pmVersion :: int
  pmTime :: int
  pmNonce :: int
  pmFrom :: bytes
  pmTo :: "bytes option"
  pmXAmount :: bytes
  pmGas :: int
  pmXGasPrice :: bytes
  pmType :: int
  pmXPayload :: "bytes option"
  pmSig :: "bytes option"
  pmPayer :: "bytes option"
  pmPayerSig :: "bytes option"

definition fromProto :: "protobuf \<Rightarrow> TrxProto \<Rightarrow> Trx res" where
  "fromProto P pm =
     (let t = pmType pm in
      case (if t = TRX_TRANSFER \<or> t = TRX_STAKING then
              (if pmXPayload pm \<noteq> None
               then Inl (Wrapf ErrInvalidTrxPayloadType ''the payload of tx type should be nil'') else Inr None)
            else if t \<in> {TRX_UNSTAKING, TRX_WITHDRAW, TRX_PROPOSAL, TRX_VOTING, TRX_CONTRACT, TRX_SETDOC} then
              (case Payload_Decode P t (opt_bytes (pmXPayload pm)) of Inl e \<Rightarrow> Inl e | Inr p \<Rightarrow> Inr (Some p))
            else Inl ErrInvalidTrxPayloadType) of
        Inl e \<Rightarrow> Inl e
      | Inr payload \<Rightarrow> Inr
          \<lparr>txVersion = pmVersion pm, txTime = pmTime pm, txNonce = pmNonce pm, txFrom = pmFrom pm, txTo = pmTo pm,
           txAmount = SetBytes (pmXAmount pm), txGas = pmGas pm, txGasPrice = SetBytes (pmXGasPrice pm),
           txType = t, txPayload = payload, txSig = pmSig pm, txPayer = pmPayer pm, txPayerSig = pmPayerSig pm\<rparr>)"

definition toProto :: "protobuf \<Rightarrow> Trx \<Rightarrow> TrxProto res" where
  "toProto P tx =
     (case (case txPayload tx of None \<Rightarrow> Inr None | Some p \<Rightarrow> Payload_Encode P p) of
        Inl e \<Rightarrow> Inl e
      | Inr payload \<Rightarrow> Inr
          \<lparr>pmVersion = txVersion tx, pmTime = txTime tx, pmNonce = txNonce tx, pmFrom = txFrom tx, pmTo = txTo tx,
           pmXAmount = u256_Bytes (txAmount tx), pmGas = txGas tx, pmXGasPrice = u256_Bytes (txGasPrice tx),
           pmType = txType tx, pmXPayload = payload, pmSig = txSig tx, pmPayer = txPayer tx,
           pmPayerSig = txPayerSig tx\<rparr>)"

text \<open>What \<open>fromProto\<close> establishes of the payload.\<close>

definition payload_wf :: "Trx \<Rightarrow> bool" where
  "payload_wf tx \<longleftrightarrow> (case txPayload tx of
     None \<Rightarrow> txType tx = TRX_TRANSFER \<or> txType tx = TRX_STAKING
   | Some p \<Rightarrow> txType tx = Payload_Type p \<and> txType tx \<noteq> TRX_TRANSFER \<and> txType tx \<noteq> TRX_STAKING)"

lemma msg_Payload_msg [simp]: "Payload_msg p = Some m \<Longrightarrow> msg_Payload m = p"
  by (cases p) auto

lemma Payload_msg_type [simp]: "Payload_msg p = Some m \<Longrightarrow> msg_type m = Payload_Type p"
  by (cases p) auto

lemma Payload_msg_None: "Payload_msg p = None \<longleftrightarrow> Payload_Type p = TRX_TRANSFER \<or> Payload_Type p = TRX_STAKING"
  by (cases p) (auto simp: trx_types)

lemma Payload_roundtrip:
  assumes "protobuf_ok P" "Payload_Encode P p = Inr (Some bz)"
  shows "Payload_Decode P (Payload_Type p) bz = Inr p"
  using assms by (auto simp: Payload_Encode_def Payload_Decode_def protobuf_ok_def split: option.splits sum.splits)
    (metis Payload_msg_type msg_Payload_msg sum.inject(2) sum.distinct(1))+

lemma Payload_Type_cases: "Payload_Type p = TRX_TRANSFER \<or> Payload_Type p = TRX_STAKING \<or>
    Payload_Type p \<in> {TRX_UNSTAKING, TRX_WITHDRAW, TRX_PROPOSAL, TRX_VOTING, TRX_CONTRACT, TRX_SETDOC}"
  by (cases p) auto

text \<open>
  (C38) Decoding an encoded transaction gives it back, whatever its type; a transaction built with one
  of the two empty payloads comes back without payload.
\<close>

theorem trx_proto_roundtrip:
  assumes "protobuf_ok P" "toProto P tx = Inr pm"
    and "case txPayload tx of None \<Rightarrow> txType tx = TRX_TRANSFER \<or> txType tx = TRX_STAKING
         | Some p \<Rightarrow> txType tx = Payload_Type p"
  shows "fromProto P pm = Inr (tx\<lparr>txPayload := (if txType tx = TRX_TRANSFER \<or> txType tx = TRX_STAKING
    then None else txPayload tx)\<rparr>)"
proof (cases "txPayload tx")
  case None
  with assms show ?thesis by (auto simp: toProto_def fromProto_def)
next
  case (Some p)
  with assms(3) have t: "txType tx = Payload_Type p" by simp
  from assms(2) Some obtain bz where e: "Payload_Encode P p = Inr bz"
    by (auto simp: toProto_def split: sum.splits)
  show ?thesis
  proof (cases bz)
    case None
    with e have "Payload_msg p = None" by (auto simp: Payload_Encode_def split: option.splits sum.splits)
    then have "txType tx = TRX_TRANSFER \<or> txType tx = TRX_STAKING" using t by (simp add: Payload_msg_None)
    with None e Some assms(2) t show ?thesis by (auto simp: toProto_def fromProto_def)
  next
    case bz: (Some b)
    with e have "Payload_msg p \<noteq> None" by (auto simp: Payload_Encode_def split: option.splits)
    then have n: "\<not> (Payload_Type p = TRX_TRANSFER \<or> Payload_Type p = TRX_STAKING)" by (simp add: Payload_msg_None)
    have "Payload_Decode P (Payload_Type p) b = Inr p" using Payload_roundtrip assms(1) e bz by blast
    with n bz e Some assms(2) t Payload_Type_cases[of p] show ?thesis
      by (auto simp: toProto_def fromProto_def opt_bytes_def)
  qed
qed

text \<open>A codec that satisfies the hypothesis: one transaction type, hashes as they are.\<close>

definition proto_ex :: protobuf where
  "proto_ex = \<lparr>Marshal = (\<lambda>m. case m of UnstakingProto h \<Rightarrow> Inr h | _ \<Rightarrow> Inl (EFmt ''unsupported'')),
     Unmarshal = (\<lambda>t bz. if t = TRX_UNSTAKING then Inr (UnstakingProto bz) else Inl (EFmt ''unsupported''))\<rparr>"

definition trx_ex :: Trx where
  "trx_ex = \<lparr>txVersion = 1, txTime = 5, txNonce = 2, txFrom = [1], txTo = Some [2], txAmount = 0, txGas = 5000,
     txGasPrice = 3, txType = TRX_UNSTAKING, txPayload = Some (TrxPayloadUnstaking [7]), txSig = Some [9],
     txPayer = None, txPayerSig = None\<rparr>"

lemma proto_ex_ok: "protobuf_ok proto_ex"
  by (auto simp: protobuf_ok_def proto_ex_def trx_types split: payload_msg.splits if_splits)

theorem trx_proto_roundtrip_witness:
  "\<exists>pm. toProto proto_ex trx_ex = Inr pm \<and> fromProto proto_ex pm = Inr trx_ex"
proof -
  obtain pm where pm: "toProto proto_ex trx_ex = Inr pm"
    by (simp add: toProto_def trx_ex_def Payload_Encode_def proto_ex_def)
  have "fromProto proto_ex pm = Inr (trx_ex\<lparr>txPayload := (if txType trx_ex = TRX_TRANSFER \<or>
      txType trx_ex = TRX_STAKING then None else txPayload trx_ex)\<rparr>)"
    by (rule trx_proto_roundtrip[OF proto_ex_ok pm]) (simp add: trx_ex_def)
  with pm show ?thesis by (simp add: trx_ex_def trx_types)
qed

lemma msg_Payload_Type [simp]: "Payload_Type (msg_Payload m) = msg_type m"
  by (cases m) auto

lemma fromProto_wf: "protobuf_ok P \<Longrightarrow> fromProto P pm = Inr tx \<Longrightarrow> payload_wf tx"
  by (auto simp: fromProto_def Let_def payload_wf_def Payload_Decode_def protobuf_ok_def trx_types
      split: sum.splits if_splits)

end
