(* ===== verification/Trx_Sign.thy ===== *)
theory Trx_Sign
  imports Trx
begin

text \<open>
  RLP forms and signatures of transactions: the \<open>EncodeRLP\<close>/\<open>DecodeRLP\<close> methods of
  \<open>src/ctrlers/types/trx.go\<close> and \<open>trx_*.go\<close>, and the signers of \<open>signer.go\<close>, \<open>signer_v0.go\<close> and
  \<open>signer_v1.go\<close>. The RLP encoder is a parameter \<open>rlp\<close> over the values the code hands to it; the
  recovery of the signer is a parameter \<open>sig2addr\<close>, which stands for \<open>crypto.Sig2Addr\<close>.
\<close>

section \<open>RLP\<close>

datatype rlp_val = RUint nat | RBytes bytes | RStr string | RSlices "bytes list" | RList "rlp_val list"

text \<open>Two values a Go type admits: the same shape, with slices of any length.\<close>

fun same_shape :: "rlp_val \<Rightarrow> rlp_val \<Rightarrow> bool" where
  "same_shape (RUint _) (RUint _) = True"
| "same_shape (RBytes _) (RBytes _) = True"
| "same_shape (RStr _) (RStr _) = True"
| "same_shape (RSlices _) (RSlices _) = True"
| "same_shape (RList []) (RList []) = True"
| "same_shape (RList (v # vs)) (RList (w # ws)) = (same_shape v w \<and> same_shape (RList vs) (RList ws))"
| "same_shape _ _ = False"

text \<open>
  RLP items are never empty and carry their length: among values of one type the encoding is
  injective, also when other bytes follow.
\<close>

definition rlp_ok :: "(rlp_val \<Rightarrow> bytes) \<Rightarrow> bool" where
  "rlp_ok rlp \<longleftrightarrow> (\<forall>v. rlp v \<noteq> []) \<and>
     (\<forall>v w x y. same_shape v w \<longrightarrow> rlp v @ x = rlp w @ y \<longrightarrow> v = w \<and> x = y)"

definition uint32 :: "int \<Rightarrow> int" where "uint32 x = x mod 2 ^ 32"

fun Payload_EncodeRLP :: "TrxPayload \<Rightarrow> rlp_val option" where
  "Payload_EncodeRLP TrxPayloadAssetTransfer = None"
| "Payload_EncodeRLP TrxPayloadStaking = None"
| "Payload_EncodeRLP (TrxPayloadUnstaking h) = Some (RBytes h)"
| "Payload_EncodeRLP (TrxPayloadWithdraw a) = Some (RBytes (u256_Bytes a))"
| "Payload_EncodeRLP (TrxPayloadProposal p) = Some (RList
     [RStr (ppMessage p), RUint (nat (u64 (ppStartVotingHeight p))), RUint (nat (u64 (ppVotingPeriodBlocks p))),
      RUint (nat (u64 (ppApplyingHeight p))), RUint (nat (uint32 (ppOptType p))), RSlices (ppOptions p)])"
| "Payload_EncodeRLP (TrxPayloadVoting h c) = Some (RList [RBytes h, RUint (nat (uint32 c))])"
| "Payload_EncodeRLP (TrxPayloadContract d) = Some (RBytes d)"
| "Payload_EncodeRLP (TrxPayloadSetDoc n u) = Some (RList [RStr n, RStr u])"

text \<open>The value a decoder of type \<open>t\<close> is handed, and what it makes of it.\<close>

fun as_uint :: "rlp_val \<Rightarrow> nat option" where
  "as_uint (RUint n) = Some n" | "as_uint _ = None"
fun as_bytes :: "rlp_val \<Rightarrow> bytes option" where
  "as_bytes (RBytes b) = Some b" | "as_bytes _ = None"
fun as_str :: "rlp_val \<Rightarrow> string option" where
  "as_str (RStr b) = Some b" | "as_str _ = None"
fun as_slices :: "rlp_val \<Rightarrow> bytes list option" where
  "as_slices (RSlices b) = Some b" | "as_slices _ = None"
fun as_list :: "rlp_val \<Rightarrow> rlp_val list" where
  "as_list (RList vs) = vs" | "as_list _ = []"

definition Proposal_DecodeRLP :: "rlp_val \<Rightarrow> proposal_payload option" where
  "Proposal_DecodeRLP v = (case as_list v of
     [m, st, vb, ah, ot, os] \<Rightarrow>
       (case (as_str m, as_uint st, as_uint vb, as_uint ah, as_uint ot, as_slices os) of
          (Some m', Some st', Some vb', Some ah', Some ot', Some os') \<Rightarrow> Some
            \<lparr>ppMessage = m', ppStartVotingHeight = i64 (int st'), ppVotingPeriodBlocks = i64 (int vb'),
             ppApplyingHeight = i64 (int ah'), ppOptType = i32 (int ot'), ppOptions = os'\<rparr>
        | _ \<Rightarrow> None)
   | _ \<Rightarrow> None)"

definition Voting_DecodeRLP :: "rlp_val \<Rightarrow> (bytes \<times> int) option" where
  "Voting_DecodeRLP v = (case as_list v of
     [h, c] \<Rightarrow> (case (as_bytes h, as_uint c) of (Some h', Some c') \<Rightarrow> Some (h', i32 (int c')) | _ \<Rightarrow> None)
   | _ \<Rightarrow> None)"

definition SetDoc_DecodeRLP :: "rlp_val \<Rightarrow> (string \<times> string) option" where
  "SetDoc_DecodeRLP v = (case as_list v of
     [n, u] \<Rightarrow> (case (as_str n, as_str u) of (Some n', Some u') \<Rightarrow> Some (n', u') | _ \<Rightarrow> None)
   | _ \<Rightarrow> None)"

definition Payload_DecodeRLP :: "int \<Rightarrow> rlp_val \<Rightarrow> TrxPayload option" where
  "Payload_DecodeRLP t v =
     (if t = TRX_TRANSFER then Some TrxPayloadAssetTransfer
      else if t = TRX_STAKING then Some TrxPayloadStaking
      else if t = TRX_UNSTAKING then map_option TrxPayloadUnstaking (as_bytes v)
      else if t = TRX_WITHDRAW then map_option (\<lambda>b. TrxPayloadWithdraw (SetBytes b)) (as_bytes v)
      else if t = TRX_PROPOSAL then map_option TrxPayloadProposal (Proposal_DecodeRLP v)
      else if t = TRX_VOTING then map_option (\<lambda>(h, c). TrxPayloadVoting h c) (Voting_DecodeRLP v)
      else if t = TRX_CONTRACT then map_option TrxPayloadContract (as_bytes v)
      else if t = TRX_SETDOC then map_option (\<lambda>(n, u). TrxPayloadSetDoc n u) (SetDoc_DecodeRLP v)
      else None)"

text \<open>\<open>EncodeToBytes\<close> of a payload whose \<open>EncodeRLP\<close> writes nothing is the empty string.\<close>

definition payload_bytes :: "(rlp_val \<Rightarrow> bytes) \<Rightarrow> TrxPayload option \<Rightarrow> bytes" where
  "payload_bytes rlp p = (case p of None \<Rightarrow> [] | Some q \<Rightarrow>
     (case Payload_EncodeRLP q of None \<Rightarrow> [] | Some v \<Rightarrow> rlp v))"

definition Trx_EncodeRLP :: "(rlp_val \<Rightarrow> bytes) \<Rightarrow> Trx \<Rightarrow> rlp_val" where
  "Trx_EncodeRLP rlp tx = RList
     [RUint (nat (u64 (txVersion tx))), RUint (nat (u64 (txTime tx))), RUint (nat (u64 (txNonce tx))),
      RBytes (txFrom tx), RBytes (opt_bytes (txTo tx)), RBytes (u256_Bytes (txAmount tx)),
      RUint (nat (u64 (txGas tx))), RBytes (u256_Bytes (txGasPrice tx)), RUint (nat (u64 (txType tx))),
      RBytes (payload_bytes rlp (txPayload tx)), RBytes (opt_bytes (txSig tx))]"

text \<open>
  Decoding writes into an existing transaction and leaves its payer fields alone. \<open>unrlp t\<close> is the
  library's decoder for the payload of type \<open>t\<close>.
\<close>

definition Trx_DecodeRLP :: "(int \<Rightarrow> bytes \<Rightarrow> goerror + rlp_val) \<Rightarrow> rlp_val \<Rightarrow> Trx \<Rightarrow> goerror + Trx" where
  "Trx_DecodeRLP unrlp v tx =
     (case as_list v of
        [ve, ti, no, fr, to, am, ga, gp, ty, pa, si] \<Rightarrow>
          (case (as_uint ve, as_uint ti, as_uint no, as_bytes fr, as_bytes to, as_bytes am) of
             (Some ve, Some ti, Some no, Some fr, Some to, Some am) \<Rightarrow>
               (case (as_uint ga, as_bytes gp, as_uint ty, as_bytes pa, as_bytes si) of
                  (Some ga, Some gp, Some ty, Some pa, Some si) \<Rightarrow>
                    (let t = i32 (int ty);
                         tx1 = tx\<lparr>txVersion := i32 (int ve), txTime := i64 (int ti), txNonce := i64 (int no),
                           txFrom := fr, txTo := Some to, txAmount := SetBytes am, txGas := i64 (int ga),
                           txGasPrice := SetBytes gp, txType := t, txSig := Some si\<rparr>
                     in if pa = [] then Inr (tx1\<lparr>txPayload := None\<rparr>)
                        else if \<not> (TRX_MIN_TYPE \<le> t \<and> t \<le> TRX_MAX_TYPE) then Inl (EXerr ErrInvalidTrxPayloadType)
                        else case unrlp t pa of
                          Inl e \<Rightarrow> Inl e
                        | Inr w \<Rightarrow> (case Payload_DecodeRLP t w of
                            None \<Rightarrow> Inl (EFmt ''rlp: wrong payload'')
                          | Some p \<Rightarrow> Inr (tx1\<lparr>txPayload := Some p\<rparr>)))
                | _ \<Rightarrow> Inl (EFmt ''rlp: wrong field''))
           | _ \<Rightarrow> Inl (EFmt ''rlp: wrong field''))
      | _ \<Rightarrow> Inl (EFmt ''rlp: wrong number of fields''))"

section \<open>Signers\<close>

definition bytes_of :: "string \<Rightarrow> bytes" where
  "bytes_of s = map of_char s"

fun dec_string :: "nat \<Rightarrow> string" where
  "dec_string n = (if n < 10 then [char_of (48 + n)] else dec_string (n div 10) @ [char_of (48 + n mod 10)])"

declare dec_string.simps [simp del]

record signers =
  chainIdV0 :: string
  chainIdV1 :: uint256

definition InitSigner :: "(uint256 \<Rightarrow> string) \<Rightarrow> uint256 \<Rightarrow> signers" where
  "InitSigner hex chainId = \<lparr>chainIdV0 = hex chainId, chainIdV1 = chainId\<rparr>"

datatype signer = SignerV0 | SignerV1

definition getSigner :: "byte \<Rightarrow> signer res" where
  "getSigner v = (if v = 0 \<or> v = 1 then Inr SignerV0 else if v = 27 \<or> v = 28 then Inr SignerV1
     else Inl (Wrap ErrInvalidTrxSig (EFmt ''invalid v value'')))"

text \<open>The transaction as signed: the payer signs over the sender's signature, the sender does not.\<close>

definition signed_part :: "bool \<Rightarrow> Trx \<Rightarrow> Trx" where
  "signed_part isPayer tx = (let tx1 = tx\<lparr>txPayer := None, txPayerSig := None\<rparr>
     in if isPayer then tx1 else tx1\<lparr>txSig := None\<rparr>)"

definition getPreimageV0 :: "(rlp_val \<Rightarrow> bytes) \<Rightarrow> signers \<Rightarrow> Trx \<Rightarrow> bool \<Rightarrow> bytes" where
  "getPreimageV0 rlp S tx isPayer =
     (let bz = rlp (Trx_EncodeRLP rlp (signed_part isPayer tx)) in
      bytes_of (CHR 0x19 # ''BEATOZ('' @ chainIdV0 S @ '') Signed Message:'' @ [CHR 0x0A] @ dec_string (length bz)) @ bz)"

definition getPreimageV1 :: "(rlp_val \<Rightarrow> bytes) \<Rightarrow> signers \<Rightarrow> Trx \<Rightarrow> bool \<Rightarrow> bytes" where
  "getPreimageV1 rlp S tx isPayer =
     rlp (Trx_EncodeRLP rlp (signed_part isPayer tx)) @ u256_Bytes (chainIdV1 S)"

definition SignatureLength :: nat where "SignatureLength = 65"

type_synonym recover = "bytes \<Rightarrow> bytes \<Rightarrow> (addr \<times> bytes) res"

definition check_addr :: "addr \<Rightarrow> (addr \<times> bytes) res \<Rightarrow> (addr \<times> bytes) res" where
  "check_addr addr0 r = (case r of
     Inl e \<Rightarrow> Inl (Wrap ErrInvalidTrxSig (EXerr e))
   | Inr (a, pk) \<Rightarrow> (if bytes_Compare addr0 a \<noteq> 0
       then Inl (Wrap ErrInvalidTrxSig (EFmt ''wrong recover address'')) else Inr (a, pk)))"

definition signer_args :: "Trx \<Rightarrow> bool \<Rightarrow> addr \<times> bytes" where
  "signer_args tx isPayer = (if isPayer then (opt_bytes (txPayer tx), opt_bytes (txPayerSig tx))
     else (txFrom tx, opt_bytes (txSig tx)))"

definition verifyV0 :: "(rlp_val \<Rightarrow> bytes) \<Rightarrow> recover \<Rightarrow> signers \<Rightarrow> Trx \<Rightarrow> bool \<Rightarrow> (addr \<times> bytes) res" where
  "verifyV0 rlp sig2addr S tx isPayer =
     (case signer_args tx isPayer of (addr0, sig) \<Rightarrow>
        check_addr addr0 (sig2addr (getPreimageV0 rlp S tx isPayer) sig))"

definition verifyV1 :: "(rlp_val \<Rightarrow> bytes) \<Rightarrow> recover \<Rightarrow> signers \<Rightarrow> Trx \<Rightarrow> bool \<Rightarrow> (addr \<times> bytes) res" where
  "verifyV1 rlp sig2addr S tx isPayer =
     (case signer_args tx isPayer of (addr0, sig) \<Rightarrow>
        if length sig \<noteq> SignatureLength then Inl (NewOrdinary ''invalid signature length'')
        else let v = sig ! 64 in
          if v = 27 \<or> v = 28
          then check_addr addr0 (sig2addr (getPreimageV1 rlp S tx isPayer) (sig[64 := v - 27]))
          else Inl (Wrap ErrInvalidTrxSig (EFmt ''invalid signature v'')))"

definition verify_with :: "signer \<Rightarrow> (rlp_val \<Rightarrow> bytes) \<Rightarrow> recover \<Rightarrow> signers \<Rightarrow> Trx \<Rightarrow> bool \<Rightarrow> (addr \<times> bytes) res" where
  "verify_with s = (case s of SignerV0 \<Rightarrow> verifyV0 | SignerV1 \<Rightarrow> verifyV1)"

text \<open>The signer is chosen by byte 64 of the signature; a shorter signature is an index out of range.\<close>

definition VerifyTrxRLP :: "(rlp_val \<Rightarrow> bytes) \<Rightarrow> recover \<Rightarrow> signers \<Rightarrow> Trx \<Rightarrow> (addr \<times> bytes) res go" where
  "VerifyTrxRLP rlp sig2addr S tx =
     (let sig = opt_bytes (txSig tx) in
      if length sig \<le> 64 then Panic
      else case getSigner (sig ! 64) of
        Inl e \<Rightarrow> Ret (Inl e)
      | Inr s \<Rightarrow> Ret (verify_with s rlp sig2addr S tx False))"

definition VerifyPayerTrxRLP :: "(rlp_val \<Rightarrow> bytes) \<Rightarrow> recover \<Rightarrow> signers \<Rightarrow> Trx \<Rightarrow> (addr \<times> bytes) res go" where
  "VerifyPayerTrxRLP rlp sig2addr S tx =
     (let sig = opt_bytes (txPayerSig tx) in
      if length sig \<le> 64 then Panic
      else case getSigner (sig ! 64) of
        Inl e \<Rightarrow> Ret (Inl e)
      | Inr s \<Rightarrow> Ret (verify_with s rlp sig2addr S tx True))"

section \<open>What a signature binds\<close>

text \<open>The ranges of the Go fields.\<close>

fun payload_ints :: "TrxPayload \<Rightarrow> bool" where
  "payload_ints (TrxPayloadProposal p) \<longleftrightarrow> in64 (ppStartVotingHeight p) \<and> in64 (ppVotingPeriodBlocks p) \<and>
     in64 (ppApplyingHeight p) \<and> in32 (ppOptType p)"
| "payload_ints (TrxPayloadVoting h c) \<longleftrightarrow> in32 c"
| "payload_ints _ \<longleftrightarrow> True"

definition trx_ints :: "Trx \<Rightarrow> bool" where
  "trx_ints tx \<longleftrightarrow> in32 (txVersion tx) \<and> in64 (txTime tx) \<and> in64 (txNonce tx) \<and> in64 (txGas tx) \<and>
     in32 (txType tx) \<and> (case txPayload tx of None \<Rightarrow> True | Some p \<Rightarrow> payload_ints p)"

lemma u64_inj: "in64 x \<Longrightarrow> in64 y \<Longrightarrow> nat (u64 x) = nat (u64 y) \<longleftrightarrow> x = y"
proof
  assume a: "in64 x" "in64 y" "nat (u64 x) = nat (u64 y)"
  then have "x mod 2 ^ 64 = y mod 2 ^ 64" by (simp add: u64_def eq_nat_nat_iff)
  then have "i64 x = i64 y" by (intro i64_eqI) (simp add: mod_eq_dvd_iff dvd_eq_mod_eq_0)
  with a show "x = y" by simp
qed simp

lemma in32_64: "in32 x \<Longrightarrow> in64 x"
  by (simp add: in32_def in64_def)

lemma unsigned_nonneg [simp]: "0 \<le> u64 x" "0 \<le> uint32 x"
  by (simp_all add: u64_def uint32_def)

lemma i32_uint32 [simp]: "in32 c \<Longrightarrow> i32 (uint32 c) = c"
  by (simp add: uint32_def i32_def in32_def mod_simps)

lemma i64_u64_in64 [simp]: "in64 x \<Longrightarrow> i64 (u64 x) = x"
  by (simp add: u64_def i64_def in64_def mod_simps)

lemma u256_Bytes_inj [simp]: "u256_Bytes x = u256_Bytes y \<longleftrightarrow> x = y"
  by (metis SetBytes_Bytes)

lemma Payload_RLP_roundtrip:
  "Payload_EncodeRLP p = Some v \<Longrightarrow> payload_ints p \<Longrightarrow> Payload_DecodeRLP (Payload_Type p) v = Some p"
  by (cases p) (auto simp: Payload_DecodeRLP_def trx_types Proposal_DecodeRLP_def Voting_DecodeRLP_def
      SetDoc_DecodeRLP_def)

lemma Payload_RLP_shape:
  "Payload_EncodeRLP p = Some v \<Longrightarrow> Payload_EncodeRLP q = Some w \<Longrightarrow> Payload_Type p = Payload_Type q \<Longrightarrow> same_shape v w"
  by (cases p; cases q) (auto simp: trx_types)

lemma Payload_RLP_None: "Payload_EncodeRLP p = None \<longleftrightarrow> Payload_Type p = TRX_TRANSFER \<or> Payload_Type p = TRX_STAKING"
  by (cases p) (auto simp: trx_types)

lemma payload_bytes_inj:
  assumes rlp: "rlp_ok rlp" and wf: "payload_wf tx" "payload_wf tx'" "trx_ints tx" "trx_ints tx'"
    and eq: "txType tx = txType tx'" "payload_bytes rlp (txPayload tx) = payload_bytes rlp (txPayload tx')"
  shows "txPayload tx = txPayload tx'"
proof (cases "txPayload tx")
  case None
  with wf eq show ?thesis by (auto simp: payload_wf_def split: option.splits)
next
  case (Some p)
  with wf eq obtain q where q: "txPayload tx' = Some q" by (auto simp: payload_wf_def split: option.splits)
  from Some wf(1) obtain v where v: "Payload_EncodeRLP p = Some v"
    by (cases "Payload_EncodeRLP p") (auto simp: payload_wf_def Payload_RLP_None)
  from q wf(2) obtain w where w: "Payload_EncodeRLP q = Some w"
    by (cases "Payload_EncodeRLP q") (auto simp: payload_wf_def Payload_RLP_None)
  have t: "Payload_Type p = Payload_Type q" using wf(1,2) eq(1) Some q by (auto simp: payload_wf_def)
  have "rlp v @ [] = rlp w @ []" using eq(2) Some q v w by (simp add: payload_bytes_def)
  then have "v = w" using rlp Payload_RLP_shape[OF v w t] unfolding rlp_ok_def by blast
  moreover have "payload_ints p" "payload_ints q" using wf(3,4) Some q by (auto simp: trx_ints_def)
  then have "Payload_DecodeRLP (Payload_Type p) v = Some p" "Payload_DecodeRLP (Payload_Type q) w = Some q"
    using Payload_RLP_roundtrip v w by blast+
  ultimately have "p = q" using t by (metis option.inject)
  with Some q show ?thesis by simp
qed


lemma i32_u64 [simp]: "in32 x \<Longrightarrow> i32 (u64 x) = x"
proof -
  assume "in32 x"
  have "x mod 2 ^ 64 mod 2 ^ 32 = x mod (2 ^ 32 :: int)" by (rule mod_mod_cancel) simp
  then have "(x mod 2 ^ 64 + 2 ^ 31) mod 2 ^ 32 = (x + 2 ^ 31) mod (2 ^ 32 :: int)" by (metis mod_add_left_eq)
  then have "i32 (u64 x) = i32 x" by (simp add: i32_def u64_def)
  with \<open>in32 x\<close> show ?thesis by simp
qed

lemma Payload_Type_range: "TRX_MIN_TYPE \<le> Payload_Type p \<and> Payload_Type p \<le> TRX_MAX_TYPE"
  by (cases p) (auto simp: trx_types)

text \<open>
  The RLP form of a transaction decodes to the same transaction; only the payer fields, which it
  does not carry, keep the values the decoded object had, and absent byte strings come back empty.
\<close>

theorem trx_rlp_roundtrip:
  assumes "rlp_ok rlp" "payload_wf tx" "trx_ints tx"
    and unrlp: "\<forall>p v. txPayload tx = Some p \<longrightarrow> Payload_EncodeRLP p = Some v \<longrightarrow> unrlp (txType tx) (rlp v) = Inr v"
  shows "Trx_DecodeRLP unrlp (Trx_EncodeRLP rlp tx) tx0 =
    Inr (tx\<lparr>txTo := Some (opt_bytes (txTo tx)), txSig := Some (opt_bytes (txSig tx)),
           txPayer := txPayer tx0, txPayerSig := txPayerSig tx0\<rparr>)"
proof -
  have i: "i32 (u64 (txVersion tx)) = txVersion tx" "i64 (u64 (txTime tx)) = txTime tx"
      "i64 (u64 (txNonce tx)) = txNonce tx" "i64 (u64 (txGas tx)) = txGas tx" "i32 (u64 (txType tx)) = txType tx"
    using assms(3) by (simp_all add: trx_ints_def)
  have "payload_bytes rlp (txPayload tx) = [] \<and> txPayload tx = None \<or>
      (\<exists>p v. txPayload tx = Some p \<and> payload_bytes rlp (txPayload tx) = rlp v \<and> rlp v \<noteq> [] \<and>
        Payload_DecodeRLP (txType tx) v = Some p \<and> txType tx = Payload_Type p \<and> unrlp (txType tx) (rlp v) = Inr v)"
  proof (cases "txPayload tx")
    case (Some p)
    with assms(2,3) have p: "txType tx = Payload_Type p" "payload_ints p" "Payload_EncodeRLP p \<noteq> None"
      by (auto simp: payload_wf_def trx_ints_def Payload_RLP_None)
    then obtain v where "Payload_EncodeRLP p = Some v" by auto
    then show ?thesis using Some p assms(1) Payload_RLP_roundtrip[of p v] unrlp
      by (auto simp: payload_bytes_def rlp_ok_def)
  qed (simp add: payload_bytes_def)
  then show ?thesis
    using Payload_Type_range by (auto simp: Trx_DecodeRLP_def Trx_EncodeRLP_def Let_def i)
qed

text \<open>An encoder that satisfies the hypothesis: every element is announced by a 1 and every end by a 0.\<close>

fun enc_bytes :: "bytes \<Rightarrow> bytes" where
  "enc_bytes [] = [0]" | "enc_bytes (b # bs) = 1 # b # enc_bytes bs"

fun enc_slices :: "bytes list \<Rightarrow> bytes" where
  "enc_slices [] = [0]" | "enc_slices (b # bs) = 1 # enc_bytes b @ enc_slices bs"

fun rlp_ex :: "rlp_val \<Rightarrow> bytes" where
  "rlp_ex (RUint n) = enc_bytes (replicate n 0)"
| "rlp_ex (RBytes b) = enc_bytes b"
| "rlp_ex (RStr s) = enc_bytes (bytes_of s)"
| "rlp_ex (RSlices bs) = enc_slices bs"
| "rlp_ex (RList []) = [0]"
| "rlp_ex (RList (v # vs)) = 1 # rlp_ex v @ rlp_ex (RList vs)"

lemma enc_bytes_inj: "enc_bytes b @ x = enc_bytes c @ y \<longleftrightarrow> b = c \<and> x = y"
proof (induction b arbitrary: c)
  case Nil
  then show ?case by (cases c) auto
next
  case (Cons a b)
  then show ?case by (cases c) auto
qed

lemma enc_slices_inj: "enc_slices b @ x = enc_slices c @ y \<longleftrightarrow> b = c \<and> x = y"
proof (induction b arbitrary: c)
  case Nil
  then show ?case by (cases c) auto
next
  case (Cons a b)
  then show ?case by (cases c) (auto simp: enc_bytes_inj)
qed

lemma bytes_of_inj: "bytes_of s = bytes_of t \<longleftrightarrow> s = t"
proof -
  have "inj (of_char :: char \<Rightarrow> byte)"
  proof (rule injI)
    fix a b :: char assume "(of_char a :: byte) = of_char b"
    then have "unat (of_nat (of_char a) :: byte) = unat (of_nat (of_char b) :: byte)" by (simp add: of_nat_of_char)
    then show "a = b" by (simp add: unat_of_nat mod_less) 
  qed
  then show ?thesis by (simp add: bytes_of_def inj_map_eq_map)
qed

lemma rlp_ex_inj: "same_shape v w \<Longrightarrow> rlp_ex v @ x = rlp_ex w @ y \<Longrightarrow> v = w \<and> x = y"
proof (induction v w arbitrary: x y rule: same_shape.induct)
  case (6 v vs w ws)
  have "rlp_ex v @ (rlp_ex (RList vs) @ x) = rlp_ex w @ (rlp_ex (RList ws) @ y)" using "6.prems"(2) by simp
  moreover have "same_shape v w" "same_shape (RList vs) (RList ws)" using "6.prems"(1) by auto
  ultimately have "v = w" "rlp_ex (RList vs) @ x = rlp_ex (RList ws) @ y" using "6.IH"(1) by blast+
  moreover have "RList vs = RList ws \<and> x = y" using "6.IH"(2) calculation \<open>same_shape (RList vs) (RList ws)\<close> by blast
  ultimately show ?case by simp
qed (simp_all add: enc_bytes_inj enc_slices_inj bytes_of_inj)

lemma rlp_ex_ok: "rlp_ok rlp_ex"
proof -
  have "enc_bytes b \<noteq> []" for b by (cases b) auto
  moreover have "enc_slices b \<noteq> []" for b by (cases b) auto
  ultimately have "rlp_ex v \<noteq> []" for v by (cases v rule: rlp_ex.cases) auto
  then show ?thesis using rlp_ex_inj by (auto simp: rlp_ok_def)
qed

fun dec_bytes :: "bytes \<Rightarrow> bytes" where
  "dec_bytes (t # b # bs) = (if t = 1 then b # dec_bytes bs else [])"
| "dec_bytes _ = []"

lemma dec_enc_bytes: "dec_bytes (enc_bytes b) = b"
  by (induction b) auto

theorem trx_rlp_roundtrip_witness:
  "Trx_DecodeRLP (\<lambda>t b. Inr (RBytes (dec_bytes b))) (Trx_EncodeRLP rlp_ex trx_ex) trx_ex = Inr trx_ex"
proof -
  have i: "trx_ints trx_ex" "payload_wf trx_ex"
    by (simp_all add: trx_ints_def trx_ex_def in32_def in64_def trx_types payload_wf_def)
  have u: "\<forall>p v. txPayload trx_ex = Some p \<longrightarrow> Payload_EncodeRLP p = Some v \<longrightarrow>
      (\<lambda>t b. Inr (RBytes (dec_bytes b))) (txType trx_ex) (rlp_ex v) = Inr v"
    by (auto simp: trx_ex_def dec_enc_bytes)
  show ?thesis using trx_rlp_roundtrip[OF rlp_ex_ok i(2,1) u, of trx_ex] by (simp add: trx_ex_def opt_bytes_def)
qed


end
