(* ===== verification/Trx_Ctx.thy ===== *)
theory Trx_Ctx
  imports Trx_Sign Account_Inv
begin

text \<open>
  The contexts of a block and of a transaction: \<open>src/ctrlers/types/block_ctx.go\<close> and
  \<open>src/ctrlers/types/trx_ctx.go\<close>. The gas pool of go-ethereum, a \<open>uint64\<close> with two operations, is a
  parameter; so are the protobuf decoder, the transaction hash and the signature recovery, which the
  record \<open>externs\<close> collects.
\<close>

section \<open>Block context\<close>

record gaspool =
  AddGas :: "int \<Rightarrow> int \<Rightarrow> int go"
  SubGas :: "int \<Rightarrow> int \<Rightarrow> goerror + int"

text \<open>Documented behaviour: the pool counts, \<open>SubGas\<close> refuses more than there is, overflow panics.\<close>

definition gaspool_ok :: "gaspool \<Rightarrow> bool" where
  "gaspool_ok G \<longleftrightarrow>
     (\<forall>p a. 0 \<le> p \<longrightarrow> 0 \<le> a \<longrightarrow> p + a < 2 ^ 64 \<longrightarrow> AddGas G p a = Ret (p + a)) \<and>
     (\<forall>p a. 0 \<le> a \<longrightarrow> a \<le> p \<longrightarrow> SubGas G p a = Inr (p - a)) \<and>
     (\<forall>p a. p < a \<longrightarrow> (\<exists>e. SubGas G p a = Inl e))"

record Evidence =
  evAddress :: addr
  evHeight :: int

record VoteInfo =
  viAddress :: addr
  viPower :: int
  viSigned :: bool

record BlockInfo =
  biChainID :: string
  biHeight :: int
  biTime :: int
  biProposer :: "addr option"
  biByzantine :: "Evidence list"
  biVotes :: "VoteInfo list"

record BlockContext =
  blockInfo :: BlockInfo
  blockSizeLimit :: int
  blockGasLimit :: int
  blockGasPool :: int
  feeSum :: uint256
  txsCnt :: int
  bAppHash :: bytes
  ValUpdates :: "(bytes \<times> int) list"

definition setBlockGasLimit :: "gaspool \<Rightarrow> BlockContext \<Rightarrow> int \<Rightarrow> BlockContext go" where
  "setBlockGasLimit G b gasLimit = (case AddGas G 0 (u64 gasLimit) of
     Panic \<Rightarrow> Panic | Ret p \<Rightarrow> Ret (b\<lparr>blockGasLimit := gasLimit, blockGasPool := p\<rparr>))"

definition NewBlockContext :: "gaspool \<Rightarrow> GovParams \<Rightarrow> BlockInfo \<Rightarrow> BlockContext go" where
  "NewBlockContext G g bi = setBlockGasLimit G
     \<lparr>blockInfo = bi, blockSizeLimit = BlockSizeLimit g, blockGasLimit = 0, blockGasPool = 0, feeSum = 0, txsCnt = 0,
      bAppHash = [], ValUpdates = []\<rparr> (BlockGasLimit g)"

definition Height :: "BlockContext \<Rightarrow> int" where "Height b = biHeight (blockInfo b)"

definition ExpectNextBlockContext :: "gaspool \<Rightarrow> GovParams \<Rightarrow> BlockContext \<Rightarrow> int \<Rightarrow> BlockContext go" where
  "ExpectNextBlockContext G g lastb interval = NewBlockContext G g
     \<lparr>biChainID = biChainID (blockInfo lastb), biHeight = i64 (Height lastb + 1),
      biTime = biTime (blockInfo lastb) + interval, biProposer = None, biByzantine = [], biVotes = []\<rparr>"

definition SumFee :: "BlockContext \<Rightarrow> uint256" where "SumFee b = feeSum b"

definition AddFee :: "BlockContext \<Rightarrow> uint256 \<Rightarrow> BlockContext" where
  "AddFee b fee = b\<lparr>feeSum := feeSum b + fee\<rparr>"

definition AddTxsCnt :: "BlockContext \<Rightarrow> int \<Rightarrow> BlockContext" where
  "AddTxsCnt b d = b\<lparr>txsCnt := i64 (txsCnt b + d)\<rparr>"

definition SetValUpdates :: "BlockContext \<Rightarrow> (bytes \<times> int) list \<Rightarrow> BlockContext" where
  "SetValUpdates b ups = b\<lparr>ValUpdates := ups\<rparr>"

definition SetBlockSizeLimit :: "BlockContext \<Rightarrow> int \<Rightarrow> BlockContext" where
  "SetBlockSizeLimit b limit = b\<lparr>blockSizeLimit := limit\<rparr>"

definition GetBlockGasUsed :: "BlockContext \<Rightarrow> int" where
  "GetBlockGasUsed b = i64 (blockGasLimit b - i64 (blockGasPool b))"

definition GetBlockGasRemained :: "BlockContext \<Rightarrow> int" where
  "GetBlockGasRemained b = i64 (blockGasPool b)"

definition UseBlockGas :: "gaspool \<Rightarrow> BlockContext \<Rightarrow> int \<Rightarrow> BlockContext \<times> xerror option" where
  "UseBlockGas G b gas = (case SubGas G (blockGasPool b) (u64 gas) of
     Inl e \<Rightarrow> (b, Some (Wrap ErrInvalidGas e))
   | Inr p \<Rightarrow> (b\<lparr>blockGasPool := p\<rparr>, None))"

definition RefundBlockGas :: "gaspool \<Rightarrow> BlockContext \<Rightarrow> int \<Rightarrow> BlockContext go" where
  "RefundBlockGas G b gas = (case AddGas G (blockGasPool b) (u64 gas) of
     Panic \<Rightarrow> Panic
   | Ret p \<Rightarrow> (if i64 p > blockGasLimit b then Panic else Ret (b\<lparr>blockGasPool := p\<rparr>)))"

text \<open>The structure \<open>MarshalJSON\<close> hands to the JSON encoder, and the way back.\<close>

record bctx_json =
  jsBlockInfo :: BlockInfo
  jsBlockSizeLimit :: int
  jsBlockGasLimit :: int
  jsBlockGasUsed :: int
  jsFeeSum :: uint256
  jsTxsCnt :: int
  jsAppHash :: bytes

definition BlockContext_MarshalJSON :: "BlockContext \<Rightarrow> bctx_json" where
  "BlockContext_MarshalJSON b = \<lparr>jsBlockInfo = blockInfo b, jsBlockSizeLimit = blockSizeLimit b,
     jsBlockGasLimit = blockGasLimit b, jsBlockGasUsed = GetBlockGasUsed b, jsFeeSum = feeSum b,
     jsTxsCnt = txsCnt b, jsAppHash = bAppHash b\<rparr>"

definition BlockContext_UnmarshalJSON :: "gaspool \<Rightarrow> bctx_json \<Rightarrow> BlockContext \<Rightarrow> BlockContext go" where
  "BlockContext_UnmarshalJSON G j b = (case AddGas G 0 (u64 (i64 (jsBlockGasLimit j - jsBlockGasUsed j))) of
     Panic \<Rightarrow> Panic
   | Ret p \<Rightarrow> Ret (b\<lparr>blockInfo := jsBlockInfo j, blockSizeLimit := jsBlockSizeLimit j,
       blockGasLimit := jsBlockGasLimit j, blockGasPool := p, feeSum := jsFeeSum j, txsCnt := jsTxsCnt j,
       bAppHash := jsAppHash j\<rparr>))"

section \<open>Gas accounting\<close>

definition bctx_ok :: "BlockContext \<Rightarrow> bool" where
  "bctx_ok b \<longleftrightarrow> 0 \<le> blockGasPool b \<and> blockGasPool b \<le> blockGasLimit b \<and> blockGasLimit b < 2 ^ 63"

lemma u64_small [simp]: "0 \<le> x \<Longrightarrow> x < 2 ^ 63 \<Longrightarrow> u64 x = x"
  by (simp add: u64_def)

lemma i64_small: "0 \<le> x \<Longrightarrow> x < 2 ^ 63 \<Longrightarrow> i64 x = x"
  by (rule i64_id) (simp add: in64_def)

lemma bctx_new:
  assumes "gaspool_ok G" "0 \<le> BlockGasLimit g" "BlockGasLimit g < 2 ^ 63"
  shows "\<exists>b. NewBlockContext G g bi = Ret b \<and> bctx_ok b \<and> GetBlockGasUsed b = 0 \<and> feeSum b = 0 \<and> txsCnt b = 0 \<and>
    blockInfo b = bi \<and> blockGasLimit b = BlockGasLimit g"
  using assms by (auto simp: NewBlockContext_def setBlockGasLimit_def gaspool_ok_def bctx_ok_def GetBlockGasUsed_def i64_small)

text \<open>
  (C39) The block's gas account: using gas within the remaining gas succeeds and moves exactly that much
  from remaining to used, using more fails and changes nothing, and refunding used gas restores it.
\<close>

theorem block_gas_account:
  assumes "gaspool_ok G" "bctx_ok b" "0 \<le> gas" "gas < 2 ^ 63"
  shows "if gas \<le> GetBlockGasRemained b
    then \<exists>b'. UseBlockGas G b gas = (b', None) \<and> bctx_ok b' \<and>
           GetBlockGasRemained b' = GetBlockGasRemained b - gas \<and> GetBlockGasUsed b' = GetBlockGasUsed b + gas \<and>
           RefundBlockGas G b' gas = Ret b
    else \<exists>e. UseBlockGas G b gas = (b, Some e)"
proof -
  have r: "GetBlockGasRemained b = blockGasPool b" "GetBlockGasUsed b = blockGasLimit b - blockGasPool b"
    using assms(2) by (simp_all add: GetBlockGasRemained_def GetBlockGasUsed_def bctx_ok_def i64_small)
  show ?thesis
  proof (cases "gas \<le> blockGasPool b")
    case True
    let ?b = "b\<lparr>blockGasPool := blockGasPool b - gas\<rparr>"
    have "UseBlockGas G b gas = (?b, None)" using True assms by (simp add: UseBlockGas_def gaspool_ok_def)
    moreover have "bctx_ok ?b" using True assms by (simp add: bctx_ok_def)
    moreover have "GetBlockGasRemained ?b = blockGasPool b - gas" "GetBlockGasUsed ?b = blockGasLimit b - blockGasPool b + gas"
      using True assms by (simp_all add: GetBlockGasRemained_def GetBlockGasUsed_def bctx_ok_def i64_small)
    moreover have "RefundBlockGas G ?b gas = Ret b"
      using True assms by (simp add: RefundBlockGas_def gaspool_ok_def bctx_ok_def i64_small)
    ultimately show ?thesis using True r by auto
  next
    case False
    then obtain e where "SubGas G (blockGasPool b) gas = Inl e"
      using assms(1) unfolding gaspool_ok_def by (meson not_less)
    then show ?thesis using False assms(3,4) r by (simp add: UseBlockGas_def)
  qed
qed

text \<open>
  A block context survives being stored and reloaded, the gas pool included, which is stored as the
  gas used; only the validator updates, which are not stored, are those of the object read into.
\<close>

theorem bctx_json_roundtrip:
  assumes "gaspool_ok G" "bctx_ok b"
  shows "BlockContext_UnmarshalJSON G (BlockContext_MarshalJSON b) b0 = Ret (b\<lparr>ValUpdates := ValUpdates b0\<rparr>)"
proof -
  have "i64 (blockGasLimit b - GetBlockGasUsed b) = blockGasPool b"
    using assms(2) by (simp add: GetBlockGasUsed_def bctx_ok_def i64_small)
  moreover have "AddGas G 0 (blockGasPool b) = Ret (blockGasPool b)"
    using assms by (simp add: gaspool_ok_def bctx_ok_def)
  ultimately show ?thesis
    using assms(2) by (simp add: BlockContext_UnmarshalJSON_def BlockContext_MarshalJSON_def bctx_ok_def)
qed

definition gaspool_ex :: gaspool where
  "gaspool_ex = \<lparr>AddGas = (\<lambda>p a. if p + a < 2 ^ 64 then Ret (p + a) else Panic),
     SubGas = (\<lambda>p a. if p < a then Inl (EFmt ''gas limit reached'') else Inr (p - a))\<rparr>"

lemma gaspool_ex_ok: "gaspool_ok gaspool_ex"
  by (simp add: gaspool_ok_def gaspool_ex_def)

definition bctx_ex :: BlockContext where
  "bctx_ex = \<lparr>blockInfo = \<lparr>biChainID = [], biHeight = 5, biTime = 0, biProposer = Some [1], biByzantine = [], biVotes = []\<rparr>,
     blockSizeLimit = 22020096, blockGasLimit = 100000, blockGasPool = 90000, feeSum = 0, txsCnt = 0, bAppHash = [],
     ValUpdates = []\<rparr>"

theorem block_gas_account_witness:
  "(\<exists>b'. UseBlockGas gaspool_ex bctx_ex 40000 = (b', None) \<and> GetBlockGasRemained b' = 50000) \<and>
   (\<exists>e. UseBlockGas gaspool_ex bctx_ex 95000 = (bctx_ex, Some e))"
proof -
  have o: "bctx_ok bctx_ex" "GetBlockGasRemained bctx_ex = 90000"
    by (simp_all add: bctx_ok_def bctx_ex_def GetBlockGasRemained_def i64_small)
  show ?thesis using block_gas_account[OF gaspool_ex_ok o(1), of 40000] block_gas_account[OF gaspool_ex_ok o(1), of 95000]
    by (auto simp: o(2))
qed

theorem bctx_json_roundtrip_witness:
  "BlockContext_UnmarshalJSON gaspool_ex (BlockContext_MarshalJSON bctx_ex) bctx_ex = Ret bctx_ex"
proof -
  have "bctx_ok bctx_ex" by (simp add: bctx_ok_def bctx_ex_def)
  then show ?thesis using bctx_json_roundtrip[OF gaspool_ex_ok, of bctx_ex bctx_ex] by (simp add: bctx_ex_def)
qed

section \<open>Transaction context\<close>

record externs =
  exProto :: protobuf
  exUnmarshalTrx :: "bytes \<Rightarrow> goerror + TrxProto"
  exTxHash :: "bytes \<Rightarrow> bytes"
  exRlp :: "rlp_val \<Rightarrow> bytes"
  exSig2Addr :: recover
  exSigners :: signers
  exGasPool :: gaspool

definition Trx_Decode :: "externs \<Rightarrow> bytes \<Rightarrow> Trx res" where
  "Trx_Decode X bz = (case exUnmarshalTrx X bz of
     Inl e \<Rightarrow> Inl (NewOrdinary (goError e)) | Inr pm \<Rightarrow> fromProto (exProto X) pm)"

record TrxContext =
  Tx :: Trx
  TxIdx :: int
  TxHash :: bytes
  Exec :: bool
  SenderPubKey :: bytes
  Sender :: aref
  Receiver :: aref
  Payer :: aref
  GasUsed :: int

text \<open>The lookup of the payer's account: without a payer signature the sender pays.\<close>

definition find_payer :: "AcctCtrler \<Rightarrow> addr option \<Rightarrow> aref \<Rightarrow> bool \<Rightarrow> AcctCtrler \<times> aref res" where
  "find_payer c payerAddr sender exec = (case payerAddr of
     None \<Rightarrow> (c, Inr sender)
   | Some a \<Rightarrow> (case findAccount c a exec of
       (c1, None) \<Rightarrow> (c1, Inl (Wrapf ErrNotFoundAccount ''payer address''))
     | (c1, Some r) \<Rightarrow> (c1, Inr r)))"

definition find_accounts :: "AcctCtrler \<Rightarrow> Trx \<Rightarrow> addr option \<Rightarrow> bool \<Rightarrow> AcctCtrler \<times> (aref \<times> aref \<times> aref) res" where
  "find_accounts c tx payerAddr exec =
     (case findAccount c (txFrom tx) exec of
        (c1, None) \<Rightarrow> (c1, Inl (Wrapf ErrNotFoundAccount ''sender address''))
      | (c1, Some s) \<Rightarrow>
          (case FindOrNewAccount c1 (case txTo tx of None \<Rightarrow> ZeroAddress | Some a \<Rightarrow> a) exec of
             (c2, r) \<Rightarrow> (case find_payer c2 payerAddr s exec of
                (c3, Inl e) \<Rightarrow> (c3, Inl e)
              | (c3, Inr p) \<Rightarrow> (c3, Inr (s, r, p)))))"

definition NewTrxContext ::
  "externs \<Rightarrow> GovParams \<Rightarrow> AcctCtrler \<Rightarrow> bytes \<Rightarrow> BlockContext \<Rightarrow> bool \<Rightarrow> (AcctCtrler \<times> TrxContext res) go" where
  "NewTrxContext X g c txbz b exec =
     (case Trx_Decode X txbz of
        Inl e \<Rightarrow> Ret (c, Inl e)
      | Inr tx \<Rightarrow>
     (case Trx_Validate tx of
        Some e \<Rightarrow> Ret (c, Inl e)
      | None \<Rightarrow>
      if txGas tx < MinTrxGas g then Ret (c, Inl (Wrapf ErrInvalidGas ''the tx has too small gas''))
      else if txGasPrice tx \<noteq> GasPrice g then Ret (c, Inl ErrInvalidGasPrice)
      else
     (case VerifyTrxRLP (exRlp X) (exSig2Addr X) (exSigners X) tx of
        Panic \<Rightarrow> Panic
      | Ret (Inl e) \<Rightarrow> Ret (c, Inl e)
      | Ret (Inr (_, pubKey)) \<Rightarrow>
     (case (if txPayerSig tx = None then Ret (Inr None)
            else case VerifyPayerTrxRLP (exRlp X) (exSig2Addr X) (exSigners X) tx of
              Panic \<Rightarrow> Panic
            | Ret (Inl e) \<Rightarrow> Ret (Inl (Wrap e (EFmt ''payer signature is invalid'')))
            | Ret (Inr (a, _)) \<Rightarrow> Ret (Inr (Some a))) of
        Panic \<Rightarrow> Panic
      | Ret (Inl e) \<Rightarrow> Ret (c, Inl e)
      | Ret (Inr payerAddr) \<Rightarrow>
     (case find_accounts c tx payerAddr exec of
        (c1, Inl e) \<Rightarrow> Ret (c1, Inl e)
      | (c1, Inr (s, r, p)) \<Rightarrow> Ret (c1, Inr
          \<lparr>Tx = tx, TxIdx = txsCnt b, TxHash = exTxHash X txbz, Exec = exec, SenderPubKey = pubKey,
           Sender = s, Receiver = r, Payer = p, GasUsed = 0\<rparr>))))))"

text \<open>\<open>Code\<close> is nil for an account that never had code, which an empty list stands for.\<close>

definition IsHandledByEVM :: "AcctCtrler \<Rightarrow> TrxContext \<Rightarrow> bool" where
  "IsHandledByEVM c ctx \<longleftrightarrow> txType (Tx ctx) = TRX_CONTRACT \<or>
     txType (Tx ctx) = TRX_TRANSFER \<and> AcctCode (heap c (Receiver ctx)) \<noteq> []"

section \<open>The accounts a context points to\<close>

text \<open>Every receiver handed out for an account that does not exist yet is the object it will live in.\<close>

definition newb_ok :: "AcctCtrler \<Rightarrow> bool" where
  "newb_ok c \<longleftrightarrow> (\<forall>a r. newbiesDeliver c a = Some r \<longrightarrow> current c a r)"

lemma current_unique: "atree c a \<noteq> None \<Longrightarrow> current c a r \<Longrightarrow> current c a r' \<Longrightarrow> r = r'"
  by (auto simp: current_def)

lemma findAccount_keeps:
  assumes "ainv c" "findAccount c a True = (c', r)" "current c b i"
  shows "current c' b i"
proof -
  note f = findAccount_exec[OF assms(1,2)]
  have "cached c' b = cached c b \<or> b = a" using f by blast
  moreover have "cached c' a = cached c a" if "cached c a \<noteq> None"
    using that assms(2) by (auto simp: findAccount_def split: option.splits)
  ultimately show ?thesis using f assms(3) by (auto simp: current_def split: if_splits)
qed

lemma findAccount_some:
  assumes "ainv c" "findAccount c a True = (c', Some i)"
  shows "current c' a i \<and> atree c' a \<noteq> None"
  using findAccount_exec[OF assms] ainvD(2,3)[of c' a i] by (auto simp: current_def)

lemma newb_find: "ainv c \<Longrightarrow> newb_ok c \<Longrightarrow> findAccount c a True = (c', r) \<Longrightarrow> newb_ok c'"
  using findAccount_exec findAccount_keeps unfolding newb_ok_def by metis

lemma FindOrNew_exec:
  assumes inv: "ainv c" "newb_ok c" and f: "FindOrNewAccount c a True = (c', r)"
  shows "ainv c' \<and> newb_ok c' \<and> atree c' = atree c \<and> current c' a r \<and> (\<forall>b i. current c b i \<longrightarrow> current c' b i)"
proof (cases "findAccount c a True")
  case (Pair c1 ro)
  note e = findAccount_exec[OF inv(1) Pair] and k = findAccount_keeps[OF inv(1) Pair]
  show ?thesis
  proof (cases ro)
    case (Some i)
    with f Pair have "c' = c1" "r = i" by (auto simp: FindOrNewAccount_def)
    with Some Pair e k findAccount_some[OF inv(1), of a c1 i] newb_find[OF inv Pair] show ?thesis by auto
  next
    case None
    then have c1: "c1 = c" "atree c a = None" using e by auto
    show ?thesis
    proof (cases "newbiesDeliver c a")
      case (Some i)
      with f Pair None c1 have "c' = c" "r = i" by (auto simp: FindOrNewAccount_def)
      with Some inv show ?thesis by (auto simp: newb_ok_def)
    next
      case n: None
      let ?c = "(fst (alloc c (NewAccountWithName a [])))\<lparr>newbiesDeliver := (newbiesDeliver c)(a \<mapsto> nextref c)\<rparr>"
      have c': "c' = ?c" "r = nextref c"
        using f Pair None n c1 by (auto simp: FindOrNewAccount_def alloc_def Let_def)
      have k': "current c b i \<Longrightarrow> current ?c b i" for b i
        by (auto simp: current_def alloc_def)
      have "current ?c a (nextref c)" using c1(2) by (simp add: current_def alloc_def NewAccountWithName_def NewAccount_def)
      moreover have "newb_ok ?c" using inv(2) k' calculation by (auto simp: newb_ok_def alloc_def)
      moreover have "ainv ?c" using inv(1) unfolding ainv_def
        by (auto simp: alloc_def NewAccountWithName_def NewAccount_def less_Suc_eq)
      moreover have "atree ?c = atree c" by (simp add: alloc_def)
      ultimately show ?thesis using c' k' by auto
    qed
  qed
qed

text \<open>The three account objects of a context are the current objects of its three addresses.\<close>

definition to_addr :: "Trx \<Rightarrow> addr" where
  "to_addr tx = (case txTo tx of None \<Rightarrow> ZeroAddress | Some a \<Rightarrow> a)"

definition payer_addr :: "Trx \<Rightarrow> addr" where
  "payer_addr tx = (if txPayerSig tx = None then txFrom tx else opt_bytes (txPayer tx))"

definition ctx_current :: "AcctCtrler \<Rightarrow> TrxContext \<Rightarrow> bool" where
  "ctx_current c ctx \<longleftrightarrow> current c (txFrom (Tx ctx)) (Sender ctx) \<and> current c (to_addr (Tx ctx)) (Receiver ctx) \<and>
     current c (payer_addr (Tx ctx)) (Payer ctx) \<and>
     atree c (txFrom (Tx ctx)) \<noteq> None \<and> atree c (payer_addr (Tx ctx)) \<noteq> None"

lemma find_accounts_exec:
  assumes inv: "ainv c" "newb_ok c" and f: "find_accounts c tx pa True = (c', Inr (s, r, p))"
  shows "ainv c' \<and> newb_ok c' \<and> atree c' = atree c \<and> current c' (txFrom tx) s \<and> current c' (to_addr tx) r \<and>
    current c' (case pa of None \<Rightarrow> txFrom tx | Some a \<Rightarrow> a) p \<and> atree c (txFrom tx) \<noteq> None \<and>
    atree c (case pa of None \<Rightarrow> txFrom tx | Some a \<Rightarrow> a) \<noteq> None \<and> (\<forall>b i. current c b i \<longrightarrow> current c' b i)"
proof -
  obtain c1 where 1: "findAccount c (txFrom tx) True = (c1, Some s)"
    using f by (auto simp: find_accounts_def split: prod.splits option.splits sum.splits)
  obtain c2 where 2: "FindOrNewAccount c1 (to_addr tx) True = (c2, r)" and 3: "find_payer c2 pa s True = (c', Inr p)"
    using f 1 by (auto simp: find_accounts_def to_addr_def split: prod.splits option.splits sum.splits)
  note e1 = findAccount_exec[OF inv(1) 1] and k1 = findAccount_keeps[OF inv(1) 1] and s1 = findAccount_some[OF inv(1) 1]
  have i1: "ainv c1" "newb_ok c1" using e1 newb_find[OF inv 1] by auto
  note e2 = FindOrNew_exec[OF i1 2]
  have i2: "ainv c2" "newb_ok c2" using e2 by auto
  show ?thesis
  proof (cases pa)
    case None
    with 3 have "c' = c2" "p = s" by (auto simp: find_payer_def)
    with None e1 e2 s1 k1 show ?thesis by auto
  next
    case (Some a)
    with 3 have 4: "findAccount c2 a True = (c', Some p)"
      by (auto simp: find_payer_def split: prod.splits option.splits)
    show ?thesis
      using Some findAccount_exec[OF i2(1) 4] findAccount_keeps[OF i2(1) 4] findAccount_some[OF i2(1) 4]
        newb_find[OF i2 4] e1 e2 s1 k1 by auto
  qed
qed

section \<open>What an accepted context guarantees\<close>

lemma check_addr_ok: "check_addr a r = Inr (b, pk) \<Longrightarrow> a = b \<and> r = Inr (b, pk)"
  by (auto simp: check_addr_def split: sum.splits prod.splits if_splits)

lemma verify_with_addr:
  "verify_with k rlp rec S tx isPayer = Inr (a, pk) \<Longrightarrow> a = fst (signer_args tx isPayer)"
  by (cases k) (auto simp: verify_with_def verifyV0_def verifyV1_def Let_def dest!: check_addr_ok
      split: prod.splits if_splits)

lemma VerifyTrx_addr: "VerifyTrxRLP rlp rec S tx = Ret (Inr (a, pk)) \<Longrightarrow> a = txFrom tx"
  by (auto simp: VerifyTrxRLP_def Let_def signer_args_def dest!: verify_with_addr split: if_splits sum.splits)

lemma VerifyPayer_addr: "VerifyPayerTrxRLP rlp rec S tx = Ret (Inr (a, pk)) \<Longrightarrow> a = opt_bytes (txPayer tx)"
  by (auto simp: VerifyPayerTrxRLP_def Let_def signer_args_def dest!: verify_with_addr split: if_splits sum.splits)

lemma NewTrxContext_parts:
  assumes "NewTrxContext X g c txbz b exec = Ret (c', Inr ctx)"
  shows "\<exists>tx pk pa s r p. Trx_Decode X txbz = Inr tx \<and> Trx_Validate tx = None \<and> MinTrxGas g \<le> txGas tx \<and>
    txGasPrice tx = GasPrice g \<and>
    VerifyTrxRLP (exRlp X) (exSig2Addr X) (exSigners X) tx = Ret (Inr (txFrom tx, pk)) \<and>
    (if txPayerSig tx = None then pa = None
     else \<exists>k. VerifyPayerTrxRLP (exRlp X) (exSig2Addr X) (exSigners X) tx = Ret (Inr (opt_bytes (txPayer tx), k)) \<and>
       pa = Some (opt_bytes (txPayer tx))) \<and>
    find_accounts c tx pa exec = (c', Inr (s, r, p)) \<and>
    ctx = \<lparr>Tx = tx, TxIdx = txsCnt b, TxHash = exTxHash X txbz, Exec = exec, SenderPubKey = pk, Sender = s,
           Receiver = r, Payer = p, GasUsed = 0\<rparr>"
  using assms unfolding NewTrxContext_def
  by (auto simp: not_less dest: VerifyTrx_addr VerifyPayer_addr split: sum.splits option.splits if_splits go.splits prod.splits)

text \<open>
  (C36) What a context created for execution guarantees: the transaction passed \<open>Validate\<close>, offers
  enough gas at the governed price, is signed by its sender and, when it names a payer, by the payer;
  the sender, receiver and payer objects are the current objects of these addresses, the sender and
  the payer exist, and creating the context changes no account.
\<close>

theorem NewTrxContext_ok:
  assumes "protobuf_ok (exProto X)" "ainv c" "newb_ok c" "NewTrxContext X g c txbz b True = Ret (c', Inr ctx)"
  shows "Trx_Validate (Tx ctx) = None \<and> payload_wf (Tx ctx) \<and> MinTrxGas g \<le> txGas (Tx ctx) \<and>
    txGasPrice (Tx ctx) = GasPrice g \<and>
    VerifyTrxRLP (exRlp X) (exSig2Addr X) (exSigners X) (Tx ctx) = Ret (Inr (txFrom (Tx ctx), SenderPubKey ctx)) \<and>
    (txPayerSig (Tx ctx) \<noteq> None \<longrightarrow> (\<exists>k. VerifyPayerTrxRLP (exRlp X) (exSig2Addr X) (exSigners X) (Tx ctx) =
       Ret (Inr (payer_addr (Tx ctx), k)))) \<and>
    ctx_current c' ctx \<and> ainv c' \<and> newb_ok c' \<and> atree c' = atree c"
proof -
  obtain tx pk pa s r p where a: "Trx_Decode X txbz = Inr tx" "Trx_Validate tx = None" "MinTrxGas g \<le> txGas tx"
      "txGasPrice tx = GasPrice g" "VerifyTrxRLP (exRlp X) (exSig2Addr X) (exSigners X) tx = Ret (Inr (txFrom tx, pk))"
      "if txPayerSig tx = None then pa = None
       else \<exists>k. VerifyPayerTrxRLP (exRlp X) (exSig2Addr X) (exSigners X) tx = Ret (Inr (opt_bytes (txPayer tx), k)) \<and>
         pa = Some (opt_bytes (txPayer tx))"
      "find_accounts c tx pa True = (c', Inr (s, r, p))"
      "ctx = \<lparr>Tx = tx, TxIdx = txsCnt b, TxHash = exTxHash X txbz, Exec = True, SenderPubKey = pk, Sender = s,
           Receiver = r, Payer = p, GasUsed = 0\<rparr>"
    using NewTrxContext_parts[OF assms(4)] by blast
  have "payload_wf tx" using a(1) assms(1) fromProto_wf by (auto simp: Trx_Decode_def split: sum.splits)
  moreover have "(case pa of None \<Rightarrow> txFrom tx | Some x \<Rightarrow> x) = payer_addr tx"
    using a(6) by (auto simp: payer_addr_def split: if_splits)
  ultimately show ?thesis
    using find_accounts_exec[OF assms(2,3) a(7)] a by (auto simp: ctx_current_def payer_addr_def split: if_splits)
qed

text \<open>
  (C40) A transaction whose signature is present but shorter than 65 bytes passes \<open>Validate\<close> and, with
  sufficient gas at the right price, makes \<open>NewTrxContext\<close> panic in \<open>CheckTx\<close> and in \<open>DeliverTx\<close>.
\<close>

theorem short_signature_panics:
  assumes "Trx_Decode X txbz = Inr tx" "Trx_Validate tx = None" "MinTrxGas g \<le> txGas tx" "txGasPrice tx = GasPrice g"
    and "txSig tx = Some sig" "length sig < 65"
  shows "NewTrxContext X g c txbz b exec = Panic"
  using assms by (simp add: NewTrxContext_def VerifyTrxRLP_def opt_bytes_def)

text \<open>A transfer of 4 from the account \<open>11\<dots>\<close> to \<open>22\<dots>\<close>, with a recovery that always names the sender.\<close>

definition addr_ex :: "byte \<Rightarrow> addr" where "addr_ex x = replicate 20 x"

definition tx_ex :: "bytes \<Rightarrow> Trx" where
  "tx_ex sig = \<lparr>txVersion = 1, txTime = 5, txNonce = 0, txFrom = addr_ex 1, txTo = Some (addr_ex 2), txAmount = 4,
     txGas = 5000, txGasPrice = 48000000000, txType = TRX_TRANSFER, txPayload = None, txSig = Some sig,
     txPayer = None, txPayerSig = None\<rparr>"

definition externs_ex :: "bytes \<Rightarrow> externs" where
  "externs_ex sig = \<lparr>exProto = proto_ex, exUnmarshalTrx = (\<lambda>_. Inr
     \<lparr>pmVersion = 1, pmTime = 5, pmNonce = 0, pmFrom = addr_ex 1, pmTo = Some (addr_ex 2), pmXAmount = u256_Bytes 4,
      pmGas = 5000, pmXGasPrice = u256_Bytes 48000000000, pmType = TRX_TRANSFER, pmXPayload = None, pmSig = Some sig,
      pmPayer = None, pmPayerSig = None\<rparr>),
     exTxHash = (\<lambda>b. b), exRlp = rlp_ex, exSig2Addr = (\<lambda>_ _. Inr (addr_ex 1, [3])),
     exSigners = InitSigner (\<lambda>_. ''0x1'') 1, exGasPool = gaspool_ex\<rparr>"

definition accts_ex :: "uint256 \<Rightarrow> AcctCtrler" where
  "accts_ex v = NewAcctCtrler [addr_ex 1 \<mapsto> (NewAccount (addr_ex 1))\<lparr>Balance := v\<rparr>]"

lemma accts_ex_ok: "ainv (accts_ex v)" "newb_ok (accts_ex v)"
  by (auto simp: accts_ex_def ainv_def newb_ok_def NewAcctCtrler_def NewAccount_def split: if_splits)

lemma tx_ex_decode: "Trx_Decode (externs_ex sig) bz = Inr (tx_ex sig)"
  by (simp add: Trx_Decode_def externs_ex_def fromProto_def tx_ex_def)

lemma tx_ex_valid: "Trx_Validate (tx_ex sig) = None"
  by (simp add: Trx_Validate_def tx_ex_def addr_ex_def AddrSize_def opt_bytes_def Sign_small trx_types sgn_if)

lemma gov_ex: "MinTrxGas DefaultGovParams = 5000" "GasPrice DefaultGovParams = 48000000000"
  using NewGovParams_price[of 1] by (simp_all add: DefaultGovParams_def NewGovParams_def)

lemma tx_ex_context:
  "\<exists>c' ctx. NewTrxContext (externs_ex (replicate 65 0)) DefaultGovParams (accts_ex v) bz b True = Ret (c', Inr ctx) \<and>
     Tx ctx = tx_ex (replicate 65 0)"
  using gov_ex
  by (simp add: NewTrxContext_def tx_ex_decode tx_ex_valid)
    (simp add: tx_ex_def externs_ex_def VerifyTrxRLP_def opt_bytes_def getSigner_def verify_with_def verifyV0_def
      signer_args_def check_addr_def find_accounts_def findAccount_def accts_ex_def NewAcctCtrler_def alloc_def
      FindOrNewAccount_def find_payer_def addr_ex_def Let_def)

theorem NewTrxContext_ok_witness:
  "\<exists>c' ctx. NewTrxContext (externs_ex (replicate 65 0)) DefaultGovParams (accts_ex 10) [7] bctx_ex True =
     Ret (c', Inr ctx) \<and> ctx_current c' ctx \<and> txAmount (Tx ctx) = 4"
proof -
  obtain c' ctx where n: "NewTrxContext (externs_ex (replicate 65 0)) DefaultGovParams (accts_ex 10) [7] bctx_ex True =
      Ret (c', Inr ctx)" and t: "Tx ctx = tx_ex (replicate 65 0)"
    using tx_ex_context by blast
  have "protobuf_ok (exProto (externs_ex (replicate 65 0)))" by (simp add: externs_ex_def proto_ex_ok)
  from NewTrxContext_ok[OF this accts_ex_ok n] n t show ?thesis by (auto simp: tx_ex_def)
qed

theorem short_signature_panics_witness:
  "NewTrxContext (externs_ex [1]) DefaultGovParams (accts_ex 10) [7] bctx_ex False = Panic"
  using short_signature_panics[OF tx_ex_decode tx_ex_valid, where sig1 = "[1]" and sig = "[1]"]
  by (simp add: gov_ex tx_ex_def)

end
