(* ===== verification/VPower_Ctrler.thy ===== *)
theory VPower_Ctrler
  imports VPower_Inv Valset Limiter Trx_Ctx
begin

text \<open>
  The voting power controller: \<open>src/ctrlers/vpower/ctrler.go\<close>, \<open>ctrler_block.go\<close> and the rest of
  \<open>ctrler_vpower.go\<close>. \<open>vexec\<close> and \<open>vcheck\<close> are the contents of the two sides of its state ledger. The
  lists of delegatees hold objects; an object that the ledger has also cached (\<open>oshared\<close>) changes when
  the ledger's delegatee does. \<open>p2a\<close> is the address of a public key.
\<close>

section \<open>State\<close>

record dgtee_obj =
  oval :: Delegatee
  oshared :: bool

record VPowerCtrler =
  vexec :: vstate
  vcheck :: vstate
  allDelegatees :: "dgtee_obj list"
  lastValidators :: "dgtee_obj list"
  vpowLimiter :: VPowerLimiter

definition own :: "Delegatee \<Rightarrow> dgtee_obj" where "own d = \<lparr>oval = d, oshared = False\<rparr>"

definition vview :: "VPowerCtrler \<Rightarrow> bool \<Rightarrow> vstate" where
  "vview c exec = (if exec then vexec c else vcheck c)"

text \<open>
  Writing a delegatee writes the cached object too; deleting it drops the object from the cache, which
  keeps its last value.
\<close>

definition sync_obj :: "vstate \<Rightarrow> dgtee_obj \<Rightarrow> dgtee_obj" where
  "sync_obj st x = (if oshared x then (case dgts st (daddr (oval x)) of
     Some d \<Rightarrow> x\<lparr>oval := d\<rparr> | None \<Rightarrow> x\<lparr>oshared := False\<rparr>) else x)"

definition set_view :: "VPowerCtrler \<Rightarrow> bool \<Rightarrow> vstate \<Rightarrow> VPowerCtrler" where
  "set_view c exec st = (if exec
     then c\<lparr>vexec := st, allDelegatees := map (sync_obj st) (allDelegatees c),
            lastValidators := map (sync_obj st) (lastValidators c)\<rparr>
     else c\<lparr>vcheck := st\<rparr>)"

definition sumPowerOfValidators :: "VPowerCtrler \<Rightarrow> int" where
  "sumPowerOfValidators c = foldl (\<lambda>t v. i64 (t + dSumPower (oval v))) 0 (lastValidators c)"

definition Validators :: "VPowerCtrler \<Rightarrow> (addr \<times> int) list \<times> int" where
  "Validators c = (map (\<lambda>v. (daddr (oval v), dSumPower (oval v))) (lastValidators c), sumPowerOfValidators c)"

definition IsValidator :: "VPowerCtrler \<Rightarrow> addr \<Rightarrow> bool" where
  "IsValidator c a = list_ex (\<lambda>v. bytes_Equal (daddr (oval v)) a) (lastValidators c)"

definition SumPowerOf :: "VPowerCtrler \<Rightarrow> addr \<Rightarrow> int" where
  "SumPowerOf c a = (case find (\<lambda>v. bytes_Equal (daddr (oval v)) a) (allDelegatees c) of
     None \<Rightarrow> 0 | Some v \<Rightarrow> dSumPower (oval v))"

definition SelfPowerOf :: "VPowerCtrler \<Rightarrow> addr \<Rightarrow> int" where
  "SelfPowerOf c a = (case find (\<lambda>v. bytes_Equal (daddr (oval v)) a) (allDelegatees c) of
     None \<Rightarrow> 0 | Some v \<Rightarrow> dSelfPower (oval v))"

definition TotalPowerOf :: "VPowerCtrler \<Rightarrow> addr \<Rightarrow> int" where
  "TotalPowerOf c a = SumPowerOf c a"

text \<open>\<open>seekVPowersOf\<close> visits the voting powers of a delegator in key order.\<close>

definition vpowers_of :: "vstate \<Rightarrow> addr \<Rightarrow> VPower list" where
  "vpowers_of st frm = map (\<lambda>t. the (vpows st (frm, t))) (sorted_list_of_set {t. vpows st (frm, t) \<noteq> None})"

definition PowerOf :: "VPowerCtrler \<Rightarrow> addr \<Rightarrow> int" where
  "PowerOf c frm = foldl (\<lambda>s v. i64 (s + vSumPower v)) 0 (vpowers_of (vexec c) frm)"

section \<open>Loading\<close>

definition LoadDelegatees :: "VPowerCtrler \<Rightarrow> int \<Rightarrow> VPowerCtrler go" where
  "LoadDelegatees c maxValCnt =
     (case selectValidators (loadDelegatees (vexec c)) maxValCnt of
        None \<Rightarrow> (if loadDelegatees (vexec c) = [] then Ret (c\<lparr>allDelegatees := [], lastValidators := []\<rparr>) else Panic)
      | Some (vals, ds) \<Rightarrow> Ret (c\<lparr>allDelegatees := map own ds, lastValidators := map own vals\<rparr>))"

text \<open>
  The genesis delegatees are the objects the ledger caches. A second validator with the same address
  takes the first one's place in the cache.
\<close>

fun init_validators ::
  "(bytes \<Rightarrow> addr) \<Rightarrow> vstate \<Rightarrow> (bytes \<times> int) list \<Rightarrow> dgtee_obj list \<Rightarrow> vstate \<times> dgtee_obj list" where
  "init_validators p2a st [] objs = (st, objs)"
| "init_validators p2a st ((pubKey, pw) # vs) objs =
     (let dgt = NewDelegatee p2a pubKey;
          st1 = bondPowerChunk st dgt (NewVPower (daddr dgt) (daddr dgt)) pw 1 (replicate 32 0);
          dgt1 = addDelegator (addPower dgt (daddr dgt) pw) (daddr dgt);
          objs1 = map (\<lambda>x. if daddr (oval x) = daddr dgt then x\<lparr>oshared := False\<rparr> else x) objs
      in init_validators p2a st1 vs (objs1 @ [\<lparr>oval = dgt1, oshared = True\<rparr>]))"

definition VPowerCtrler_InitLedger :: "(bytes \<Rightarrow> addr) \<Rightarrow> VPowerCtrler \<Rightarrow> (bytes \<times> int) list \<Rightarrow> VPowerCtrler" where
  "VPowerCtrler_InitLedger p2a c vals =
     (case init_validators p2a (vexec c) vals [] of (st, objs) \<Rightarrow>
        let ds = sort_by (\<lambda>x y. OrderByPower_Less (oval x) (oval y)) objs
        in c\<lparr>vexec := st, allDelegatees := ds, lastValidators := ds\<rparr>)"

section \<open>Validation\<close>

record bondingTrxOpt =
  boDgtee :: "Delegatee option"
  boVpow :: "VPower option"
  boPower :: int

text \<open>The checks on a delegation; the result is the total power the delegatee had.\<close>

definition check_delegation :: "GovParams \<Rightarrow> bool \<Rightarrow> Delegatee option \<Rightarrow> int \<Rightarrow> int res go" where
  "check_delegation g self dgtee txPower =
     (if self then
        (let selfPower = (case dgtee of None \<Rightarrow> txPower | Some d \<Rightarrow> i64 (txPower + dSelfPower d));
             totalPower = (case dgtee of None \<Rightarrow> 0 | Some d \<Rightarrow> dSumPower d)
         in if selfPower < MinValidatorPower g
            then Ret (Inl (Wrapf ErrInvalidTrx ''too small power to become validator''))
            else Ret (Inr totalPower))
      else (case dgtee of
        None \<Rightarrow> Ret (Inl (Wrapf ErrNotFoundDelegatee ''address''))
      | Some d \<Rightarrow>
          if MinDelegatorPower g > txPower then Ret (Inl (Wrapf ErrInvalidTrx ''invalid delegation''))
          else if i64 (dSumPower d + txPower) = 0 then Panic
          else if i64 (i64 (dSelfPower d * 100) sdiv i64 (dSumPower d + txPower)) < MinSelfPowerRate g
            then Ret (Inl (NewOrdinary ''not enough self power''))
          else Ret (Inr (dSumPower d))))"

definition optDelegatee :: "vstate \<Rightarrow> addr \<Rightarrow> Delegatee option res" where
  "optDelegatee st a = (case readDelegatee st a of
     Inl e \<Rightarrow> if e = ErrNotFoundResult then Inr None else Inl e
   | Inr d \<Rightarrow> Inr (Some d))"

definition validateStaking :: "GovParams \<Rightarrow> VPowerCtrler \<Rightarrow> TrxContext \<Rightarrow> (VPowerCtrler \<times> bondingTrxOpt res) go" where
  "validateStaking g c ctx =
     (let tx = Tx ctx; q = txAmount tx div AmountPerPower; r = txAmount tx mod AmountPerPower;
          to = opt_bytes (txTo tx); txPower = i64 (Uint64 q) in
      if Sign q \<le> 0 then Ret (c, Inl (Wrapf ErrInvalidTrx ''wrong amount: it should be greater than''))
      else if Sign r \<noteq> 0 then Ret (c, Inl (Wrapf ErrInvalidTrx ''wrong amount: it should be multiple of''))
      else if txPower \<le> 0 then Ret (c, Inl (Wrapf ErrOverFlow ''voting power is converted as negative''))
      else case optDelegatee (vview c (Exec ctx)) to of
        Inl e \<Rightarrow> Ret (c, Inl e)
      | Inr dgtee \<Rightarrow> (case check_delegation g (bytes_Equal (txFrom tx) to) dgtee txPower of
          Panic \<Rightarrow> Panic
        | Ret (Inl e) \<Rightarrow> Ret (c, Inl e)
        | Ret (Inr totalPower) \<Rightarrow>
            if totalPower > i64 (2 ^ 63 - 1 - txPower)
            then Ret (c, Inl (Wrapf ErrOverFlow ''validator power overflow occurs''))
            else (case CheckLimit (vpowLimiter c) txPower ADD_POWER of
              Panic \<Rightarrow> Panic
            | Ret (l, Some e) \<Rightarrow> Ret (c\<lparr>vpowLimiter := l\<rparr>, Inl e)
            | Ret (l, None) \<Rightarrow> Ret (c\<lparr>vpowLimiter := l\<rparr>,
                Inr \<lparr>boDgtee = dgtee, boVpow = None, boPower = txPower\<rparr>))))"

definition validateUnstaking :: "VPowerCtrler \<Rightarrow> TrxContext \<Rightarrow> (VPowerCtrler \<times> bondingTrxOpt res) go" where
  "validateUnstaking c ctx =
     (let tx = Tx ctx; st = vview c (Exec ctx); to = opt_bytes (txTo tx) in
      case readDelegatee st to of
        Inl e \<Rightarrow> Ret (c, Inl (Wrap ErrNotFoundDelegatee (EXerr e)))
      | Inr dgtee \<Rightarrow> (case txPayload tx of
          Some (TrxPayloadUnstaking txhash) \<Rightarrow>
            if length txhash \<noteq> 32 then Ret (c, Inl ErrInvalidTrxPayloadParams)
            else (case readVPower st (txFrom tx) to of
              Inl e \<Rightarrow> Ret (c, Inl (Wrap ErrNotFoundStake (EXerr e)))
            | Inr vpow \<Rightarrow> (case findPowerChunk vpow txhash of
                None \<Rightarrow> Ret (c, Inl ErrNotFoundStake)
              | Some pc \<Rightarrow> (case CheckLimit (vpowLimiter c) (cPower pc) SUB_POWER of
                  Panic \<Rightarrow> Panic
                | Ret (l, Some e) \<Rightarrow> Ret (c\<lparr>vpowLimiter := l\<rparr>, Inl e)
                | Ret (l, None) \<Rightarrow> Ret (c\<lparr>vpowLimiter := l\<rparr>,
                    Inr \<lparr>boDgtee = Some dgtee, boVpow = Some vpow, boPower = cPower pc\<rparr>))))
        | _ \<Rightarrow> Panic))"

definition VPowerCtrler_ValidateTrx :: "GovParams \<Rightarrow> VPowerCtrler \<Rightarrow> TrxContext \<Rightarrow> (VPowerCtrler \<times> bondingTrxOpt res) go" where
  "VPowerCtrler_ValidateTrx g c ctx =
     (if txType (Tx ctx) = TRX_STAKING then validateStaking g c ctx
      else if txType (Tx ctx) = TRX_UNSTAKING then validateUnstaking c ctx
      else Ret (c, Inl ErrUnknownTrxType))"

section \<open>Execution\<close>

definition execBonding ::
  "(bytes \<Rightarrow> addr) \<Rightarrow> VPowerCtrler \<Rightarrow> AcctCtrler \<Rightarrow> int \<Rightarrow> TrxContext \<Rightarrow> bondingTrxOpt \<Rightarrow>
   VPowerCtrler \<times> AcctCtrler \<times> xerror option" where
  "execBonding p2a c ac height ctx opt =
     (let tx = Tx ctx; st = vview c (Exec ctx);
          dgtee = (case boDgtee opt of Some d \<Rightarrow> Some d
            | None \<Rightarrow> if bytes_Compare (txFrom tx) (opt_bytes (txTo tx)) = 0
                then Some (NewDelegatee p2a (SenderPubKey ctx)) else None) in
      case dgtee of
        None \<Rightarrow> (c, ac, Some (Wrapf ErrNotFoundDelegatee ''address''))
      | Some d \<Rightarrow>
          (case (if hasDelegator d (txFrom tx) then readVPower st (txFrom tx) (daddr d)
                 else Inr (NewVPower (txFrom tx) (daddr d))) of
             Inl e \<Rightarrow> (c, ac, Some e)
           | Inr vpow \<Rightarrow>
               (let c1 = set_view c (Exec ctx) (bondPowerChunk st d vpow (boPower opt) height (TxHash ctx)) in
                case Account_SubBalance (heap ac (Sender ctx)) (txAmount tx) of
                  Inl e \<Rightarrow> (c1, ac, Some e)
                | Inr x \<Rightarrow> (c1, setAccount (put ac (Sender ctx) x) (Sender ctx) (Exec ctx), None))))"

definition exeUnbonding ::
  "GovParams \<Rightarrow> VPowerCtrler \<Rightarrow> int \<Rightarrow> TrxContext \<Rightarrow> bondingTrxOpt \<Rightarrow> (VPowerCtrler \<times> xerror option) go" where
  "exeUnbonding g c height ctx opt =
     (let st = vview c (Exec ctx); refundHeight = i64 (height + LazyUnbondingBlocks g) in
      case (boDgtee opt, txPayload (Tx ctx), boVpow opt) of
        (Some d, Some (TrxPayloadUnstaking txhash), Some vpow) \<Rightarrow>
          if txhash = [] then Panic
          else (case unbondPowerChunk st d vpow txhash of
            Inl e \<Rightarrow> Ret (c, Some e)
          | Inr (pc, d1, st1) \<Rightarrow>
              (let st2 = freezePowerChunk st1 (vfrom vpow) pc refundHeight;
                   c2 = set_view c (Exec ctx) st2 in
               if dSelfPower d1 = 0 then
                 (case releaseDelegators st2 (daddr d1) (Delegators d1) refundHeight of
                    (st3, Some e) \<Rightarrow> Ret (set_view c2 (Exec ctx) st3, Some e)
                  | (st3, None) \<Rightarrow> Ret (set_view c2 (Exec ctx) (removeDelegatee st3 (daddr d1)), None))
               else Ret (c2, None)))
      | _ \<Rightarrow> Panic)"

definition VPowerCtrler_ExecuteTrx ::
  "(bytes \<Rightarrow> addr) \<Rightarrow> GovParams \<Rightarrow> VPowerCtrler \<Rightarrow> AcctCtrler \<Rightarrow> int \<Rightarrow> TrxContext \<Rightarrow> bondingTrxOpt \<Rightarrow>
   (VPowerCtrler \<times> AcctCtrler \<times> xerror option) go" where
  "VPowerCtrler_ExecuteTrx p2a g c ac height ctx opt =
     (if txType (Tx ctx) = TRX_STAKING then Ret (execBonding p2a c ac height ctx opt)
      else if txType (Tx ctx) = TRX_UNSTAKING then
        (case exeUnbonding g c height ctx opt of Panic \<Rightarrow> Panic | Ret (c1, e) \<Rightarrow> Ret (c1, ac, e))
      else Ret (c, ac, Some ErrUnknownTrxType))"

section \<open>Blocks\<close>

fun punishByzantines ::
  "GovParams \<Rightarrow> VPowerCtrler \<Rightarrow> AcctCtrler \<Rightarrow> Evidence list \<Rightarrow> VPowerCtrler \<times> AcctCtrler \<times> xerror option" where
  "punishByzantines g c ac [] = (c, ac, None)"
| "punishByzantines g c ac (evi # es) =
     (case doSlash (vexec c) (evAddress evi) (SlashRate g) of
        (st, Inl _) \<Rightarrow> punishByzantines g (set_view c True st) ac es
      | (st, Inr slashed) \<Rightarrow>
          (case AcctCtrler_AddBalance ac (GovDeadAddress g) (PowerToAmount slashed) True of
             (ac1, Some e) \<Rightarrow> (set_view c True st, ac1, Some e)
           | (ac1, None) \<Rightarrow> punishByzantines g (set_view c True st) ac1 es))"

text \<open>What happens to one absent validator: count, and release all its power when it missed too many.\<close>

definition punishMissing :: "GovParams \<Rightarrow> int \<Rightarrow> VPowerCtrler \<Rightarrow> addr \<Rightarrow> VPowerCtrler \<times> xerror option" where
  "punishMissing g height c a =
     (case addMissedBlockCount (vexec c) a of
        Inl e \<Rightarrow> (c, Some e)
      | Inr (missedCnt, st) \<Rightarrow>
          (let c1 = set_view c True st;
               allowedDownCnt = i64 (InflationCycleBlocks g - MinSignedBlocks g);
               refundHeight = i64 (height + LazyUnbondingBlocks g) in
           if missedCnt \<ge> allowedDownCnt then
             (case readDelegatee st a of
                Inl e \<Rightarrow> if Contains e ErrNotFoundResult then (c1, None) else (c1, Some e)
              | Inr d \<Rightarrow> (case releaseDelegators st (daddr d) (Delegators d) refundHeight of
                  (st1, Some e) \<Rightarrow> (set_view c1 True st1, Some e)
                | (st1, None) \<Rightarrow> (set_view c1 True (removeDelegatee st1 (daddr d)), None)))
           else (c1, None)))"

fun punishAllMissing :: "GovParams \<Rightarrow> int \<Rightarrow> VPowerCtrler \<Rightarrow> VoteInfo list \<Rightarrow> VPowerCtrler \<times> xerror option" where
  "punishAllMissing g height c [] = (c, None)"
| "punishAllMissing g height c (v # vs) =
     (if viSigned v then punishAllMissing g height c vs
      else case punishMissing g height c (viAddress v) of
        (c1, Some e) \<Rightarrow> (c1, Some e)
      | (c1, None) \<Rightarrow> punishAllMissing g height c1 vs)"

definition VPowerCtrler_BeginBlock ::
  "GovParams \<Rightarrow> BlockContext \<Rightarrow> VPowerCtrler \<Rightarrow> AcctCtrler \<Rightarrow> (VPowerCtrler \<times> AcctCtrler \<times> xerror option) go" where
  "VPowerCtrler_BeginBlock g b c ac =
     (case punishByzantines g c ac (biByzantine (blockInfo b)) of
        (c1, ac1, Some e) \<Rightarrow> Ret (c1, ac1, Some e)
      | (c1, ac1, None) \<Rightarrow>
          if biVotes (blockInfo b) = [] then Ret (c1, ac1, None)
          else (case punishAllMissing g (Height b) c1 (biVotes (blockInfo b)) of
             (c2, Some e) \<Rightarrow> Ret (c2, ac1, Some e)
           | (c2, None) \<Rightarrow>
               if Height b > 0 \<and> InflationCycleBlocks g = 0 then Panic
               else
                 (let c3 = (if Height b > 0 \<and> Height b mod InflationCycleBlocks g = 0
                            then set_view c2 True (resetAllMissedBlockCount (vexec c2)) else c2)
                  in Ret (c3\<lparr>vpowLimiter := Limiter_Reset (vpowLimiter c3) (sumPowerOfValidators c3)
                       (MaxUpdatablePowerRate g)\<rparr>, ac1, None))))"

text \<open>
  \<open>Seek\<close> visits the items frozen until height \<open>h\<close> in the order of their owners. The items already
  refunded are removed when it returns, also when a refund fails.
\<close>

definition frozen_owners :: "vstate \<Rightarrow> int \<Rightarrow> addr list" where
  "frozen_owners st h = sorted_list_of_set {a. frozens st (h, a) \<noteq> None}"

fun refundFrozen :: "vstate \<Rightarrow> int \<Rightarrow> AcctCtrler \<Rightarrow> addr list \<Rightarrow> AcctCtrler \<times> addr list \<times> xerror option" where
  "refundFrozen st h ac [] = (ac, [], None)"
| "refundFrozen st h ac (a # as) =
     (case frozens st (h, a) of
        None \<Rightarrow> refundFrozen st h ac as
      | Some z \<Rightarrow> (case AcctCtrler_Reward ac a (PowerToAmount (RefundPower z)) True of
          (ac1, Some e) \<Rightarrow> (ac1, [], Some e)
        | (ac1, None) \<Rightarrow> (case refundFrozen st h ac1 as of (ac2, done, r) \<Rightarrow> (ac2, a # done, r))))"

definition unfreezePowerChunk :: "vstate \<Rightarrow> AcctCtrler \<Rightarrow> int \<Rightarrow> vstate \<times> AcctCtrler \<times> xerror option" where
  "unfreezePowerChunk st ac refundHeight =
     (case refundFrozen st refundHeight ac (frozen_owners st refundHeight) of
        (ac1, removed, r) \<Rightarrow> (fold (\<lambda>a s. removeFrozenVPower s refundHeight a) removed st, ac1, r))"

definition VPowerCtrler_EndBlock ::
  "GovParams \<Rightarrow> BlockContext \<Rightarrow> VPowerCtrler \<Rightarrow> AcctCtrler \<Rightarrow>
   (VPowerCtrler \<times> AcctCtrler \<times> BlockContext \<times> xerror option) go" where
  "VPowerCtrler_EndBlock g b c ac =
     (let c0 = c\<lparr>vpowLimiter := Limiter_Reset (vpowLimiter c) (sumPowerOfValidators c) (MaxUpdatablePowerRate g)\<rparr> in
      case unfreezePowerChunk (vexec c0) ac (Height b) of
        (st, ac1, Some e) \<Rightarrow> Ret (set_view c0 True st, ac1, b, Some e)
      | (st, ac1, None) \<Rightarrow>
          (let c1 = set_view c0 True st in
           case updateValidators (loadDelegatees st) (map oval (lastValidators c1)) (MaxValidatorCnt g) of
             None \<Rightarrow> Panic
           | Some (ups, newVals, ds) \<Rightarrow>
               Ret (c1\<lparr>allDelegatees := map own ds, lastValidators := map own newVals\<rparr>, ac1, SetValUpdates b ups, None)))"

definition unshare :: "dgtee_obj \<Rightarrow> dgtee_obj" where "unshare x = x\<lparr>oshared := False\<rparr>"

definition VPowerCtrler_Commit :: "VPowerCtrler \<Rightarrow> VPowerCtrler" where
  "VPowerCtrler_Commit c = c\<lparr>vcheck := vexec c, allDelegatees := map unshare (allDelegatees c),
     lastValidators := map unshare (lastValidators c)\<rparr>"

end
