(* ===== verification/Gov_Ctrler.thy ===== *)
theory Gov_Ctrler
  imports Proposal VPower_Ctrler
begin

text \<open>
  The governance controller: \<open>src/ctrlers/gov/ctrler.go\<close>, \<open>ctrler_block.go\<close>, \<open>ctrler_punish.go\<close>, and
  the JSON form of the parameters in \<open>src/ctrlers/types/gov_params.go\<close>. \<open>gexec\<close> and \<open>gcheck\<close> are the
  contents of the two sides of its state ledger: the parameters, the open proposals and the frozen
  proposals, each by the hash of the transaction that made it.
\<close>

section \<open>Parameters in JSON\<close>

text \<open>
  The JSON library is a parameter: \<open>jxMap\<close> reads an object, \<open>jxFill\<close> sets the fields of the parameters
  from one. \<open>jxDecimal\<close> is \<open>uint256.MustFromDecimal\<close> followed by \<open>Bytes\<close>; it panics on \<open>None\<close>.
\<close>

datatype jval = JStr string | JBytes bytes | JRest int

record gov_json =
  jxMap :: "bytes \<Rightarrow> goerror + (string \<times> jval) list"
  jxFill :: "GovParams \<Rightarrow> (string \<times> jval) list \<Rightarrow> goerror + GovParams"
  jxDecimal :: "string \<Rightarrow> bytes option"

definition conv_entry :: "gov_json \<Rightarrow> string \<Rightarrow> jval \<Rightarrow> (goerror + jval) go" where
  "conv_entry J k v =
     (if k = ''maxTotalSupply'' \<or> k = ''gasPrice'' then
        (case v of JStr s \<Rightarrow> (case jxDecimal J s of None \<Rightarrow> Panic | Some b \<Rightarrow> Ret (Inr (JBytes b))) | _ \<Rightarrow> Panic)
      else if k = ''deadAddress'' \<or> k = ''rewardPoolAddress'' then
        (case v of JStr s \<Rightarrow> (case hex_DecodeString s of Inl e \<Rightarrow> Ret (Inl e) | Inr b \<Rightarrow> Ret (Inr (JBytes b))) | _ \<Rightarrow> Panic)
      else Ret (Inr v))"

fun conv_entries :: "gov_json \<Rightarrow> (string \<times> jval) list \<Rightarrow> (goerror + (string \<times> jval) list) go" where
  "conv_entries J [] = Ret (Inr [])"
| "conv_entries J ((k, v) # es) =
     (case conv_entry J k v of
        Panic \<Rightarrow> Panic
      | Ret (Inl e) \<Rightarrow> Ret (Inl e)
      | Ret (Inr v1) \<Rightarrow> (case conv_entries J es of
          Panic \<Rightarrow> Panic | Ret (Inl e) \<Rightarrow> Ret (Inl e) | Ret (Inr es1) \<Rightarrow> Ret (Inr ((k, v1) # es1))))"

definition GovParams_UnmarshalJSON :: "gov_json \<Rightarrow> GovParams \<Rightarrow> bytes \<Rightarrow> (goerror + GovParams) go" where
  "GovParams_UnmarshalJSON J g d =
     (case jxMap J d of
        Inl e \<Rightarrow> Ret (Inl e)
      | Inr es \<Rightarrow> (case conv_entries J es of
          Panic \<Rightarrow> Panic
        | Ret (Inl e) \<Rightarrow> Ret (Inl e)
        | Ret (Inr es1) \<Rightarrow> Ret (jxFill J g es1)))"

definition emptyGovParams :: GovParams where
  "emptyGovParams = \<lparr>Version = 0, EmptyBlockIntervalSecs = 0, MaxValidatorCnt = 0, MinValidatorPower = 0,
     MinDelegatorPower = 0, MaxValidatorsOfDelegator = 0, MaxDelegatorsOfValidator = 0, MinSelfPowerRate = 0,
     MaxUpdatablePowerRate = 0, MaxIndividualPowerRate = 0, MinBondingBlocks = 0, MinSignedBlocks = 0,
     LazyUnbondingBlocks = 0, XMaxTotalSupply = None, InflationWeightPermil = 0, InflationCycleBlocks = 0,
     BondingBlocksWeightPermil = 0, RipeningBlocks = 0, XRewardPoolAddress = None, XDeadAddress = None,
     ValidatorRewardRate = 0, TxFeeRewardRate = 0, SlashRate = 0, XGasPrice = None, MinTrxGas = 0,
     BlockSizeLimit = 0, BlockGasLimit = 0, MinVotingPeriodBlocks = 0, MaxVotingPeriodBlocks = 0,
     LazyApplyingBlocks = 0\<rparr>"

section \<open>State\<close>

record gstate =
  gitem :: "GovParams option"
  props :: "bytes \<rightharpoonup> GovProposal"
  fprops :: "bytes \<rightharpoonup> GovProposal"

record GovCtrler =
  govParams :: GovParams
  newGovParams :: "GovParams option"
  gexec :: gstate
  gcheck :: gstate

definition gview :: "GovCtrler \<Rightarrow> bool \<Rightarrow> gstate" where
  "gview c exec = (if exec then gexec c else gcheck c)"

definition set_gview :: "GovCtrler \<Rightarrow> bool \<Rightarrow> gstate \<Rightarrow> GovCtrler" where
  "set_gview c exec st = (if exec then c\<lparr>gexec := st\<rparr> else c\<lparr>gcheck := st\<rparr>)"

definition NewGovCtrler :: "gstate \<Rightarrow> GovCtrler" where
  "NewGovCtrler st = \<lparr>govParams = (case gitem st of None \<Rightarrow> emptyGovParams | Some g \<Rightarrow> g), newGovParams = None,
     gexec = st, gcheck = st\<rparr>"

definition GovCtrler_InitLedger :: "GovCtrler \<Rightarrow> GovParams \<Rightarrow> GovCtrler" where
  "GovCtrler_InitLedger c g = c\<lparr>govParams := g, gexec := (gexec c)\<lparr>gitem := Some g\<rparr>\<rparr>"

definition ReadProposal :: "GovCtrler \<Rightarrow> bytes \<Rightarrow> bool \<Rightarrow> GovProposal res" where
  "ReadProposal c txhash exec = (case props (gview c exec) txhash of
     None \<Rightarrow> Inl ErrNotFoundProposal | Some p \<Rightarrow> Inr p)"

definition prop_keys :: "(bytes \<rightharpoonup> GovProposal) \<Rightarrow> bytes list" where
  "prop_keys m = sorted_list_of_set (dom m)"

definition ReadAllProposals :: "GovCtrler \<Rightarrow> bool \<Rightarrow> GovProposal list" where
  "ReadAllProposals c exec = map (\<lambda>k. the (props (gview c exec) k)) (prop_keys (props (gview c exec)))"

section \<open>Validation\<close>

fun check_options :: "gov_json \<Rightarrow> GovParams \<Rightarrow> bytes list \<Rightarrow> xerror option go" where
  "check_options J g [] = Ret None"
| "check_options J g (b # bs) = (case GovParams_UnmarshalJSON J g b of
     Panic \<Rightarrow> Panic
   | Ret (Inl e) \<Rightarrow> Ret (Some (Wrap ErrInvalidTrxPayloadParams e))
   | Ret (Inr g1) \<Rightarrow> check_options J g1 bs)"

definition check_heights :: "GovParams \<Rightarrow> proposal_payload \<Rightarrow> xerror option" where
  "check_heights g pp =
     (let endVotingHeight = i64 (ppStartVotingHeight pp + ppVotingPeriodBlocks pp);
          minApplyingHeight = i64 (endVotingHeight + LazyApplyingBlocks g) in
      if ppStartVotingHeight pp > endVotingHeight
      then Some (Wrapf ErrInvalidTrxPayloadParams ''overflow occurs'')
      else if ppApplyingHeight pp < minApplyingHeight \<or> endVotingHeight > ppApplyingHeight pp
      then Some (Wrapf ErrInvalidTrxPayloadParams ''wrong applyingHeight'')
      else if ppOptions pp = [] then Some (Wrapf ErrInvalidTrxPayloadParams ''wrong options'')
      else None)"

text \<open>\<open>isVal\<close> is \<open>VPowerHandler.IsValidator\<close>.\<close>

definition validateProposal :: "gov_json \<Rightarrow> (addr \<Rightarrow> bool) \<Rightarrow> GovCtrler \<Rightarrow> int \<Rightarrow> TrxContext \<Rightarrow> xerror option go" where
  "validateProposal J isVal c height ctx =
     (let tx = Tx ctx; g = govParams c in
      if bytes_Compare (opt_bytes (txTo tx)) ZeroAddress \<noteq> 0
      then Ret (Some (Wrap ErrInvalidTrx (EFmt ''wrong address: the 'to' field in TRX_PROPOSAL should be zero address'')))
      else if \<not> isVal (txFrom tx) then Ret (Some ErrNoRight)
      else (case txPayload tx of
        Some (TrxPayloadProposal pp) \<Rightarrow>
          if props (gview c (Exec ctx)) (TxHash ctx) \<noteq> None then Ret (Some ErrDuplicatedKey)
          else if ppStartVotingHeight pp \<le> height then Ret (Some ErrInvalidTrxPayloadParams)
          else if ppVotingPeriodBlocks pp > MaxVotingPeriodBlocks g \<or> ppVotingPeriodBlocks pp < MinVotingPeriodBlocks g
          then Ret (Some ErrInvalidTrxPayloadParams)
          else (case (if ppOptType pp = PROPOSAL_GOVPARAMS then check_options J emptyGovParams (ppOptions pp) else Ret None) of
            Panic \<Rightarrow> Panic
          | Ret (Some e) \<Rightarrow> Ret (Some e)
          | Ret None \<Rightarrow> Ret (check_heights g pp))
      | _ \<Rightarrow> Ret (Some ErrInvalidTrxPayloadType)))"

definition validateVoting :: "GovCtrler \<Rightarrow> int \<Rightarrow> TrxContext \<Rightarrow> xerror option" where
  "validateVoting c height ctx =
     (let tx = Tx ctx in
      if bytes_Compare (opt_bytes (txTo tx)) ZeroAddress \<noteq> 0
      then Some (Wrap ErrInvalidTrxPayloadParams (EFmt ''wrong address: the 'to' field in TRX_VOTING should be zero address''))
      else (case txPayload tx of
        Some (TrxPayloadVoting txhash choice) \<Rightarrow>
          (case props (gview c (Exec ctx)) txhash of
             None \<Rightarrow> Some ErrNotFoundResult
           | Some p \<Rightarrow>
               if \<not> IsVoter p (txFrom tx) then Some ErrNoRight
               else if choice < 0 \<or> choice \<ge> i32 (int (length (Options p))) then Some ErrInvalidTrxPayloadParams
               else if height > EndVotingHeight p \<or> height < StartVotingHeight p then Some ErrNotVotingPeriod
               else None)
      | _ \<Rightarrow> Some ErrInvalidTrxPayloadType))"

definition GovCtrler_ValidateTrx :: "gov_json \<Rightarrow> (addr \<Rightarrow> bool) \<Rightarrow> GovCtrler \<Rightarrow> int \<Rightarrow> TrxContext \<Rightarrow> xerror option go" where
  "GovCtrler_ValidateTrx J isVal c height ctx =
     (if txType (Tx ctx) = TRX_PROPOSAL then validateProposal J isVal c height ctx
      else if txType (Tx ctx) = TRX_VOTING then Ret (validateVoting c height ctx)
      else Ret (Some ErrUnknownTrxType))"

section \<open>Execution\<close>

text \<open>\<open>vals\<close> is the result of \<open>VPowerHandler.Validators\<close>: the validators with their power, and the total.\<close>

definition new_proposal :: "proposal_payload \<Rightarrow> bytes \<Rightarrow> (addr \<times> int) list \<times> int \<Rightarrow> GovProposal" where
  "new_proposal pp txhash vals =
     foldl AddOption
       (foldl (\<lambda>p (a, pw). addVoter p a pw)
         (NewGovProposal (ppOptType pp) txhash (ppStartVotingHeight pp) (ppVotingPeriodBlocks pp) (snd vals) (ppApplyingHeight pp))
         (fst vals))
       (ppOptions pp)"

definition execProposing :: "(addr \<times> int) list \<times> int \<Rightarrow> GovCtrler \<Rightarrow> TrxContext \<Rightarrow> (GovCtrler \<times> xerror option) go" where
  "execProposing vals c ctx = (case txPayload (Tx ctx) of
     Some (TrxPayloadProposal pp) \<Rightarrow>
       (let st = gview c (Exec ctx); p = new_proposal pp (TxHash ctx) vals in
        Ret (set_gview c (Exec ctx) (st\<lparr>props := (props st)(prTxHash p \<mapsto> p)\<rparr>), None))
   | _ \<Rightarrow> Panic)"

definition execVoting :: "GovCtrler \<Rightarrow> TrxContext \<Rightarrow> (GovCtrler \<times> xerror option) go" where
  "execVoting c ctx = (case txPayload (Tx ctx) of
     Some (TrxPayloadVoting txhash choice) \<Rightarrow>
       (let st = gview c (Exec ctx) in
        case props st txhash of
          None \<Rightarrow> Ret (c, Some ErrNotFoundResult)
        | Some p \<Rightarrow> (case DoVote p (txFrom (Tx ctx)) choice of
            Panic \<Rightarrow> Panic
          | Ret (p1, Some e) \<Rightarrow> Ret (c, Some e)
          | Ret (p1, None) \<Rightarrow> Ret (set_gview c (Exec ctx) (st\<lparr>props := (props st)(prTxHash p1 \<mapsto> p1)\<rparr>), None)))
   | _ \<Rightarrow> Panic)"

definition GovCtrler_ExecuteTrx ::
  "(addr \<times> int) list \<times> int \<Rightarrow> GovCtrler \<Rightarrow> TrxContext \<Rightarrow> (GovCtrler \<times> xerror option) go" where
  "GovCtrler_ExecuteTrx vals c ctx =
     (if txType (Tx ctx) = TRX_PROPOSAL then execProposing vals c ctx
      else if txType (Tx ctx) = TRX_VOTING then execVoting c ctx
      else Ret (c, Some ErrUnknownTrxType))"

section \<open>Blocks\<close>

text \<open>
  The slashing of a validator in every open proposal: \<open>Seek\<close> visits decoded copies, which are stored
  when the visit ends.
\<close>

fun slash_scan :: "gstate \<Rightarrow> addr \<Rightarrow> int \<Rightarrow> bytes list \<Rightarrow> (GovProposal list \<times> int) go" where
  "slash_scan st a rate [] = Ret ([], 0)"
| "slash_scan st a rate (k # ks) =
     (case props st k of
        None \<Rightarrow> slash_scan st a rate ks
      | Some p \<Rightarrow>
          if findVoter p a = None then slash_scan st a rate ks
          else (case DoSlash p a rate of
            Panic \<Rightarrow> Panic
          | Ret (p1, r) \<Rightarrow> (case slash_scan st a rate ks of
              Panic \<Rightarrow> Panic
            | Ret (ps, s) \<Rightarrow> Ret (p1 # ps, i64 ((case r of Inr x \<Rightarrow> x | Inl _ \<Rightarrow> 0) + s)))))"

definition put_props :: "gstate \<Rightarrow> GovProposal list \<Rightarrow> gstate" where
  "put_props st ps = st\<lparr>props := fold (\<lambda>p m. m(prTxHash p \<mapsto> p)) ps (props st)\<rparr>"

definition gov_doSlash :: "GovCtrler \<Rightarrow> addr \<Rightarrow> (GovCtrler \<times> int res) go" where
  "gov_doSlash c a =
     (case slash_scan (gexec c) a (SlashRate (govParams c)) (prop_keys (props (gexec c))) of
        Panic \<Rightarrow> Panic
      | Ret (ps, s) \<Rightarrow> Ret (c\<lparr>gexec := put_props (gexec c) ps\<rparr>, Inr s))"

fun gov_punish :: "GovCtrler \<Rightarrow> Evidence list \<Rightarrow> GovCtrler go" where
  "gov_punish c [] = Ret c"
| "gov_punish c (evi # es) = (case gov_doSlash c (evAddress evi) of
     Panic \<Rightarrow> Panic | Ret (c1, _) \<Rightarrow> gov_punish c1 es)"

definition GovCtrler_BeginBlock :: "BlockContext \<Rightarrow> GovCtrler \<Rightarrow> GovCtrler go" where
  "GovCtrler_BeginBlock b c = gov_punish c (biByzantine (blockInfo b))"

text \<open>The proposals whose voting is over: those with a major option, to freeze, and the others.\<close>

fun freeze_scan :: "gstate \<Rightarrow> int \<Rightarrow> bytes list \<Rightarrow> ((bytes \<times> GovProposal) list \<times> bytes list) go" where
  "freeze_scan st height [] = Ret ([], [])"
| "freeze_scan st height (k # ks) =
     (case props st k of
        None \<Rightarrow> freeze_scan st height ks
      | Some p \<Rightarrow>
          if EndVotingHeight p < height then
            (case updateMajorOption p of
               Panic \<Rightarrow> Panic
             | Ret p1 \<Rightarrow> (case freeze_scan st height ks of
                 Panic \<Rightarrow> Panic
               | Ret (fs, rs) \<Rightarrow> if MajorOption p1 \<noteq> None then Ret ((k, p1) # fs, rs) else Ret (fs, k # rs)))
          else freeze_scan st height ks)"

definition freezeProposals :: "gstate \<Rightarrow> int \<Rightarrow> gstate go" where
  "freezeProposals st height =
     (case freeze_scan st height (prop_keys (props st)) of
        Panic \<Rightarrow> Panic
      | Ret (fs, rs) \<Rightarrow> Ret (st\<lparr>
          fprops := fold (\<lambda>(_, p) m. m(prTxHash p \<mapsto> p)) fs (fprops st),
          props := fold (\<lambda>k m. m(k := None)) (map fst fs @ rs) (props st)\<rparr>))"

fun apply_scan ::
  "gov_json \<Rightarrow> GovParams \<Rightarrow> gstate \<Rightarrow> int \<Rightarrow> bytes list \<Rightarrow> GovParams option \<Rightarrow> (GovParams option \<times> bytes list \<times> xerror option) go" where
  "apply_scan J g st height [] new = Ret (new, [], None)"
| "apply_scan J g st height (k # ks) new =
     (case fprops st k of
        None \<Rightarrow> apply_scan J g st height ks new
      | Some p \<Rightarrow>
          if ApplyHeight p \<le> height then
            (if PropType p = PROPOSAL_GOVPARAMS then
               (case MajorOption p of
                  None \<Rightarrow> Panic
                | Some x \<Rightarrow> (case GovParams_UnmarshalJSON J emptyGovParams (opOption x) of
                    Panic \<Rightarrow> Panic
                  | Ret (Inl e) \<Rightarrow> Ret (new, [], From (Some e))
                  | Ret (Inr g1) \<Rightarrow> (case apply_scan J g st height ks (Some (MergeGovParams g g1)) of
                      Panic \<Rightarrow> Panic | Ret (n, ap, e) \<Rightarrow> Ret (n, k # ap, e))))
             else (case apply_scan J g st height ks new of
                 Panic \<Rightarrow> Panic | Ret (n, ap, e) \<Rightarrow> Ret (n, k # ap, e)))
          else apply_scan J g st height ks new)"

definition applyProposals :: "gov_json \<Rightarrow> GovCtrler \<Rightarrow> int \<Rightarrow> (GovCtrler \<times> xerror option) go" where
  "applyProposals J c height =
     (let st = gexec c in
      case apply_scan J (govParams c) st height (prop_keys (fprops st)) (newGovParams c) of
        Panic \<Rightarrow> Panic
      | Ret (new, applied, e) \<Rightarrow> Ret (c\<lparr>newGovParams := new,
          gexec := st\<lparr>gitem := (case new of None \<Rightarrow> gitem st | Some g \<Rightarrow> Some g),
                      fprops := fold (\<lambda>k m. m(k := None)) applied (fprops st)\<rparr>\<rparr>, e))"

definition GovCtrler_EndBlock :: "gov_json \<Rightarrow> BlockContext \<Rightarrow> GovCtrler \<Rightarrow> (GovCtrler \<times> xerror option) go" where
  "GovCtrler_EndBlock J b c =
     (case freezeProposals (gexec c) (Height b) of
        Panic \<Rightarrow> Panic
      | Ret st \<Rightarrow> applyProposals J (c\<lparr>gexec := st\<rparr>) (Height b))"

definition GovCtrler_Commit :: "GovCtrler \<Rightarrow> GovCtrler" where
  "GovCtrler_Commit c = (let c1 = c\<lparr>gcheck := gexec c\<rparr> in
     case newGovParams c of None \<Rightarrow> c1 | Some g \<Rightarrow> c1\<lparr>govParams := g, newGovParams := None\<rparr>)"

end
