(* ===== verification/Gov_Inv.thy ===== *)
theory Gov_Inv
  imports Gov_Ctrler
begin

text \<open>
  Correctness of governance: the tallies of open proposals are what the voters chose, the block hooks
  never fail, and the parameters change only to an option that two thirds of the power voted for.
\<close>

section \<open>Invariant\<close>

definition parses :: "gov_json \<Rightarrow> bytes \<Rightarrow> bool" where
  "parses J b \<longleftrightarrow> (\<exists>g. GovParams_UnmarshalJSON J emptyGovParams b = Ret (Inr g))"

text \<open>Whether the JSON library can fill in a structure does not depend on what the structure held.\<close>

definition json_uniform :: "gov_json \<Rightarrow> bool" where
  "json_uniform J \<longleftrightarrow> (\<forall>g g' es x. jxFill J g es = Inr x \<longrightarrow> (\<exists>y. jxFill J g' es = Inr y))"

definition open_ok :: "gov_json \<Rightarrow> bytes \<Rightarrow> GovProposal \<Rightarrow> bool" where
  "open_ok J h p \<longleftrightarrow> prTxHash p = h \<and> prop_ok p \<and> MajorOption p = None \<and>
     (PropType p = PROPOSAL_GOVPARAMS \<longrightarrow> (\<forall>b \<in> set (map opOption (Options p)). parses J b))"

definition frozen_ok :: "gov_json \<Rightarrow> bytes \<Rightarrow> GovProposal \<Rightarrow> bool" where
  "frozen_ok J h p \<longleftrightarrow> (\<exists>p0. open_ok J h p0 \<and> updateMajorOption p0 = Ret p) \<and> MajorOption p \<noteq> None"

definition ginv :: "gov_json \<Rightarrow> gstate \<Rightarrow> bool" where
  "ginv J st \<longleftrightarrow> finite (dom (props st)) \<and> finite (dom (fprops st)) \<and>
     (\<forall>h p. props st h = Some p \<longrightarrow> open_ok J h p) \<and> (\<forall>h p. fprops st h = Some p \<longrightarrow> frozen_ok J h p)"

text \<open>A change of the parameters from \<open>g\<close> to \<open>g'\<close> that a vote decided.\<close>

definition voted :: "gov_json \<Rightarrow> GovParams \<Rightarrow> GovParams \<Rightarrow> bool" where
  "voted J g g' \<longleftrightarrow> (\<exists>p i g1. prop_ok p \<and> PropType p = PROPOSAL_GOVPARAMS \<and> i < length (Options p) \<and>
     2 * powsum (Voters p) div 3 \<le> tally (Voters p) i \<and>
     GovParams_UnmarshalJSON J emptyGovParams (opOption (Options p ! i)) = Ret (Inr g1) \<and> g' = MergeGovParams g g1)"

definition gov_ok :: "gov_json \<Rightarrow> GovCtrler \<Rightarrow> bool" where
  "gov_ok J c \<longleftrightarrow> ginv J (gexec c) \<and> (\<forall>g. newGovParams c = Some g \<longrightarrow> voted J (govParams c) g)"

lemma unmarshal_parses:
  assumes "json_uniform J" "GovParams_UnmarshalJSON J g b = Ret (Inr g1)"
  shows "parses J b"
proof -
  obtain es es1 where e: "jxMap J b = Inr es" "conv_entries J es = Ret (Inr es1)" "jxFill J g es1 = Inr g1"
    using assms(2) by (auto simp: GovParams_UnmarshalJSON_def split: sum.splits go.splits)
  obtain y where "jxFill J emptyGovParams es1 = Inr y" using assms(1) e(3) unfolding json_uniform_def by blast
  then show ?thesis using e by (simp add: parses_def GovParams_UnmarshalJSON_def)
qed

lemma check_options_parses:
  assumes "json_uniform J" "check_options J g bs = Ret None" "b \<in> set bs"
  shows "parses J b"
  using assms(2,3)
proof (induction bs arbitrary: g)
  case (Cons b' bs)
  obtain g1 where g1: "GovParams_UnmarshalJSON J g b' = Ret (Inr g1)" "check_options J g1 bs = Ret None"
    using Cons.prems(1) by (auto split: go.splits sum.splits)
  then show ?case using Cons.IH[OF g1(2)] Cons.prems(2) unmarshal_parses[OF assms(1) g1(1)] by auto
qed simp

section \<open>New proposals and votes\<close>

definition vals_ok :: "(addr \<times> int) list \<times> int \<Rightarrow> bool" where
  "vals_ok vals \<longleftrightarrow> distinct (map fst (fst vals)) \<and> (\<forall>v \<in> set (fst vals). 0 \<le> snd v) \<and>
     snd vals = sum_list (map snd (fst vals)) \<and> snd vals \<le> max_power"

lemma foldl_addVoter:
  assumes "distinct (map fst vs)" "\<forall>v \<in> set (Voters p). voAddress v \<notin> fst ` set vs"
  shows "foldl (\<lambda>p (a, pw). addVoter p a pw) p vs =
    p\<lparr>Voters := Voters p @ map (\<lambda>(a, pw). \<lparr>voAddress = a, voPower = pw, voChoice = NOT_CHOICE\<rparr>) vs\<rparr>"
  using assms
proof (induction vs arbitrary: p)
  case (Cons v vs)
  obtain a pw where v: "v = (a, pw)" by (cases v)
  have "findVoter p a = None" using Cons.prems(2) v by (auto simp: findVoter_def find_None_iff bytes_Equal_def)
  then have "addVoter p a pw = p\<lparr>Voters := Voters p @ [\<lparr>voAddress = a, voPower = pw, voChoice = NOT_CHOICE\<rparr>]\<rparr>"
    by (simp add: addVoter_def)
  moreover have "\<forall>w \<in> set (Voters p @ [\<lparr>voAddress = a, voPower = pw, voChoice = NOT_CHOICE\<rparr>]). voAddress w \<notin> fst ` set vs"
    using Cons.prems v by (auto simp: image_iff)
  ultimately show ?case using Cons.IH[of "addVoter p a pw"] Cons.prems(1) v by simp
qed simp

lemma foldl_AddOption: "foldl AddOption p bs = p\<lparr>Options := Options p @ NewVoteOptions bs\<rparr>"
  by (induction bs arbitrary: p) (simp_all add: AddOption_def NewVoteOptions_def)

lemma new_proposal_ok:
  assumes v: "vals_ok vals" and o: "ppOptions pp \<noteq> []"
    and j: "ppOptType pp = PROPOSAL_GOVPARAMS \<Longrightarrow> \<forall>b \<in> set (ppOptions pp). parses J b"
  shows "open_ok J h (new_proposal pp h vals)"
proof -
  let ?vs = "map (\<lambda>(a, pw). \<lparr>voAddress = a, voPower = pw, voChoice = NOT_CHOICE\<rparr>) (fst vals)"
  have p: "new_proposal pp h vals = (NewGovProposal (ppOptType pp) h (ppStartVotingHeight pp) (ppVotingPeriodBlocks pp)
      (snd vals) (ppApplyingHeight pp))\<lparr>Voters := ?vs, Options := NewVoteOptions (ppOptions pp)\<rparr>"
    unfolding new_proposal_def using v
    by (subst foldl_addVoter) (simp_all add: vals_ok_def NewGovProposal_def foldl_AddOption)
  have t: "tally (map (\<lambda>(a, pw). \<lparr>voAddress = a, voPower = pw, voChoice = NOT_CHOICE\<rparr>) vs) i = 0" for vs i
    by (induction vs) (auto simp: NOT_CHOICE_def)
  have s: "powsum ?vs = snd vals" using v by (simp add: vals_ok_def powsum_def comp_def case_prod_beta)
  have "0 \<le> snd vals" using v unfolding vals_ok_def by (metis (mono_tags, lifting) imageE list.set_map sum_list_nonneg)
  then have m: "i64 (snd vals * 2) sdiv 3 = 2 * snd vals div 3" using v by (intro powsum_major) (auto simp: vals_ok_def)
  have "voters_ok (length (ppOptions pp)) ?vs"
    using v s by (auto simp: voters_ok_def pow_ok_def vals_ok_def NOT_CHOICE_def comp_def case_prod_beta)
  then have "prop_ok (new_proposal pp h vals)"
    unfolding p prop_ok_iff using o s m t by (simp add: NewGovProposal_def NewVoteOptions_def tally_ok_def)
  then show ?thesis using j unfolding p by (simp add: open_ok_def NewGovProposal_def NewVoteOptions_def comp_def)
qed

lemma i32_le: "0 \<le> n \<Longrightarrow> i32 n \<le> n"
  using zmod_le_nonneg_dividend[of "n + 2 ^ 31" "2 ^ 32"] by (simp add: i32_def)

lemma ginvD:
  assumes "ginv J st"
  shows "finite (dom (props st))" "finite (dom (fprops st))" "props st h = Some p \<Longrightarrow> open_ok J h p"
    "fprops st h = Some p \<Longrightarrow> frozen_ok J h p"
  using assms by (auto simp: ginv_def)

lemma ginv_put: "ginv J st \<Longrightarrow> open_ok J h p \<Longrightarrow> ginv J (st\<lparr>props := (props st)(h \<mapsto> p)\<rparr>)"
  by (auto simp: ginv_def)

lemma propose_step:
  assumes c: "gov_ok J c" and J: "json_uniform J" and v: "validateProposal J isVal c h ctx = Ret None"
    and ex: "Exec ctx" and vals: "vals_ok vals"
  shows "\<exists>c' p. execProposing vals c ctx = Ret (c', None) \<and> gov_ok J c' \<and> govParams c' = govParams c \<and>
    props (gexec c') = (props (gexec c))(TxHash ctx \<mapsto> p) \<and> props (gexec c) (TxHash ctx) = None \<and>
    TotalVotingPower p = snd vals \<and> Voters p = map (\<lambda>(a, pw). \<lparr>voAddress = a, voPower = pw, voChoice = NOT_CHOICE\<rparr>) (fst vals)"
proof -
  obtain pp where pp: "txPayload (Tx ctx) = Some (TrxPayloadProposal pp)" "props (gexec c) (TxHash ctx) = None"
      "ppOptions pp \<noteq> []" "ppOptType pp = PROPOSAL_GOVPARAMS \<Longrightarrow> check_options J emptyGovParams (ppOptions pp) = Ret None"
    using v ex by (auto simp: validateProposal_def check_heights_def gview_def Let_def
        split: if_splits option.splits TrxPayload.splits go.splits)
  let ?p = "new_proposal pp (TxHash ctx) vals"
  have ok: "open_ok J (TxHash ctx) ?p"
    using pp(3,4) check_options_parses[OF J] by (intro new_proposal_ok[OF vals]) blast+
  have h: "prTxHash ?p = TxHash ctx" using ok by (simp add: open_ok_def)
  define c' where "c' = c\<lparr>gexec := (gexec c)\<lparr>props := (props (gexec c))(TxHash ctx \<mapsto> ?p)\<rparr>\<rparr>"
  have "execProposing vals c ctx = Ret (c', None)"
    using ex by (simp add: execProposing_def pp(1) h gview_def set_gview_def c'_def Let_def)
  moreover have "gov_ok J c'" using c ginv_put[OF _ ok] by (simp add: gov_ok_def c'_def)
  moreover have "TotalVotingPower ?p = snd vals" "Voters ?p = map (\<lambda>(a, pw). \<lparr>voAddress = a, voPower = pw, voChoice = NOT_CHOICE\<rparr>) (fst vals)"
    using vals by (simp_all add: new_proposal_def foldl_addVoter vals_ok_def NewGovProposal_def foldl_AddOption)
  ultimately show ?thesis using pp(2) by (intro exI[of _ c'] exI[of _ ?p]) (simp add: c'_def)
qed

lemma vote_step:
  assumes c: "gov_ok J c" and v: "validateVoting c h ctx = None" and ex: "Exec ctx"
  shows "\<exists>c' k choice p w p'. txPayload (Tx ctx) = Some (TrxPayloadVoting k choice) \<and>
    execVoting c ctx = Ret (c', None) \<and> gov_ok J c' \<and> govParams c' = govParams c \<and> props (gexec c) k = Some p \<and>
    findVoter p (txFrom (Tx ctx)) = Some w \<and> props (gexec c') = (props (gexec c))(k \<mapsto> p') \<and>
    length (Options p') = length (Options p) \<and> Voters p' = set_voter (Voters p) (txFrom (Tx ctx)) (w\<lparr>voChoice := choice\<rparr>)"
proof -
  let ?a = "txFrom (Tx ctx)"
  obtain k choice p where p: "txPayload (Tx ctx) = Some (TrxPayloadVoting k choice)" "props (gexec c) k = Some p"
      "IsVoter p ?a" "0 \<le> choice" "choice < i32 (int (length (Options p)))"
    using v ex by (auto simp: validateVoting_def gview_def Let_def split: if_splits option.splits TrxPayload.splits)
  have ch: "choice < int (length (Options p))" using p(5) i32_le[of "int (length (Options p))"] by linarith
  obtain w where w: "findVoter p ?a = Some w"
    using p(3) by (auto simp: IsVoter_def findVoter_def list_ex_iff find_None_iff) (metis find_None_iff not_None_eq)
  have ok: "open_ok J k p" using c p(2) ginvD(3) by (auto simp: gov_ok_def)
  let ?vs = "set_voter (Voters p) ?a (w\<lparr>voChoice := choice\<rparr>)"
  obtain os where D: "DoVote p ?a choice = Ret (p\<lparr>Options := os, Voters := ?vs\<rparr>, None)"
      "map opOption os = map opOption (Options p)" "prop_ok (p\<lparr>Options := os, Voters := ?vs\<rparr>)"
    using DoVote_spec[OF _ w p(4) ch] ok unfolding open_ok_def by blast
  let ?p = "p\<lparr>Options := os, Voters := ?vs\<rparr>"
  have ok': "open_ok J k ?p" using ok D(2,3) by (simp add: open_ok_def)
  then have h: "prTxHash ?p = k" by (simp add: open_ok_def)
  define c' where "c' = c\<lparr>gexec := (gexec c)\<lparr>props := (props (gexec c))(k \<mapsto> ?p)\<rparr>\<rparr>"
  have "execVoting c ctx = Ret (c', None)"
    using ex h p(2) D(1) by (simp add: execVoting_def p(1) gview_def set_gview_def c'_def Let_def)
  moreover have "gov_ok J c'" using c ginv_put[OF _ ok'] by (simp add: gov_ok_def c'_def)
  ultimately show ?thesis using p w map_eq_imp_length_eq[OF D(2)]
    by (intro exI[of _ c'] exI[of _ k] exI[of _ choice] exI[of _ p] exI[of _ w] exI[of _ ?p]) (simp add: c'_def)
qed

section \<open>Block hooks\<close>

lemma slash_scan_ok:
  assumes st: "ginv J st" and r: "0 \<le> rate" "rate \<le> 100"
  shows "\<exists>ps s. slash_scan st a rate ks = Ret (ps, s) \<and> (\<forall>p \<in> set ps. open_ok J (prTxHash p) p)"
proof (induction ks)
  case (Cons k ks)
  obtain ps s where I: "slash_scan st a rate ks = Ret (ps, s)" "\<forall>p \<in> set ps. open_ok J (prTxHash p) p" using Cons by blast
  show ?case
  proof (cases "props st k")
    case (Some p)
    show ?thesis
    proof (cases "findVoter p a")
      case (Some v)
      have ok: "open_ok J k p" using ginvD(3)[OF st \<open>props st k = Some p\<close>] .
      then obtain p' where D: "DoSlash p a rate = Ret (p', Inr (slash_amount (voPower v) rate))" "prop_ok p'"
          "prTxHash p' = prTxHash p" "PropType p' = PropType p" "MajorOption p' = MajorOption p"
          "map opOption (Options p') = map opOption (Options p)"
        using DoSlash_spec[OF _ Some r] unfolding open_ok_def by blast
      have "open_ok J (prTxHash p') p'" using ok D unfolding open_ok_def by simp
      then show ?thesis using I D(1) Some \<open>props st k = Some p\<close> by auto
    qed (use I Some in auto)
  qed (use I in auto)
qed simp

lemma put_props_ok:
  assumes "ginv J st" "\<forall>p \<in> set ps. open_ok J (prTxHash p) p"
  shows "ginv J (put_props st ps)"
proof -
  have "ginv J (st\<lparr>props := fold (\<lambda>p m. m(prTxHash p \<mapsto> p)) ps (props st)\<rparr>)" using assms
  proof (induction ps arbitrary: st)
    case (Cons p ps)
    then show ?case using Cons.IH[OF ginv_put[of J st "prTxHash p" p]] by simp
  qed simp
  then show ?thesis by (simp add: put_props_def)
qed

lemma gov_punish_ok:
  assumes "gov_ok J c" "0 \<le> SlashRate (govParams c)" "SlashRate (govParams c) \<le> 100"
  shows "\<exists>c'. gov_punish c es = Ret c' \<and> gov_ok J c' \<and> govParams c' = govParams c \<and> newGovParams c' = newGovParams c"
  using assms
proof (induction es arbitrary: c)
  case (Cons e es)
  have g: "ginv J (gexec c)" using Cons.prems(1) by (simp add: gov_ok_def)
  obtain ps s where S: "slash_scan (gexec c) (evAddress e) (SlashRate (govParams c)) (prop_keys (props (gexec c))) = Ret (ps, s)"
      "\<forall>p \<in> set ps. open_ok J (prTxHash p) p"
    using slash_scan_ok[OF g Cons.prems(2,3)] by blast
  let ?c = "c\<lparr>gexec := put_props (gexec c) ps\<rparr>"
  have "gov_ok J ?c" using Cons.prems(1) put_props_ok[OF g S(2)] by (simp add: gov_ok_def)
  from Cons.IH[OF this] Cons.prems show ?case by (simp add: gov_doSlash_def S(1))
qed simp

text \<open>The effect of freezing: every proposal whose voting is over leaves the open ones.\<close>

definition major :: "GovProposal \<Rightarrow> GovProposal" where
  "major p = (case updateMajorOption p of Panic \<Rightarrow> p | Ret q \<Rightarrow> q)"

definition over :: "int \<Rightarrow> gstate \<Rightarrow> bytes \<Rightarrow> bool" where
  "over height st k = (case props st k of None \<Rightarrow> False | Some p \<Rightarrow> EndVotingHeight p < height)"

definition decided :: "int \<Rightarrow> gstate \<Rightarrow> bytes \<Rightarrow> bool" where
  "decided height st k \<longleftrightarrow> over height st k \<and> MajorOption (major (the (props st k))) \<noteq> None"

lemma major_eq: "open_ok J h p \<Longrightarrow> updateMajorOption p = Ret (major p)"
  using updateMajorOption_spec[of p] by (auto simp: major_def open_ok_def prop_ok_def split: go.splits)

lemma freeze_scan_eq:
  assumes "ginv J st"
  shows "freeze_scan st height ks = Ret (map (\<lambda>k. (k, major (the (props st k)))) (filter (decided height st) ks),
    filter (\<lambda>k. over height st k \<and> \<not> decided height st k) ks)"
proof (induction ks)
  case (Cons k ks)
  show ?case
  proof (cases "props st k")
    case None
    then show ?thesis using Cons by (simp add: decided_def over_def)
  next
    case (Some p)
    then show ?thesis using Cons major_eq[OF ginvD(3)[OF assms Some]] by (simp add: decided_def over_def)
  qed
qed simp

lemma fold_del: "fold (\<lambda>k m. m(k := None)) ks m = (\<lambda>k. if k \<in> set ks then None else m k)"
  by (induction ks arbitrary: m) (auto simp: fun_eq_iff)

lemma fold_put:
  assumes "\<forall>k \<in> set ks. prTxHash (f k) = k"
  shows "fold (\<lambda>(_, p) m. m(prTxHash p \<mapsto> p)) (map (\<lambda>k. (k, f k)) ks) m = (\<lambda>k. if k \<in> set ks then Some (f k) else m k)"
  using assms by (induction ks arbitrary: m) (auto simp: fun_eq_iff)

lemma major_keeps: "open_ok J h p \<Longrightarrow> prTxHash (major p) = h \<and> PropType (major p) = PropType p \<and>
    ApplyHeight (major p) = ApplyHeight p"
  using updateMajorOption_spec[of p] by (auto simp: major_def open_ok_def prop_ok_def split: go.splits)

lemma freezeProposals_eq:
  assumes st: "ginv J st"
  shows "freezeProposals st height = Ret (st\<lparr>
    fprops := (\<lambda>k. if decided height st k then Some (major (the (props st k))) else fprops st k),
    props := (\<lambda>k. if over height st k then None else props st k)\<rparr>)"
proof -
  let ?D = "filter (decided height st) (prop_keys (props st))"
  have keys: "set (prop_keys (props st)) = dom (props st)" using ginvD(1)[OF st] by (simp add: prop_keys_def)
  have d: "k \<in> set ?D \<longleftrightarrow> decided height st k" for k
    by (auto simp: keys decided_def over_def split: option.splits)
  have o: "k \<in> set (filter (\<lambda>k. over height st k \<and> \<not> decided height st k) (prop_keys (props st))) \<longleftrightarrow>
      over height st k \<and> \<not> decided height st k" for k
    by (auto simp: keys over_def split: option.splits)
  have h: "prTxHash (major (the (props st k))) = k" if "k \<in> set ?D" for k
    using that d[of k] major_keeps ginvD(3)[OF st, of k] by (auto simp: decided_def over_def split: option.splits)
  have "k \<in> set (map fst (map (\<lambda>k. (k, major (the (props st k)))) ?D) @
      filter (\<lambda>k. over height st k \<and> \<not> decided height st k) (prop_keys (props st))) \<longleftrightarrow> over height st k" for k
    unfolding set_append Un_iff o by (simp add: comp_def d del: set_filter) (auto simp: decided_def)
  then show ?thesis
    unfolding freezeProposals_def freeze_scan_eq[OF st] go.case prod.case fold_del
    by (subst fold_put) (use h d in simp_all)
qed

lemma frozen_voted:
  assumes f: "frozen_ok J k p" and t: "PropType p = PROPOSAL_GOVPARAMS" and m: "MajorOption p = Some x"
  shows "parses J (opOption x)"
    "GovParams_UnmarshalJSON J emptyGovParams (opOption x) = Ret (Inr g1) \<Longrightarrow> voted J g (MergeGovParams g g1)"
proof -
  obtain p0 where p0: "open_ok J k p0" "updateMajorOption p0 = Ret p" using f by (auto simp: frozen_ok_def)
  have ok: "prop_ok p0" "MajorOption p0 = None" "PropType p0 = PROPOSAL_GOVPARAMS"
    using p0 t major_keeps[OF p0(1)] by (auto simp: open_ok_def major_def)
  have x: "x \<in> set (Options p0)" "MajorityPower p0 \<le> opVotes x"
    using updateMajorOption_spec[OF prop_okD(2)[OF ok(1)]] p0(2) m ok(2) by (auto split: if_splits)
  then show "parses J (opOption x)" using p0(1) ok(3) by (simp add: open_ok_def)
  obtain i where i: "i < length (Options p0)" "Options p0 ! i = x" using x(1) by (auto simp: in_set_conv_nth)
  have "2 * powsum (Voters p0) div 3 \<le> tally (Voters p0) i"
    using x(2) prop_okD(5)[OF ok(1) i(1)] prop_okD(6,8)[OF ok(1)] i(2) by simp
  then show "GovParams_UnmarshalJSON J emptyGovParams (opOption x) = Ret (Inr g1) \<Longrightarrow> voted J g (MergeGovParams g g1)"
    unfolding voted_def using ok i by blast
qed

definition due :: "int \<Rightarrow> gstate \<Rightarrow> bytes \<Rightarrow> bool" where
  "due height st k = (case fprops st k of None \<Rightarrow> False | Some p \<Rightarrow> ApplyHeight p \<le> height)"

lemma apply_scan_ok:
  assumes st: "ginv J st"
  shows "(\<forall>g'. new = Some g' \<longrightarrow> voted J g g') \<Longrightarrow>
    \<exists>new'. apply_scan J g st height ks new = Ret (new', filter (due height st) ks, None) \<and>
      (\<forall>g'. new' = Some g' \<longrightarrow> voted J g g')"
proof (induction ks arbitrary: new)
  case (Cons k ks)
  show ?case
  proof (cases "fprops st k")
    case None
    then show ?thesis using Cons by (simp add: due_def)
  next
    case (Some p)
    have f: "frozen_ok J k p" using ginvD(4)[OF st Some] .
    then obtain x where x: "MajorOption p = Some x" by (auto simp: frozen_ok_def)
    show ?thesis
    proof (cases "ApplyHeight p \<le> height \<and> PropType p = PROPOSAL_GOVPARAMS")
      case True
      then obtain g1 where g1: "GovParams_UnmarshalJSON J emptyGovParams (opOption x) = Ret (Inr g1)"
        using frozen_voted(1)[OF f _ x] by (auto simp: parses_def)
      have "voted J g (MergeGovParams g g1)" using frozen_voted(2)[OF f _ x g1] True by simp
      with Cons.IH[of "Some (MergeGovParams g g1)"] show ?thesis using True Some x g1 by (auto simp: due_def)
    next
      case False
      with Cons.IH[OF Cons.prems] show ?thesis using Some by (auto simp: due_def)
    qed
  qed
qed simp

lemma EndBlock_ok:
  assumes c: "gov_ok J c"
  shows "\<exists>c'. GovCtrler_EndBlock J b c = Ret (c', None) \<and> gov_ok J c' \<and> govParams c' = govParams c \<and>
    (\<forall>k. props (gexec c') k = (if over (Height b) (gexec c) k then None else props (gexec c) k)) \<and>
    (\<forall>k. fprops (gexec c') k = (let q = (if decided (Height b) (gexec c) k then Some (major (the (props (gexec c) k)))
        else fprops (gexec c) k) in case q of None \<Rightarrow> None | Some p \<Rightarrow> if ApplyHeight p \<le> Height b then None else Some p))"
proof -
  let ?st = "gexec c" let ?h = "Height b"
  define st1 where "st1 = ?st\<lparr>fprops := (\<lambda>k. if decided ?h ?st k then Some (major (the (props ?st k))) else fprops ?st k),
    props := (\<lambda>k. if over ?h ?st k then None else props ?st k)\<rparr>"
  have g: "ginv J ?st" using c by (simp add: gov_ok_def)
  have d: "dom (props st1) \<subseteq> dom (props ?st)" "dom (fprops st1) \<subseteq> dom (fprops ?st) \<union> dom (props ?st)"
    by (auto simp: st1_def decided_def over_def split: if_splits option.splits)
  have fz: "frozen_ok J k (major p)" if "props ?st k = Some p" "MajorOption (major p) \<noteq> None" for k p
    using that ginvD(3)[OF g that(1)] major_eq by (auto simp: frozen_ok_def)
  have g1: "ginv J st1"
    unfolding ginv_def
  proof (intro conjI allI impI)
    show "finite (dom (props st1))" "finite (dom (fprops st1))" using d ginvD(1,2)[OF g] finite_subset by blast+
    show "open_ok J k p" if "props st1 k = Some p" for k p
      using that ginvD(3)[OF g] by (auto simp: st1_def split: if_splits)
    show "frozen_ok J k p" if "fprops st1 k = Some p" for k p
      using that ginvD(4)[OF g] fz[of k] by (auto simp: st1_def decided_def over_def split: if_splits option.splits)
  qed
  obtain new where A: "apply_scan J (govParams c) st1 ?h (prop_keys (fprops st1)) (newGovParams c) =
      Ret (new, filter (due ?h st1) (prop_keys (fprops st1)), None)" "\<forall>g'. new = Some g' \<longrightarrow> voted J (govParams c) g'"
    using apply_scan_ok[OF g1, of "newGovParams c" "govParams c" ?h "prop_keys (fprops st1)"] c
    unfolding gov_ok_def by blast
  have due: "k \<in> set (filter (due ?h st1) (prop_keys (fprops st1))) \<longleftrightarrow> due ?h st1 k" for k
    using ginvD(2)[OF g1] by (auto simp: prop_keys_def due_def split: option.splits)
  define st2 where "st2 = st1\<lparr>gitem := (case new of None \<Rightarrow> gitem st1 | Some g \<Rightarrow> Some g),
    fprops := (\<lambda>k. if due ?h st1 k then None else fprops st1 k)\<rparr>"
  let ?c = "c\<lparr>newGovParams := new, gexec := st2\<rparr>"
  have E: "GovCtrler_EndBlock J b c = Ret (?c, None)"
    unfolding GovCtrler_EndBlock_def freezeProposals_eq[OF g] go.case st1_def[symmetric] applyProposals_def
    using A(1) due by (simp add: fold_del st2_def Let_def cong: if_cong)
  have "dom (fprops st2) \<subseteq> dom (fprops st1)" by (auto simp: st2_def split: if_splits)
  then have "finite (dom (fprops st2))" using ginvD(2)[OF g1] finite_subset by blast
  then have "ginv J st2" using g1 unfolding ginv_def by (simp add: st2_def)
  then have "gov_ok J ?c" using A(2) by (simp add: gov_ok_def)
  moreover have "fprops st2 k = (let q = (if decided ?h ?st k then Some (major (the (props ?st k))) else fprops ?st k)
      in case q of None \<Rightarrow> None | Some p \<Rightarrow> if ApplyHeight p \<le> ?h then None else Some p)" for k
    by (auto simp: st2_def due_def st1_def Let_def split: option.splits)
  ultimately show ?thesis using E by (intro exI[of _ ?c]) (simp add: st2_def st1_def)
qed

end
