(* ===== verification/VPower_Ctrler_Inv.thy ===== *)
theory VPower_Ctrler_Inv
  imports VPower_Ctrler
begin

text \<open>
  Conservation of coins by the voting power controller. A coin is in an account, bonded or frozen;
  staking, unstaking, slashing, forced release and refunds move coins between these places and create
  or destroy none. The controller and the accounts together are a step relation over which the
  invariant is carried.
\<close>

section \<open>Balances as integers\<close>

definition wealth :: "AcctCtrler \<Rightarrow> int" where
  "wealth ac = msum (\<lambda>x. uint (Balance x)) (atree ac)"

definition coin :: int where "coin = 10 ^ 18"

definition coins :: "VPowerCtrler \<Rightarrow> AcctCtrler \<Rightarrow> int" where
  "coins c ac = wealth ac + (bonded (vexec c) + frozen_sum (vexec c)) * coin"

lemma wealth_nonneg: "0 \<le> wealth ac"
  by (simp add: wealth_def msum_nonneg)

lemma wealth_upd:
  assumes "finite (dom (atree ac))" "atree ac' = (atree ac)(a \<mapsto> x)"
  shows "wealth ac' = wealth ac - uint (bal ac a) + uint (Balance x)"
proof -
  have "mval (\<lambda>x. uint (Balance x)) (atree ac) a = uint (bal ac a)"
    by (cases "atree ac a") (simp_all add: bal_def)
  then show ?thesis using assms by (simp add: wealth_def msum_update)
qed

lemma bal_le_wealth: "finite (dom (atree ac)) \<Longrightarrow> uint (bal ac a) \<le> wealth ac"
proof (cases "atree ac a")
  case (Some x)
  assume "finite (dom (atree ac))"
  then show ?thesis using msum_ge[of "atree ac" "\<lambda>x. uint (Balance x)" a x] Some
    by (simp add: wealth_def bal_def)
qed (simp add: bal_def wealth_nonneg)

lemma uint_add_small: "uint (x :: uint256) + uint y < 2 ^ 256 \<Longrightarrow> uint (x + y) = uint x + uint y"
  by (simp add: uint_word_ariths)

lemma uint_sub_le: "(y :: uint256) \<le> x \<Longrightarrow> uint (x - y) = uint x - uint y"
  by (simp add: uint_sub_lem word_le_def)

lemma PowerToAmount_uint:
  assumes "0 \<le> p" "p \<le> max_power"
  shows "uint (PowerToAmount p) = p * coin" "0 \<le> Sign (PowerToAmount p)"
proof -
  have p: "p * 10 ^ 18 < 2 ^ 255" "p < 2 ^ 64" using assms by (simp_all add: max_power_def)
  have e: "PowerToAmount p = word_of_int (p * 10 ^ 18)"
    using assms(1) p(2) by (simp add: PowerToAmount_int amountPerPower_val)
  have "p * 10 ^ 18 mod 2 ^ 256 = p * 10 ^ 18" using assms(1) p(1) by (intro mod_pos_pos_trivial) simp_all
  then show u: "uint (PowerToAmount p) = p * coin"
    unfolding e coin_def by (simp only: uint_word_of_int take_bit_eq_mod len_num0 len_bit0 len_num1) simp
  then show "0 \<le> Sign (PowerToAmount p)" using p assms(1) by (simp add: Sign_small coin_def sgn_if)
qed

text \<open>Crediting and debiting an account of the execution state, over integers.\<close>

lemma AddBalance_wealth:
  assumes "ainv ac" "0 \<le> Sign amt" "wealth ac + uint amt < 2 ^ 256"
  shows "\<exists>ac'. AcctCtrler_AddBalance ac a amt True = (ac', None) \<and> ainv ac' \<and> wealth ac' = wealth ac + uint amt \<and>
    dom (atree ac') = insert a (dom (atree ac)) \<and> bal ac' = (bal ac)(a := bal ac a + amt)"
proof -
  obtain ac' x where r: "AcctCtrler_AddBalance ac a amt True = (ac', None)" "ainv ac'" "atree ac' = (atree ac)(a \<mapsto> x)"
      "Balance x = bal ac a + amt"
    using AddBalance_exec[OF assms(1,2)] by blast
  have f: "finite (dom (atree ac))" using assms(1) by (simp add: ainvD)
  have "uint (bal ac a + amt) = uint (bal ac a) + uint amt"
    using bal_le_wealth[OF f, of a] assms(3) by (intro uint_add_small) simp
  then have "wealth ac' = wealth ac + uint amt" using wealth_upd[OF f r(3)] r(4) by simp
  moreover have "bal ac' = (bal ac)(a := bal ac a + amt)" using bal_upd[OF r(3)] r(4) by (auto simp: fun_eq_iff)
  ultimately show ?thesis using r by auto
qed

lemma Reward_wealth:
  assumes "ainv ac" "0 \<le> Sign amt" "wealth ac + uint amt < 2 ^ 256" "atree ac a \<noteq> None"
  shows "\<exists>ac'. AcctCtrler_Reward ac a amt True = (ac', None) \<and> ainv ac' \<and> wealth ac' = wealth ac + uint amt \<and>
    dom (atree ac') = dom (atree ac) \<and> bal ac' = (bal ac)(a := bal ac a + amt)"
proof -
  obtain ac' x where r: "AcctCtrler_Reward ac a amt True = (ac', None)" "ainv ac'" "atree ac' = (atree ac)(a \<mapsto> x)"
      "Balance x = bal ac a + amt"
    using Reward_exec[OF assms(1,2,4)] by blast
  have f: "finite (dom (atree ac))" using assms(1) by (simp add: ainvD)
  have "uint (bal ac a + amt) = uint (bal ac a) + uint amt"
    using bal_le_wealth[OF f, of a] assms(3) by (intro uint_add_small) simp
  then have "wealth ac' = wealth ac + uint amt" using wealth_upd[OF f r(3)] r(4) by simp
  moreover have "bal ac' = (bal ac)(a := bal ac a + amt)" using bal_upd[OF r(3)] r(4) by (auto simp: fun_eq_iff)
  ultimately show ?thesis using r assms(4) by auto
qed

lemma Debit_wealth:
  assumes "ainv ac" "current ac a s" "atree ac a \<noteq> None" "0 \<le> Sign amt" "amt \<le> bal ac a"
  shows "\<exists>x ac'. Account_SubBalance (heap ac s) amt = Inr x \<and> ac' = setAccount (put ac s x) s True \<and> ainv ac' \<and>
    wealth ac' = wealth ac - uint amt \<and> dom (atree ac') = dom (atree ac) \<and> bal ac' = (bal ac)(a := bal ac a - amt) \<and>
    (\<forall>b i. current ac b i \<longrightarrow> current ac' b i)"
proof -
  have b: "Balance (heap ac s) = bal ac a" using current_balance assms(1,2) by blast
  define x where "x = (heap ac s)\<lparr>Balance := bal ac a - amt\<rparr>"
  define ac' where "ac' = setAccount (put ac s x) s True"
  have sub: "Account_SubBalance (heap ac s) amt = Inr x"
    using assms(4,5) b by (simp add: Account_SubBalance_def x_def)
  have s: "s < nextref ac" "Address (heap ac s) = a" "Address x = a" "cached ac a = Some s"
    using assms(2,3) by (auto simp: current_def x_def)
  have t: "ainv ac'" "atree ac' = (atree ac)(a \<mapsto> x)"
    using ainv_set[OF assms(1) s(1-3)] by (simp_all add: ac'_def)
  have f: "finite (dom (atree ac))" using assms(1) by (simp add: ainvD)
  have "wealth ac' = wealth ac - uint amt"
    using wealth_upd[OF f t(2)] uint_sub_le[OF assms(5)] by (simp add: x_def)
  moreover have "bal ac' = (bal ac)(a := bal ac a - amt)" using bal_upd[OF t(2)] by (auto simp: fun_eq_iff x_def)
  moreover have "current ac' b i" if "current ac b i" for b i
    using that s assms(3) by (auto simp: current_def ac'_def setAccount_def put_def Let_def x_def)
  ultimately show ?thesis using sub t assms(3) ac'_def by auto
qed

section \<open>The invariant\<close>

definition owners_exist :: "vstate \<Rightarrow> AcctCtrler \<Rightarrow> bool" where
  "owners_exist st ac \<longleftrightarrow> (\<forall>f t. vpows st (f, t) \<noteq> None \<longrightarrow> atree ac f \<noteq> None) \<and>
     (\<forall>h a. frozens st (h, a) \<noteq> None \<longrightarrow> atree ac a \<noteq> None)"

text \<open>
  The ledgers are well formed, every staker and every owner of frozen power has an account, and there
  are at most \<open>max_power\<close> coins.
\<close>

definition cinv :: "(bytes \<Rightarrow> addr) \<Rightarrow> VPowerCtrler \<Rightarrow> AcctCtrler \<Rightarrow> bool" where
  "cinv p2a c ac \<longleftrightarrow> vinv p2a (vexec c) \<and> ainv ac \<and> owners_exist (vexec c) ac \<and> coins c ac \<le> max_power * coin"

lemma vexec_set [simp]: "vexec (set_view c True st) = st" "vcheck (set_view c True st) = vcheck c"
    "vpowLimiter (set_view c e st) = vpowLimiter c" "vexec (set_view c False st) = vexec c"
  by (simp_all add: set_view_def)

lemma coins_eq: "vexec c' = st \<Longrightarrow> coins c' ac = wealth ac + (bonded st + frozen_sum st) * coin"
  by (simp add: coins_def)

lemma coin_pos [simp]: "0 < coin" "coin \<noteq> 0" "0 \<le> coin" by (simp_all add: coin_def)

text \<open>An amount some account can pay converts to power without loss.\<close>

lemma amount_power:
  assumes "cinv p2a c ac" "amt \<le> bal ac a" "Sign (amt mod AmountPerPower) = 0"
  defines "p \<equiv> i64 (Uint64 (amt div AmountPerPower))"
  shows "uint amt = p * coin" "0 \<le> p" "bonded (vexec c) + frozen_sum (vexec c) + p \<le> max_power"
    "PowerToAmount p = amt" "0 \<le> Sign amt"
proof -
  have f: "finite (dom (atree ac))" and vb: "vbase (vexec c)" using assms(1) by (auto simp: cinv_def ainvD vinvD)
  have b: "0 \<le> bonded (vexec c)" "0 \<le> frozen_sum (vexec c)" using vb bonded_nonneg frozen_nonneg by auto
  have le: "uint amt + (bonded (vexec c) + frozen_sum (vexec c)) * coin \<le> max_power * coin"
    using assms(1,2) bal_le_wealth[OF f, of a] by (simp add: cinv_def coins_def word_le_def)
  have q: "uint (amt div AmountPerPower) = uint amt div coin"
    using uint_div_App[of amt] by (simp add: AmountPerPower_def coin_def)
  have "amt mod AmountPerPower = 0" using assms(3) by (simp add: Sign_def sgn_if split: if_splits) (metis sint_0 signed_eq_0_iff)
  then have "amt = amt div AmountPerPower * AmountPerPower" by (metis add_0_right div_mult_mod_eq)
  moreover have "uint (amt mod AmountPerPower) = uint amt mod coin"
    by (simp add: AmountPerPower_def amountPerPower_val coin_def uint_mod)
  ultimately have m: "uint amt mod coin = 0" using \<open>amt mod AmountPerPower = 0\<close> by simp
  have d: "uint amt div coin * coin = uint amt" using m by (simp add: mod_0_imp_dvd)
  have k: "uint amt div coin \<le> max_power"
  proof -
    have "0 \<le> (bonded (vexec c) + frozen_sum (vexec c)) * coin" using b by (intro mult_nonneg_nonneg) simp_all
    then have "uint amt div coin * coin \<le> max_power * coin" using d le by linarith
    then show ?thesis by simp
  qed
  have n: "0 \<le> uint amt div coin" by (simp add: pos_imp_zdiv_nonneg_iff)
  have p: "p = uint amt div coin"
    using k n by (simp add: p_def Uint64_def q max_power_def in64_def)
  show "uint amt = p * coin" using p d by simp
  show "0 \<le> p" using p n by simp
  have "(bonded (vexec c) + frozen_sum (vexec c) + p) * coin \<le> max_power * coin"
    using le d p by (simp add: algebra_simps)
  then show "bonded (vexec c) + frozen_sum (vexec c) + p \<le> max_power" by simp
  have "uint (PowerToAmount p) = uint amt" using PowerToAmount_uint(1)[of p] k p d \<open>0 \<le> p\<close> by simp
  then show a: "PowerToAmount p = amt" by (simp add: word_uint_eq_iff)
  show "0 \<le> Sign amt" using PowerToAmount_uint(2)[of p] k p a \<open>0 \<le> p\<close> by simp
qed

section \<open>Staking and unstaking\<close>

lemma owners_bond:
  "owners_exist st ac \<Longrightarrow> atree ac f \<noteq> None \<Longrightarrow> vfrom v = f \<Longrightarrow> owners_exist (bondPowerChunk st d v pw h tx) ac"
  by (auto simp: owners_exist_def bondPowerChunk_def Let_def writeDelegatee_def writeVPower_def addPowerWithTxHash_def)

lemma owners_dom: "owners_exist st ac \<Longrightarrow> dom (atree ac) \<subseteq> dom (atree ac') \<Longrightarrow> owners_exist st ac'"
  by (auto simp: owners_exist_def dom_def subset_iff)

text \<open>What a successful validation of a staking transaction has found out.\<close>

lemma validateStaking_found:
  assumes "validateStaking g c ctx = Ret (c', Inr opt)"
  shows "vexec c' = vexec c \<and> boPower opt = i64 (Uint64 (txAmount (Tx ctx) div AmountPerPower)) \<and> 0 < boPower opt \<and>
    Sign (txAmount (Tx ctx) mod AmountPerPower) = 0 \<and>
    boDgtee opt = dgts (vview c (Exec ctx)) (opt_bytes (txTo (Tx ctx))) \<and>
    (boDgtee opt = None \<longrightarrow> txFrom (Tx ctx) = opt_bytes (txTo (Tx ctx)))"
  using assms
  by (auto simp: validateStaking_def Let_def optDelegatee_def readDelegatee_def check_delegation_def bytes_Equal_def
      split: if_splits option.splits go.splits sum.splits prod.splits)

lemma bonding_delegatee:
  assumes inv: "vinv p2a st" and key: "dgts st a = None \<Longrightarrow> p2a pk = a"
  defines "d \<equiv> (case dgts st a of Some d \<Rightarrow> d | None \<Rightarrow> NewDelegatee p2a pk)"
  shows "dgt_ok p2a (into a (vpows st)) a d" "daddr d = a"
    "(if hasDelegator d f then readVPower st f (daddr d) else Inr (NewVPower f (daddr d))) = Inr (vpow_of st f a)"
proof -
  have vb: "vbase st" using inv by (simp add: vinvD)
  show ok: "dgt_ok p2a (into a (vpows st)) a d"
  proof (cases "dgts st a")
    case None
    then show ?thesis using key into_unknown[OF vb None] by (simp add: d_def dgt_ok_def NewDelegatee_def)
  next
    case (Some x)
    then show ?thesis using inv by (simp add: d_def vinvD)
  qed
  then show "daddr d = a" by (simp add: dgt_ok_def)
  with ok show "(if hasDelegator d f then readVPower st f (daddr d) else Inr (NewVPower f (daddr d))) = Inr (vpow_of st f a)"
    by (auto simp: dgt_ok_def readVPower_def vpow_of_def dom_def split: option.splits)
qed

lemma stake_step:
  assumes inv: "cinv p2a c ac" and val: "validateStaking g c ctx = Ret (c1, Inr opt)" and ex: "Exec ctx"
    and cur: "ctx_current ac ctx" and sig: "p2a (SenderPubKey ctx) = txFrom (Tx ctx)"
    and bal: "txAmount (Tx ctx) \<le> bal ac (txFrom (Tx ctx))"
  shows "\<exists>c' ac'. execBonding p2a c1 ac h ctx opt = (c', ac', None) \<and> cinv p2a c' ac' \<and> coins c' ac' = coins c ac \<and>
    bonded (vexec c') = bonded (vexec c) + boPower opt \<and> frozens (vexec c') = frozens (vexec c) \<and>
    bal ac' = (bal ac)(txFrom (Tx ctx) := bal ac (txFrom (Tx ctx)) - PowerToAmount (boPower opt)) \<and>
    PowerToAmount (boPower opt) = txAmount (Tx ctx) \<and> (\<forall>b i. current ac b i \<longrightarrow> current ac' b i) \<and>
    dom (atree ac') = dom (atree ac)"
proof -
  let ?tx = "Tx ctx" and ?st = "vexec c" let ?f = "txFrom ?tx" and ?a = "opt_bytes (txTo ?tx)"
  note v = validateStaking_found[OF val]
  have ex': "Exec ctx = True" using ex by simp
  have st: "vview c True = ?st" "vview c1 True = ?st" using v by (auto simp: vview_def)
  have i: "vinv p2a ?st" "ainv ac" "owners_exist ?st ac" "coins c ac \<le> max_power * coin"
    using inv by (auto simp: cinv_def)
  have p: "boPower opt = i64 (Uint64 (txAmount ?tx div AmountPerPower))" using v by blast
  note amt = amount_power[OF inv bal conjunct1[OF conjunct2[OF conjunct2[OF conjunct2[OF v]]]], folded p]
  define d where "d = (case dgts ?st ?a of Some d \<Rightarrow> d | None \<Rightarrow> NewDelegatee p2a (SenderPubKey ctx))"
  have key: "dgts ?st ?a = None \<Longrightarrow> p2a (SenderPubKey ctx) = ?a" using v sig st ex' by simp
  note D = bonding_delegatee[OF i(1) key, folded d_def]
  let ?v = "vpow_of ?st ?f ?a"
  let ?st1 = "bondPowerChunk ?st d ?v (boPower opt) h (TxHash ctx)"
  have B: "vinv p2a ?st1 \<and> bonded ?st1 = bonded ?st + boPower opt \<and> frozens ?st1 = frozens ?st \<and> missed ?st1 = missed ?st"
    by (rule bondPowerChunk_spec[OF i(1) D(1) amt(2,3)])
  have at: "atree ac ?f \<noteq> None" "current ac ?f (Sender ctx)" using cur by (auto simp: ctx_current_def)
  obtain x ac' where S: "Account_SubBalance (heap ac (Sender ctx)) (txAmount ?tx) = Inr x"
      "ac' = setAccount (put ac (Sender ctx) x) (Sender ctx) True" "ainv ac'" "wealth ac' = wealth ac - uint (txAmount ?tx)"
      "dom (atree ac') = dom (atree ac)" "bal ac' = (bal ac)(?f := bal ac ?f - txAmount ?tx)"
      "\<forall>b i. current ac b i \<longrightarrow> current ac' b i"
    using Debit_wealth[OF i(2) at(2,1) amt(5) bal] by blast
  have dg: "(case boDgtee opt of Some d \<Rightarrow> Some d | None \<Rightarrow> if bytes_Compare ?f ?a = 0
      then Some (NewDelegatee p2a (SenderPubKey ctx)) else None) = Some d"
    using v st ex' by (auto simp: d_def split: option.splits)
  have E: "execBonding p2a c1 ac h ctx opt = (set_view c1 True ?st1, ac', None)"
    by (simp only: execBonding_def Let_def ex' st dg option.case D(3) sum.case S(1)) (simp add: S(2))
  have o: "owners_exist ?st1 ac'"
    using owners_dom[OF owners_bond[OF i(3) at(1) vpow_of_props(1)[OF i(1)]]] S(5) by blast
  have "frozen_sum ?st1 = frozen_sum ?st" using B by (simp add: frozen_sum_def)
  then have co: "coins (set_view c1 True ?st1) ac' = coins c ac"
    using B S(4) amt(1) by (simp add: coins_def algebra_simps)
  then have "cinv p2a (set_view c1 True ?st1) ac'" using B S(3) o i(4) by (simp add: cinv_def)
  then show ?thesis using E co B S amt(4) by auto
qed

lemma validateUnstaking_found:
  assumes "validateUnstaking c ctx = Ret (c', Inr opt)"
  shows "vexec c' = vexec c \<and> (\<exists>d v pc tx. boDgtee opt = Some d \<and> boVpow opt = Some v \<and>
    txPayload (Tx ctx) = Some (TrxPayloadUnstaking tx) \<and> tx \<noteq> [] \<and>
    dgts (vview c (Exec ctx)) (opt_bytes (txTo (Tx ctx))) = Some d \<and>
    vpows (vview c (Exec ctx)) (txFrom (Tx ctx), opt_bytes (txTo (Tx ctx))) = Some v \<and>
    findPowerChunk v tx = Some pc \<and> boPower opt = cPower pc)"
  using assms
  by (auto simp: validateUnstaking_def Let_def readDelegatee_def readVPower_def
      split: if_splits option.splits go.splits sum.splits prod.splits TrxPayload.splits)

lemma owners_sub:
  "owners_exist st ac \<Longrightarrow> dom (vpows st1) \<subseteq> dom (vpows st) \<Longrightarrow> frozens st1 = frozens st \<Longrightarrow> owners_exist st1 ac"
  unfolding owners_exist_def by (metis domIff subsetD)

lemma owners_unbond:
  "owners_exist st ac \<Longrightarrow> vpows st (f, a) \<noteq> None \<Longrightarrow> vfrom v = f \<Longrightarrow> vto v = a \<Longrightarrow>
   unbondPowerChunk st d v tx = Inr (pc, d1, st1) \<Longrightarrow> owners_exist st1 ac"
  by (erule owners_sub)
    (auto simp: unbondPowerChunk_def Let_def delPowerWithTxHash_def writeDelegatee_def writeVPower_def
      removeVPower_def split: option.splits prod.splits if_splits)

lemma owners_freeze: "owners_exist st ac \<Longrightarrow> atree ac f \<noteq> None \<Longrightarrow> owners_exist (freezePowerChunk st f pc h) ac"
  "owners_exist st ac \<Longrightarrow> atree ac f \<noteq> None \<Longrightarrow> owners_exist (freezePowerChunkList st f pcs h) ac"
  by (auto simp: owners_exist_def freezePowerChunk_def freezePowerChunkList_def Let_def)

lemma owners_remove: "owners_exist st ac \<Longrightarrow> owners_exist (removeDelegatee st a) ac"
  "owners_exist st ac \<Longrightarrow> owners_exist (removeVPower st f a) ac"
  by (auto simp: owners_exist_def removeDelegatee_def removeVPower_def)

lemma owners_release:
  "vbase st \<Longrightarrow> owners_exist st ac \<Longrightarrow> releaseDelegators st a fs h = (st', r) \<Longrightarrow> owners_exist st' ac"
proof (induction fs arbitrary: st)
  case (Cons f fs)
  show ?case
  proof (cases "vpows st (f, a)")
    case None
    then show ?thesis using Cons.prems by (simp add: readVPower_def)
  next
    case (Some v)
    then have v: "vfrom v = f" "vto v = a" using vbaseD(3)[OF Cons.prems(1) Some] by (auto simp: vp_ok_def)
    let ?st = "removeVPower (freezePowerChunkList st f (vPowerChunks v) h) f a"
    have "vbase ?st" using release_one[OF Cons.prems(1) Some] by blast
    moreover have "atree ac f \<noteq> None" using Cons.prems(2) Some by (auto simp: owners_exist_def)
    then have "owners_exist ?st ac" using Cons.prems(2) by (intro owners_remove owners_freeze)
    ultimately show ?thesis using Cons.IH Cons.prems(3) Some v by (simp add: readVPower_def)
  qed
qed simp

lemma unstake_state:
  assumes inv: "vinv p2a st" "owners_exist st ac" and d: "dgts st a = Some d" and v: "vpows st (f, a) = Some v"
    and pc: "delPowerWithTxHash v tx = Some (pc, v1)"
  shows "\<exists>d1 st1. unbondPowerChunk st d v tx = Inr (pc, d1, st1) \<and> daddr d1 = a \<and>
    (let st2 = freezePowerChunk st1 f pc h in
     vinv p2a st2 \<and> owners_exist st2 ac \<and> dgts st2 a = Some d1 \<and>
     bonded st2 = bonded st - cPower pc \<and> frozen_sum st2 = frozen_sum st + cPower pc \<and>
     (\<exists>st3. releaseDelegators st2 a (Delegators d1) h = (st3, None) \<and> vinv p2a (removeDelegatee st3 a) \<and>
        owners_exist (removeDelegatee st3 a) ac \<and>
        bonded (removeDelegatee st3 a) + frozen_sum (removeDelegatee st3 a) = bonded st + frozen_sum st))"
proof -
  obtain d1 st1 where U: "unbondPowerChunk st d v tx = Inr (pc, d1, st1)" "vinv p2a st1" "bonded st1 = bonded st - cPower pc"
      "frozens st1 = frozens st" "dgts st1 = (dgts st)(a \<mapsto> d1)"
    using unbondPowerChunk_spec[OF inv(1) d v pc] by blast
  have vb: "vbase st" "vbase st1" using inv(1) U(2) vinvD by blast+
  have vp: "vp_ok f a v" using vbaseD(3)[OF vb(1) v] .
  have cs: "csum v \<le> max_power" using csum_le_bonded[OF vb(1) v] total_bounds(1)[OF vb(1)] by linarith
  have p: "0 \<le> cPower pc" using delPower_chunk[OF vp cs pc] by blast
  have F: "frozen_sum st1 = frozen_sum st" using U(4) by (simp add: frozen_sum_def)
  have t: "bonded st1 + frozen_sum st1 + cPower pc \<le> max_power" using U(3) F vbaseD(6)[OF vb(1)] by simp
  define st2 where "st2 = freezePowerChunk st1 f pc h"
  note Z = freezePowerChunk_spec[OF U(2) p t, of f h, folded st2_def]
  have d2: "dgts st2 a = Some d1" using Z U(5) by simp
  have a: "daddr d1 = a" using vinvD(3)[OF U(2), of a d1] U(5) by (simp add: dgt_ok_def)
  have at: "atree ac f \<noteq> None" using inv(2) v by (auto simp: owners_exist_def)
  have "owners_exist st1 ac" by (rule owners_unbond[OF inv(2) _ _ _ U(1)]) (use v vp in \<open>auto simp: vp_ok_def\<close>)
  then have o2: "owners_exist st2 ac" unfolding st2_def using at by (rule owners_freeze)
  obtain st3 where R: "releaseDelegators st2 a (Delegators d1) h = (st3, None)" "vinv p2a (removeDelegatee st3 a)"
      "bonded st3 + frozen_sum st3 = bonded st2 + frozen_sum st2"
    using release_all_spec[OF conjunct1[OF Z] d2] by blast
  have "owners_exist (removeDelegatee st3 a) ac"
    using owners_release[OF vinvD(1)[OF conjunct1[OF Z]] o2 R(1)] by (rule owners_remove)
  moreover have "bonded (removeDelegatee st3 a) + frozen_sum (removeDelegatee st3 a) = bonded st + frozen_sum st"
    using R(3) Z U(3) F by (simp add: bonded_def frozen_sum_def removeDelegatee_def)
  moreover have "bonded st2 = bonded st - cPower pc" "frozen_sum st2 = frozen_sum st + cPower pc" using Z U(3) F by auto
  ultimately show ?thesis using U(1) a d2 o2 R(1,2) Z
    by (intro exI[of _ d1] exI[of _ st1]) (simp add: Let_def st2_def[symmetric])
qed

lemma unstake_step:
  assumes inv: "cinv p2a c ac" and val: "validateUnstaking c ctx = Ret (c1, Inr opt)" and ex: "Exec ctx"
  shows "\<exists>c'. exeUnbonding g c1 h ctx opt = Ret (c', None) \<and> cinv p2a c' ac \<and> coins c' ac = coins c ac \<and>
    bonded (vexec c') + frozen_sum (vexec c') = bonded (vexec c) + frozen_sum (vexec c)"
proof -
  let ?st = "vexec c" let ?f = "txFrom (Tx ctx)" and ?a = "opt_bytes (txTo (Tx ctx))"
  let ?h = "i64 (h + LazyUnbondingBlocks g)"
  obtain d v pc tx where V: "vexec c1 = ?st" "boDgtee opt = Some d" "boVpow opt = Some v"
      "txPayload (Tx ctx) = Some (TrxPayloadUnstaking tx)" "tx \<noteq> []" "dgts ?st ?a = Some d" "vpows ?st (?f, ?a) = Some v"
      "findPowerChunk v tx = Some pc"
    using validateUnstaking_found[OF val] ex by (auto simp: vview_def)
  have i: "vinv p2a ?st" "owners_exist ?st ac" "ainv ac" "coins c ac \<le> max_power * coin" using inv by (auto simp: cinv_def)
  have vf: "vfrom v = ?f" using vbaseD(3)[OF vinvD(1)[OF i(1)] V(7)] by (simp add: vp_ok_def)
  obtain pc' v1 where D: "delPowerWithTxHash v tx = Some (pc', v1)"
    using V(8) delPower_none[of v tx] by (cases "delPowerWithTxHash v tx") auto
  obtain d1 st1 where U: "unbondPowerChunk ?st d v tx = Inr (pc', d1, st1)" "daddr d1 = ?a"
      "let st2 = freezePowerChunk st1 ?f pc' ?h in
     vinv p2a st2 \<and> owners_exist st2 ac \<and> dgts st2 ?a = Some d1 \<and>
     bonded st2 = bonded ?st - cPower pc' \<and> frozen_sum st2 = frozen_sum ?st + cPower pc' \<and>
     (\<exists>st3. releaseDelegators st2 ?a (Delegators d1) ?h = (st3, None) \<and> vinv p2a (removeDelegatee st3 ?a) \<and>
        owners_exist (removeDelegatee st3 ?a) ac \<and>
        bonded (removeDelegatee st3 ?a) + frozen_sum (removeDelegatee st3 ?a) = bonded ?st + frozen_sum ?st)"
    using unstake_state[OF i(1,2) V(6,7) D, of ?h] by blast
  define st2 where "st2 = freezePowerChunk st1 ?f pc' ?h"
  obtain st3 where R: "releaseDelegators st2 ?a (Delegators d1) ?h = (st3, None)" "vinv p2a (removeDelegatee st3 ?a)"
      "owners_exist (removeDelegatee st3 ?a) ac"
      "bonded (removeDelegatee st3 ?a) + frozen_sum (removeDelegatee st3 ?a) = bonded ?st + frozen_sum ?st"
    using U(3) unfolding st2_def by (auto simp: Let_def)
  have S: "vinv p2a st2" "owners_exist st2 ac" "bonded st2 + frozen_sum st2 = bonded ?st + frozen_sum ?st"
    using U(3) unfolding st2_def by (auto simp: Let_def)
  define st' where "st' = (if dSelfPower d1 = 0 then removeDelegatee st3 ?a else st2)"
  have st': "vinv p2a st'" "owners_exist st' ac" "bonded st' + frozen_sum st' = bonded ?st + frozen_sum ?st"
    using R S by (auto simp: st'_def)
  have vv: "vview c1 True = ?st" using V(1) by (simp add: vview_def)
  obtain c' where E: "exeUnbonding g c1 h ctx opt = Ret (c', None)" "vexec c' = st'"
  proof (cases "dSelfPower d1 = 0")
    case True
    show ?thesis by (rule that[of "set_view (set_view c1 True st2) True (removeDelegatee st3 ?a)"])
        (use True ex V vf U(1,2) R(1) vv in \<open>simp_all add: exeUnbonding_def Let_def st2_def[symmetric] st'_def\<close>)
  next
    case False
    show ?thesis by (rule that[of "set_view c1 True st2"])
        (use False ex V vf U(1,2) R(1) vv in \<open>simp_all add: exeUnbonding_def Let_def st2_def[symmetric] st'_def\<close>)
  qed
  have "coins c' ac = coins c ac" using E(2) st'(3) by (simp add: coins_def)
  then show ?thesis using E st' i by (auto simp: cinv_def)
qed

section \<open>Blocks\<close>

definition keyed :: "vstate \<Rightarrow> bool" where
  "keyed st \<longleftrightarrow> (\<forall>f t v. vpows st (f, t) = Some v \<longrightarrow> vfrom v = f \<and> vto v = t)"

lemma vinv_keyed: "vinv p2a st \<Longrightarrow> keyed st"
  using vbaseD(3) vinvD(1) unfolding keyed_def vp_ok_def by blast

lemma slash_dom:
  "keyed st \<Longrightarrow> slashDelegators st rate d as tot = (st', r) \<Longrightarrow> dom (vpows st') = dom (vpows st) \<and> keyed st'"
proof (induction as arbitrary: st d tot)
  case (Cons a as)
  show ?case
  proof (cases "vpows st (a, daddr d)")
    case None
    then show ?thesis using Cons.prems by (simp add: readVPower_def)
  next
    case (Some v)
    obtain rpcs acc where sl: "slashChunks rate (a = vto v) (rev (vPowerChunks v))
        \<lparr>sVSum = vSumPower v, sDSum = dSumPower d, sDSelf = dSelfPower d, sTotal = tot\<rparr> = (rpcs, acc)"
      by (meson surj_pair)
    define v1 where "v1 = v\<lparr>vPowerChunks := rev rpcs, vSumPower := sVSum acc\<rparr>"
    have k: "vfrom v1 = a" "vto v1 = daddr d" using Cons.prems(1) Some by (auto simp: keyed_def v1_def)
    have "keyed (writeVPower st v1)" "dom (vpows (writeVPower st v1)) = dom (vpows st)"
      using Cons.prems(1) Some k by (auto simp: keyed_def writeVPower_def)
    moreover have "slashDelegators (writeVPower st v1) rate (d\<lparr>dSumPower := sDSum acc, dSelfPower := sDSelf acc\<rparr>) as (sTotal acc) = (st', r)"
      using Cons.prems(2) Some sl by (simp add: readVPower_def v1_def)
    ultimately show ?thesis using Cons.IH by blast
  qed
qed simp

lemma doSlash_dom:
  assumes "keyed st" "doSlash st a rate = (st', r)"
  shows "dom (vpows st') = dom (vpows st)"
proof (cases "dgts st a")
  case None
  then show ?thesis using assms(2) by (simp add: doSlash_def readDelegatee_def)
next
  case (Some d)
  obtain st1 q where 1: "slashDelegators st rate d (Delegators d) 0 = (st1, q)" by (meson surj_pair)
  have "vpows st' = vpows st1"
    using assms(2) Some 1 by (auto simp: doSlash_def readDelegatee_def writeDelegatee_def split: sum.splits)
  then show ?thesis using slash_dom[OF assms(1) 1] by simp
qed

lemma coins_bound:
  assumes "cinv p2a c ac" "0 \<le> p" "p \<le> bonded (vexec c) + frozen_sum (vexec c)"
  shows "p \<le> max_power" "wealth ac + uint (PowerToAmount p) < 2 ^ 256" "uint (PowerToAmount p) = p * coin"
    "0 \<le> Sign (PowerToAmount p)"
proof -
  have vb: "vbase (vexec c)" and co: "coins c ac \<le> max_power * coin" using assms(1) vinvD by (auto simp: cinv_def)
  show p: "p \<le> max_power" using assms(3) vbaseD(6)[OF vb] by simp
  show u: "uint (PowerToAmount p) = p * coin" "0 \<le> Sign (PowerToAmount p)" using PowerToAmount_uint assms(2) p by auto
  have "p * coin \<le> (bonded (vexec c) + frozen_sum (vexec c)) * coin" using assms(3) by (simp add: mult_right_mono)
  then have "wealth ac + p * coin \<le> max_power * coin" using co unfolding coins_def by linarith
  then show "wealth ac + uint (PowerToAmount p) < 2 ^ 256" using u by (simp add: max_power_def coin_def)
qed

lemma slash_step:
  assumes inv: "cinv p2a c ac" and rate: "0 \<le> SlashRate g" "SlashRate g \<le> 100"
  shows "\<exists>c' ac'. punishByzantines g c ac es = (c', ac', None) \<and> cinv p2a c' ac' \<and> coins c' ac' = coins c ac \<and>
    dom (atree ac) \<subseteq> dom (atree ac')"
  using inv
proof (induction es arbitrary: c ac)
  case (Cons e es)
  let ?st = "vexec c" and ?a = "evAddress e"
  have i: "vinv p2a ?st" "ainv ac" "owners_exist ?st ac" "coins c ac \<le> max_power * coin" using Cons.prems by (auto simp: cinv_def)
  show ?case
  proof (cases "dgts ?st ?a")
    case None
    then have n: "doSlash ?st ?a (SlashRate g) = (?st, Inl ErrNotFoundResult)" by (simp add: doSlash_def readDelegatee_def)
    have "coins (set_view c True ?st) ac = coins c ac" by (simp add: coins_def)
    then have "cinv p2a (set_view c True ?st) ac" using i by (simp add: cinv_def)
    from Cons.IH[OF this] n show ?thesis by (auto simp: coins_def)
  next
    case (Some d)
    obtain st S where D: "doSlash ?st ?a (SlashRate g) = (st, Inr S)" "vinv p2a st" "bonded st = bonded ?st - S" "0 \<le> S"
        "frozens st = frozens ?st"
      using doSlash_spec[OF i(1) Some rate] by blast
    have S: "S \<le> bonded ?st + frozen_sum ?st"
      using D(3) bonded_nonneg[OF vinvD(1)[OF D(2)]] frozen_nonneg[OF vinvD(1)[OF i(1)]] by linarith
    note B = coins_bound[OF Cons.prems D(4) S]
    obtain ac1 where A: "AcctCtrler_AddBalance ac (GovDeadAddress g) (PowerToAmount S) True = (ac1, None)" "ainv ac1"
        "wealth ac1 = wealth ac + uint (PowerToAmount S)" "dom (atree ac1) = insert (GovDeadAddress g) (dom (atree ac))"
      using AddBalance_wealth[OF i(2) B(4,2)] by blast
    have "owners_exist st ac"
      using owners_sub[OF i(3) _ D(5)] doSlash_dom[OF vinv_keyed[OF i(1)] D(1)] by simp
    then have o: "owners_exist st ac1" using owners_dom A(4) by blast
    have co: "coins (set_view c True st) ac1 = coins c ac"
      by (simp add: coins_def frozen_sum_def D(3,5) A(3) B(3) algebra_simps)
    then have "cinv p2a (set_view c True st) ac1" using D(2) A(2) o i(4) by (simp add: cinv_def)
    from Cons.IH[OF this] D(1) A(1,4) co show ?thesis by auto
  qed
qed auto

lemma missed_irrelevant:
  assumes "vpows st' = vpows st" "dgts st' = dgts st" "frozens st' = frozens st"
  shows "vinv p2a st' = vinv p2a st" "owners_exist st' ac = owners_exist st ac" "bonded st' = bonded st"
    "frozen_sum st' = frozen_sum st"
  using assms by (simp_all add: vinv_def vbase_def bonded_def frozen_sum_def owners_exist_def)

lemma addMissed_frame:
  "addMissedBlockCount st a = Inr (n, st') \<Longrightarrow> vpows st' = vpows st \<and> dgts st' = dgts st \<and> frozens st' = frozens st"
  "\<exists>n st'. addMissedBlockCount st a = Inr (n, st')"
proof -
  have "Contains ErrNotFoundResult ErrNotFoundResult" by (simp add: ErrNotFoundResult_def New_def)
  then show "\<exists>n st'. addMissedBlockCount st a = Inr (n, st')"
    by (auto simp: addMissedBlockCount_def getMissedBlockCount_def Let_def split: option.splits)
qed (auto simp: addMissedBlockCount_def getMissedBlockCount_def setMissedBlockCount_def Let_def split: option.splits if_splits)

lemma missing_step1:
  assumes inv: "cinv p2a c ac"
  shows "\<exists>c'. punishMissing g h c a = (c', None) \<and> cinv p2a c' ac \<and> coins c' ac = coins c ac"
proof -
  let ?st = "vexec c"
  have i: "vinv p2a ?st" "ainv ac" "owners_exist ?st ac" "coins c ac \<le> max_power * coin" using inv by (auto simp: cinv_def)
  obtain n st where M: "addMissedBlockCount ?st a = Inr (n, st)" using addMissed_frame(2) by blast
  have same: "vinv p2a st" "owners_exist st ac" "bonded st = bonded ?st" "frozen_sum st = frozen_sum ?st"
    using missed_irrelevant[of st ?st] addMissed_frame(1)[OF M] i by auto
  have nf: "Contains ErrNotFoundResult ErrNotFoundResult" by (simp add: ErrNotFoundResult_def New_def)
  let ?h = "i64 (h + LazyUnbondingBlocks g)"
  consider (plain) "punishMissing g h c a = (set_view c True st, None)"
    | (release) d st1 where "dgts st a = Some d" "releaseDelegators st (daddr d) (Delegators d) ?h = (st1, None)"
        "punishMissing g h c a = (set_view (set_view c True st) True (removeDelegatee st1 (daddr d)), None)"
        "vinv p2a (removeDelegatee st1 (daddr d))" "owners_exist (removeDelegatee st1 (daddr d)) ac"
        "bonded st1 + frozen_sum st1 = bonded st + frozen_sum st"
  proof (cases "n \<ge> i64 (InflationCycleBlocks g - MinSignedBlocks g) \<and> dgts st a \<noteq> None")
    case False
    then show ?thesis using M nf that(1) by (auto simp: punishMissing_def readDelegatee_def Let_def)
  next
    case True
    then obtain d where d: "dgts st a = Some d" by auto
    have a: "daddr d = a" using vinvD(3)[OF same(1) d] by (simp add: dgt_ok_def)
    obtain st1 where R: "releaseDelegators st a (Delegators d) ?h = (st1, None)" "vinv p2a (removeDelegatee st1 a)"
        "bonded st1 + frozen_sum st1 = bonded st + frozen_sum st"
      using release_all_spec[OF same(1) d] by blast
    have "owners_exist (removeDelegatee st1 a) ac"
      using owners_release[OF vinvD(1)[OF same(1)] same(2) R(1)] by (rule owners_remove)
    then show ?thesis using True M d a R by (intro that(2)[of d st1]) (auto simp: punishMissing_def readDelegatee_def Let_def)
  qed
  then show ?thesis
  proof cases
    case plain
    then show ?thesis using same i by (auto simp: cinv_def coins_def)
  next
    case release
    then show ?thesis using same i
      by (auto simp: cinv_def coins_def removeDelegatee_def bonded_def frozen_sum_def)
  qed
qed

lemma missing_step:
  "cinv p2a c ac \<Longrightarrow> \<exists>c'. punishAllMissing g h c vs = (c', None) \<and> cinv p2a c' ac \<and> coins c' ac = coins c ac"
proof (induction vs arbitrary: c)
  case (Cons v vs)
  show ?case
  proof (cases "viSigned v")
    case True
    then show ?thesis using Cons by simp
  next
    case False
    obtain c1 where 1: "punishMissing g h c (viAddress v) = (c1, None)" "cinv p2a c1 ac" "coins c1 ac = coins c ac"
      using missing_step1[OF Cons.prems] by blast
    from Cons.IH[OF 1(2)] False 1 show ?thesis by auto
  qed
qed auto

definition refund_sum :: "vstate \<Rightarrow> int \<Rightarrow> addr list \<Rightarrow> int" where
  "refund_sum st h as = sum_list (map (\<lambda>a. mval fsum (frozens st) (h, a)) as)"

lemma refund_sum_simps [simp]: "refund_sum st h [] = 0"
  "refund_sum st h (a # as) = mval fsum (frozens st) (h, a) + refund_sum st h as"
  by (simp_all add: refund_sum_def)

lemma refund_sum_nonneg: "vbase st \<Longrightarrow> 0 \<le> refund_sum st h as"
proof (induction as)
  case (Cons a as)
  then show ?case using fsum_nonneg[OF Cons.prems, of "(h, a)"] by (cases "frozens st (h, a)") auto
qed simp

lemma fold_remove:
  fixes h :: int
  assumes "distinct as" "finite (dom (frozens st))"
  defines "st' \<equiv> fold (\<lambda>a s. removeFrozenVPower s h a) as st"
  shows "frozen_sum st' = frozen_sum st - refund_sum st h as" "vpows st' = vpows st" "dgts st' = dgts st"
    "missed st' = missed st" "frozens st' = (\<lambda>k. if fst k = h \<and> snd k \<in> set as then None else frozens st k)"
proof -
  have "frozen_sum st' = frozen_sum st - refund_sum st h as \<and> vpows st' = vpows st \<and> dgts st' = dgts st \<and>
      missed st' = missed st \<and> frozens st' = (\<lambda>k. if fst k = h \<and> snd k \<in> set as then None else frozens st k)"
    unfolding st'_def using assms(1,2)
  proof (induction as arbitrary: st)
    case (Cons a as)
    let ?st = "removeFrozenVPower st h a"
    have f: "finite (dom (frozens ?st))" using Cons.prems by (simp add: removeFrozenVPower_def)
    have "map (\<lambda>b. mval fsum (frozens ?st) (h, b)) as = map (\<lambda>b. mval fsum (frozens st) (h, b)) as"
      using Cons.prems(1) by (auto simp: removeFrozenVPower_def mval_def)
    then have r: "refund_sum ?st h as = refund_sum st h as" by (simp only: refund_sum_def)
    have "frozen_sum ?st = frozen_sum st - mval fsum (frozens st) (h, a)"
      using Cons.prems(2) by (simp add: frozen_sum_def removeFrozenVPower_def msum_delete)
    then show ?case using Cons.IH[OF _ f] Cons.prems(1) r
      by (auto simp: removeFrozenVPower_def fun_eq_iff)
  qed (auto simp: fun_eq_iff)
  then show "frozen_sum st' = frozen_sum st - refund_sum st h as" "vpows st' = vpows st" "dgts st' = dgts st"
    "missed st' = missed st" "frozens st' = (\<lambda>k. if fst k = h \<and> snd k \<in> set as then None else frozens st k)" by auto
qed

lemma refund_all:
  assumes "vbase st" "ainv ac" "\<forall>a \<in> set as. frozens st (h, a) \<noteq> None \<and> atree ac a \<noteq> None"
    and "wealth ac + refund_sum st h as * coin < 2 ^ 256" "refund_sum st h as \<le> max_power"
  shows "\<exists>ac'. refundFrozen st h ac as = (ac', as, None) \<and> ainv ac' \<and> wealth ac' = wealth ac + refund_sum st h as * coin \<and>
    dom (atree ac') = dom (atree ac) \<and>
    (\<forall>b. uint (bal ac' b) = uint (bal ac b) + (\<Sum>a\<leftarrow>as. if a = b then mval fsum (frozens st) (h, a) * coin else 0))"
  using assms
proof (induction as arbitrary: ac)
  case Nil
  then show ?case by auto
next
  case (Cons a as)
  obtain z where z: "frozens st (h, a) = Some z" using Cons.prems(3) by auto
  have zok: "RefundPower z = fsum z" "0 \<le> fsum z"
    using vbaseD(5)[OF Cons.prems(1) z] fz_ok_fsum by (auto simp: fz_ok_def)
  have n: "0 \<le> refund_sum st h as" using refund_sum_nonneg Cons.prems(1) by blast
  have p: "fsum z \<le> max_power" using Cons.prems(5) z n by simp
  note P = PowerToAmount_uint[OF zok(2) p]
  have nn: "0 \<le> refund_sum st h as * coin" using n by (intro mult_nonneg_nonneg) simp_all
  have w: "wealth ac + uint (PowerToAmount (fsum z)) < 2 ^ 256"
    using Cons.prems(4) z nn by (simp add: P(1) algebra_simps)
  obtain ac1 where R: "AcctCtrler_Reward ac a (PowerToAmount (fsum z)) True = (ac1, None)" "ainv ac1"
      "wealth ac1 = wealth ac + fsum z * coin" "dom (atree ac1) = dom (atree ac)"
      "bal ac1 = (bal ac)(a := bal ac a + PowerToAmount (fsum z))"
    using Reward_wealth[OF Cons.prems(2) P(2) w, of a] Cons.prems(3) P(1) by auto
  have b1: "uint (bal ac1 b) = uint (bal ac b) + (if a = b then fsum z * coin else 0)" for b
  proof -
    have "uint (bal ac a) + uint (PowerToAmount (fsum z)) < 2 ^ 256"
      using w bal_le_wealth[of ac a] Cons.prems(2) by (simp add: ainvD)
    then show ?thesis using R(5) P(1) uint_add_small[of "bal ac a" "PowerToAmount (fsum z)"] by auto
  qed
  have "\<forall>b \<in> set as. frozens st (h, b) \<noteq> None \<and> atree ac1 b \<noteq> None"
    using Cons.prems(3) R(4) by (auto simp: domIff[symmetric] simp del: domIff)
  moreover have "wealth ac1 + refund_sum st h as * coin < 2 ^ 256"
    using Cons.prems(4) z R(3) by (simp add: algebra_simps)
  moreover have "refund_sum st h as \<le> max_power" using Cons.prems(5) z zok(2) by simp
  ultimately obtain ac' where I: "refundFrozen st h ac1 as = (ac', as, None)" "ainv ac'"
      "wealth ac' = wealth ac1 + refund_sum st h as * coin" "dom (atree ac') = dom (atree ac1)"
      "\<forall>b. uint (bal ac' b) = uint (bal ac1 b) + (\<Sum>a\<leftarrow>as. if a = b then mval fsum (frozens st) (h, a) * coin else 0)"
    using Cons.IH[OF Cons.prems(1) R(2)] by blast
  then show ?case using z R zok b1 by (auto simp: algebra_simps)
qed

lemma frozen_owners_props:
  assumes "finite (dom (frozens st))"
  shows "distinct (frozen_owners st h)" "set (frozen_owners st h) = {a. frozens st (h, a) \<noteq> None}"
proof -
  have "{a. frozens st (h, a) \<noteq> None} \<subseteq> snd ` dom (frozens st)" by force
  then have "finite {a. frozens st (h, a) \<noteq> None}" using assms finite_subset by blast
  then show "distinct (frozen_owners st h)" "set (frozen_owners st h) = {a. frozens st (h, a) \<noteq> None}"
    by (simp_all add: frozen_owners_def)
qed

lemma refund_sum_le: "vbase st \<Longrightarrow> refund_sum st h (frozen_owners st h) \<le> frozen_sum st"
proof -
  assume vb: "vbase st"
  let ?st = "fold (\<lambda>a s. removeFrozenVPower s h a) (frozen_owners st h) st"
  have f: "finite (dom (frozens st))" using vbaseD(2)[OF vb] .
  note F = fold_remove[OF frozen_owners_props(1)[OF f, of h] f, of h]
  have "0 \<le> frozen_sum ?st" unfolding frozen_sum_def
    by (rule msum_nonneg) (use fsum_nonneg[OF vb] in \<open>auto simp: F(5) split: if_splits\<close>)
  then show ?thesis using F(1) by simp
qed

lemma unfreeze_step:
  assumes inv: "cinv p2a c ac"
  shows "\<exists>st ac'. unfreezePowerChunk (vexec c) ac h = (st, ac', None) \<and> cinv p2a (set_view c True st) ac' \<and>
    coins (set_view c True st) ac' = coins c ac \<and> bonded st = bonded (vexec c) \<and> dgts st = dgts (vexec c) \<and>
    dom (atree ac') = dom (atree ac) \<and> (\<forall>a. frozens st (h, a) = None) \<and>
    (\<forall>a. uint (bal ac' a) = uint (bal ac a) + mval fsum (frozens (vexec c)) (h, a) * coin)"
proof -
  let ?st = "vexec c" let ?as = "frozen_owners ?st h"
  have i: "vinv p2a ?st" "ainv ac" "owners_exist ?st ac" "coins c ac \<le> max_power * coin" using inv by (auto simp: cinv_def)
  have vb: "vbase ?st" and f: "finite (dom (frozens ?st))" using i(1) vinvD vbaseD(2) by blast+
  note fo = frozen_owners_props[OF f, of h]
  have s: "0 \<le> refund_sum ?st h ?as" "refund_sum ?st h ?as \<le> bonded ?st + frozen_sum ?st"
    using refund_sum_nonneg[OF vb] refund_sum_le[OF vb, of h] bonded_nonneg[OF vb] by (auto intro: order_trans)
  note B = coins_bound[OF inv s]
  have ex: "\<forall>a \<in> set ?as. frozens ?st (h, a) \<noteq> None \<and> atree ac a \<noteq> None"
    using fo(2) i(3) by (auto simp: owners_exist_def)
  obtain ac' where R: "refundFrozen ?st h ac ?as = (ac', ?as, None)" "ainv ac'"
      "wealth ac' = wealth ac + refund_sum ?st h ?as * coin" "dom (atree ac') = dom (atree ac)"
      "\<forall>b. uint (bal ac' b) = uint (bal ac b) + (\<Sum>a\<leftarrow>?as. if a = b then mval fsum (frozens ?st) (h, a) * coin else 0)"
    using refund_all[OF vb i(2) ex] B(1,2,3) by auto
  define st where "st = fold (\<lambda>a s. removeFrozenVPower s h a) ?as ?st"
  note F = fold_remove[OF fo(1) f, of h, folded st_def]
  have U: "unfreezePowerChunk ?st ac h = (st, ac', None)" using R(1) by (simp add: unfreezePowerChunk_def st_def)
  have bd: "bonded st = bonded ?st" using F(2) by (simp add: bonded_def)
  have sub: "dom (frozens st) \<subseteq> dom (frozens ?st)" using F(5) by (auto split: if_splits)
  have sz: "frozens st k = Some z \<Longrightarrow> frozens ?st k = Some z" for k z using F(5) by (auto split: if_splits)
  have "bonded st + frozen_sum st \<le> max_power" using bd F(1) s(1) vbaseD(6)[OF vb] by linarith
  moreover have "\<forall>h a z. frozens st (h, a) = Some z \<longrightarrow> fz_ok z" using sz vbaseD(5)[OF vb] by blast
  ultimately have "vinv p2a st"
    using i(1) finite_subset[OF sub f] unfolding vinv_def vbase_def by (simp add: F(2,3))
  moreover have "owners_exist st ac'"
  proof -
    have fz: "frozens st k \<noteq> None \<Longrightarrow> frozens ?st k \<noteq> None" for k using F(5) by (simp split: if_splits)
    have o: "vpows ?st (f, t) \<noteq> None \<longrightarrow> atree ac f \<noteq> None" "frozens ?st (h', f) \<noteq> None \<longrightarrow> atree ac f \<noteq> None"
      for f t h' using i(3) unfolding owners_exist_def by blast+
    have "owners_exist st ac" unfolding owners_exist_def F(2) using o(1) o(2)[THEN mp, OF fz] by simp
    then show ?thesis by (rule owners_dom) (simp add: R(4))
  qed
  moreover have co: "coins (set_view c True st) ac' = coins c ac"
    by (simp add: coins_def bd F(1) R(3) algebra_simps)
  ultimately have "cinv p2a (set_view c True st) ac'" using R(2) i(4) by (simp add: cinv_def)
  moreover have "(\<Sum>a\<leftarrow>?as. if a = b then mval fsum (frozens ?st) (h, a) * coin else 0) = mval fsum (frozens ?st) (h, b) * coin" for b
  proof -
    have "(\<Sum>a\<leftarrow>?as. if a = b then mval fsum (frozens ?st) (h, a) * coin else 0) =
        (\<Sum>a\<in>set ?as. if a = b then mval fsum (frozens ?st) (h, a) * coin else 0)"
      using fo(1) by (simp add: sum_list_distinct_conv_sum_set)
    also have "\<dots> = (if b \<in> set ?as then mval fsum (frozens ?st) (h, b) * coin else 0)" by simp
    also have "\<dots> = mval fsum (frozens ?st) (h, b) * coin" using fo(2) by (auto simp: mval_def)
    finally show ?thesis .
  qed
  moreover have "\<forall>a. frozens st (h, a) = None" using F(5) fo(2) by auto
  ultimately show ?thesis using U co bd F(3) R by auto
qed

section \<open>Blocks\<close>

lemma cinv_frame:
  "cinv p2a c ac \<Longrightarrow> vexec c' = vexec c \<Longrightarrow> cinv p2a c' ac \<and> coins c' ac = coins c ac"
  by (simp add: cinv_def coins_def)

lemma reset_step:
  assumes "cinv p2a c ac"
  shows "cinv p2a (set_view c True (resetAllMissedBlockCount (vexec c))) ac \<and>
    coins (set_view c True (resetAllMissedBlockCount (vexec c))) ac = coins c ac"
  using assms missed_irrelevant[of "resetAllMissedBlockCount (vexec c)" "vexec c"]
  by (simp add: cinv_def coins_def resetAllMissedBlockCount_def)

lemma BeginBlock_step:
  assumes inv: "cinv p2a c ac" and g: "0 \<le> SlashRate g" "SlashRate g \<le> 100" "InflationCycleBlocks g \<noteq> 0"
  shows "\<exists>c' ac'. VPowerCtrler_BeginBlock g b c ac = Ret (c', ac', None) \<and> cinv p2a c' ac' \<and> coins c' ac' = coins c ac"
proof -
  obtain c1 ac1 where 1: "punishByzantines g c ac (biByzantine (blockInfo b)) = (c1, ac1, None)" "cinv p2a c1 ac1"
      "coins c1 ac1 = coins c ac"
    using slash_step[OF inv g(1,2)] by blast
  obtain c2 where 2: "punishAllMissing g (Height b) c1 (biVotes (blockInfo b)) = (c2, None)" "cinv p2a c2 ac1"
      "coins c2 ac1 = coins c1 ac1"
    using missing_step[OF 1(2)] by blast
  define c3 where "c3 = (if Height b > 0 \<and> Height b mod InflationCycleBlocks g = 0
    then set_view c2 True (resetAllMissedBlockCount (vexec c2)) else c2)"
  have 3: "cinv p2a c3 ac1 \<and> coins c3 ac1 = coins c2 ac1" using reset_step[OF 2(2)] 2(2) by (simp add: c3_def)
  have "VPowerCtrler_BeginBlock g b c ac = Ret (if biVotes (blockInfo b) = [] then c1
      else c3\<lparr>vpowLimiter := Limiter_Reset (vpowLimiter c3) (sumPowerOfValidators c3) (MaxUpdatablePowerRate g)\<rparr>, ac1, None)"
    using g(3) by (simp add: VPowerCtrler_BeginBlock_def 1(1) 2(1) c3_def Let_def)
  moreover note cinv_frame[OF conjunct1[OF 3]]
  ultimately show ?thesis using 1 2 3 by auto
qed

lemma updateValidators_total:
  "0 \<le> maxVals \<Longrightarrow> \<exists>ups new ds. updateValidators all lasts maxVals = Some (ups, new, ds)"
  by (auto simp: updateValidators_def selectValidators_def Let_def not_less split: prod.splits)

lemma EndBlock_step:
  assumes inv: "cinv p2a c ac" and g: "0 \<le> MaxValidatorCnt g"
  shows "\<exists>c' ac' b'. VPowerCtrler_EndBlock g b c ac = Ret (c', ac', b', None) \<and> cinv p2a c' ac' \<and>
    coins c' ac' = coins c ac \<and> (\<forall>a. frozens (vexec c') (Height b, a) = None) \<and> dgts (vexec c') = dgts (vexec c) \<and>
    (\<forall>a. uint (bal ac' a) = uint (bal ac a) + mval fsum (frozens (vexec c)) (Height b, a) * coin)"
proof -
  define c0 where "c0 = c\<lparr>vpowLimiter := Limiter_Reset (vpowLimiter c) (sumPowerOfValidators c) (MaxUpdatablePowerRate g)\<rparr>"
  have 0: "vexec c0 = vexec c" "cinv p2a c0 ac" "coins c0 ac = coins c ac"
    using cinv_frame[OF inv, of c0] by (simp_all add: c0_def)
  obtain st ac' where U: "unfreezePowerChunk (vexec c0) ac (Height b) = (st, ac', None)"
      "cinv p2a (set_view c0 True st) ac'" "coins (set_view c0 True st) ac' = coins c0 ac"
      "\<forall>a. frozens st (Height b, a) = None" "dgts st = dgts (vexec c0)"
      "\<forall>a. uint (bal ac' a) = uint (bal ac a) + mval fsum (frozens (vexec c0)) (Height b, a) * coin"
    using unfreeze_step[OF 0(2), of "Height b"] by blast
  obtain ups new ds where V: "updateValidators (loadDelegatees st) (map oval (lastValidators (set_view c0 True st)))
      (MaxValidatorCnt g) = Some (ups, new, ds)"
    using updateValidators_total[OF g] by blast
  let ?c = "(set_view c0 True st)\<lparr>allDelegatees := map own ds, lastValidators := map own new\<rparr>"
  have "VPowerCtrler_EndBlock g b c ac = Ret (?c, ac', SetValUpdates b ups, None)"
    by (simp add: VPowerCtrler_EndBlock_def Let_def c0_def[symmetric] U(1) V)
  moreover have "cinv p2a ?c ac' \<and> coins ?c ac' = coins (set_view c0 True st) ac'" by (rule cinv_frame[OF U(2)]) simp
  ultimately show ?thesis using U 0 by auto
qed

lemma Commit_step: "cinv p2a c ac \<Longrightarrow> cinv p2a (VPowerCtrler_Commit c) ac \<and> coins (VPowerCtrler_Commit c) ac = coins c ac"
  by (rule cinv_frame) (simp_all add: VPowerCtrler_Commit_def)

end
