(* ===== verification/VPower_Steps.thy ===== *)
theory VPower_Steps
  imports VPower_Ctrler_Inv
begin

text \<open>
  The voting power controller and the accounts as a transition system: validated staking and
  unstaking transactions, the block hooks and the commit, in any order. Properties of the controller
  over all runs, and two behaviours at its border with the genesis state.
\<close>

section \<open>The transition system\<close>

definition gov_sane :: "GovParams \<Rightarrow> bool" where
  "gov_sane g \<longleftrightarrow> 0 \<le> SlashRate g \<and> SlashRate g \<le> 100 \<and> InflationCycleBlocks g \<noteq> 0 \<and> 0 \<le> MaxValidatorCnt g"

text \<open>
  A staking transaction that reaches execution has a sender whose public key has its address and whose
  balance covers the amount: \<open>NewTrxContext\<close> and the common validation check it. The result of the
  operation, an error included, is the next state.
\<close>

inductive vstep :: "(bytes \<Rightarrow> addr) \<Rightarrow> VPowerCtrler \<times> AcctCtrler \<Rightarrow> VPowerCtrler \<times> AcctCtrler \<Rightarrow> bool" for p2a where
  stake: "\<lbrakk>validateStaking g c ctx = Ret (c1, Inr opt); Exec ctx; ctx_current ac ctx;
     p2a (SenderPubKey ctx) = txFrom (Tx ctx); txAmount (Tx ctx) \<le> bal ac (txFrom (Tx ctx));
     execBonding p2a c1 ac h ctx opt = (c', ac', e)\<rbrakk> \<Longrightarrow> vstep p2a (c, ac) (c', ac')"
| unstake: "\<lbrakk>validateUnstaking c ctx = Ret (c1, Inr opt); Exec ctx; exeUnbonding g c1 h ctx opt = Ret (c', e)\<rbrakk> \<Longrightarrow>
     vstep p2a (c, ac) (c', ac)"
| begin_block: "\<lbrakk>gov_sane g; VPowerCtrler_BeginBlock g b c ac = Ret (c', ac', e)\<rbrakk> \<Longrightarrow> vstep p2a (c, ac) (c', ac')"
| end_block: "\<lbrakk>gov_sane g; VPowerCtrler_EndBlock g b c ac = Ret (c', ac', b', e)\<rbrakk> \<Longrightarrow> vstep p2a (c, ac) (c', ac')"
| commit: "vstep p2a (c, ac) (VPowerCtrler_Commit c, ac)"

inductive vsteps :: "(bytes \<Rightarrow> addr) \<Rightarrow> VPowerCtrler \<times> AcctCtrler \<Rightarrow> VPowerCtrler \<times> AcctCtrler \<Rightarrow> bool" for p2a where
  refl: "vsteps p2a s s"
| step: "\<lbrakk>vsteps p2a s t; vstep p2a t u\<rbrakk> \<Longrightarrow> vsteps p2a s u"

lemma vstep_inv:
  assumes "vstep p2a (c, ac) (c', ac')" "cinv p2a c ac"
  shows "cinv p2a c' ac' \<and> coins c' ac' = coins c ac"
  using assms(1)
proof cases
  case (stake g ctx c1 opt h e)
  then show ?thesis using stake_step[OF assms(2) stake(1-5), of h] by auto
next
  case (unstake ctx c1 opt g h e)
  then show ?thesis using unstake_step[OF assms(2) unstake(2,3), of g h] by auto
next
  case (begin_block g b e)
  then show ?thesis using BeginBlock_step[OF assms(2), of g b] by (auto simp: gov_sane_def)
next
  case (end_block g b b' e)
  then show ?thesis using EndBlock_step[OF assms(2), of g b] by (auto simp: gov_sane_def)
next
  case commit
  then show ?thesis using Commit_step[OF assms(2)] by auto
qed

lemma vsteps_inv:
  assumes "vsteps p2a s t" "cinv p2a (fst s) (snd s)"
  shows "cinv p2a (fst t) (snd t) \<and> coins (fst t) (snd t) = coins (fst s) (snd s)"
  using assms
proof (induction rule: vsteps.induct)
  case (step s t u)
  then show ?case using vstep_inv[of p2a "fst t" "snd t" "fst u" "snd u"] by simp
qed simp

section \<open>Properties\<close>

text \<open>
  (C1) Conservation of coins: in every run of staking, unstaking, slashing, forced release, refunds and
  commits, coins are neither created nor destroyed - balances plus bonded plus frozen power is constant
  - and the ledgers stay well formed: totals of delegatees and delegators agree with the power chunks,
  every owner of power has an account.
\<close>

theorem staking_conserves_coins:
  assumes "cinv p2a c ac" "vsteps p2a (c, ac) (c', ac')"
  shows "coins c' ac' = coins c ac \<and> cinv p2a c' ac'"
  using vsteps_inv[OF assms(2)] assms(1) by simp

text \<open>
  (C26) Executing a validated staking transaction succeeds, debits the sender exactly the staked amount,
  bonds exactly the corresponding power to the delegatee, and nothing else changes balance.
\<close>

theorem staking_moves_amount:
  assumes "cinv p2a c ac" "validateStaking g c ctx = Ret (c1, Inr opt)" "Exec ctx" "ctx_current ac ctx"
    and "p2a (SenderPubKey ctx) = txFrom (Tx ctx)" "txAmount (Tx ctx) \<le> bal ac (txFrom (Tx ctx))"
  shows "\<exists>c' ac'. execBonding p2a c1 ac h ctx opt = (c', ac', None) \<and> cinv p2a c' ac' \<and>
    bonded (vexec c') = bonded (vexec c) + boPower opt \<and> frozens (vexec c') = frozens (vexec c) \<and>
    PowerToAmount (boPower opt) = txAmount (Tx ctx) \<and>
    bal ac' = (bal ac)(txFrom (Tx ctx) := bal ac (txFrom (Tx ctx)) - txAmount (Tx ctx))"
  using stake_step[OF assms, of h] by auto


text \<open>
  (C28) Refunds happen: the end of the block at height \<open>h\<close> succeeds, credits every owner of power frozen
  until \<open>h\<close> its full amount, and leaves nothing frozen at \<open>h\<close>.
\<close>

theorem EndBlock_refunds:
  assumes "cinv p2a c ac" "0 \<le> MaxValidatorCnt g"
  shows "\<exists>c' ac' b'. VPowerCtrler_EndBlock g b c ac = Ret (c', ac', b', None) \<and>
    (\<forall>a. uint (bal ac' a) = uint (bal ac a) + mval fsum (frozens (vexec c)) (Height b, a) * coin) \<and>
    (\<forall>a. frozens (vexec c') (Height b, a) = None) \<and> coins c' ac' = coins c ac"
  using EndBlock_step[OF assms, of b] by blast

section \<open>Concrete runs\<close>

definition ctx_stake :: TrxContext where
  "ctx_stake = \<lparr>Tx = (tx_ex [])\<lparr>txTo := Some (addr_ex 1), txAmount := 150000000000000000000000, txType := TRX_STAKING\<rparr>,
     TxIdx = 0, TxHash = replicate 32 9, Exec = True, SenderPubKey = [3], Sender = 0, Receiver = 0, Payer = 0, GasUsed = 0\<rparr>"

definition ac_ex :: AcctCtrler where
  "ac_ex = (accts_ex 0)\<lparr>heap := (\<lambda>_. (NewAccount (addr_ex 1))\<lparr>Balance := 200000000000000000000000\<rparr>),
     atree := [addr_ex 1 \<mapsto> (NewAccount (addr_ex 1))\<lparr>Balance := 200000000000000000000000\<rparr>],
     cached := [addr_ex 1 \<mapsto> 0], nextref := 1\<rparr>"

definition vst_ex :: vstate where
  "vst_ex = \<lparr>dgts = Map.empty, vpows = Map.empty, frozens = Map.empty, missed = Map.empty\<rparr>"

definition vc_ex :: VPowerCtrler where
  "vc_ex = \<lparr>vexec = vst_ex, vcheck = vst_ex, allDelegatees = [], lastValidators = [],
     vpowLimiter = Limiter_Reset NewVPowerLimiter 1000000 33\<rparr>"

lemma ex_inv: "cinv (\<lambda>_. addr_ex 1) vc_ex ac_ex"
proof -
  have "ainv ac_ex" by (auto simp: ac_ex_def accts_ex_def NewAcctCtrler_def NewAccount_def ainv_def split: if_splits)
  moreover have "vinv (\<lambda>_. addr_ex 1) vst_ex"
    by (simp add: vinv_def vbase_def vst_ex_def bonded_def frozen_sum_def msum_def max_power_def)
  moreover have "wealth ac_ex = 200000 * coin" by (simp add: wealth_def ac_ex_def msum_def coin_def)
  ultimately show ?thesis
    by (simp add: cinv_def coins_def vc_ex_def owners_exist_def vst_ex_def bonded_def frozen_sum_def msum_def max_power_def coin_def)
qed

lemma ex_validated:
  "\<exists>c1 opt. validateStaking DefaultGovParams vc_ex ctx_stake = Ret (c1, Inr opt) \<and> boPower opt = 150000"
proof -
  let ?amt = "150000000000000000000000 :: uint256"
  have g: "MinValidatorPower DefaultGovParams = 100000" by (simp add: DefaultGovParams_def NewGovParams_def Let_def)
  have q: "?amt div AmountPerPower = 150000" "?amt mod AmountPerPower = 0"
    by (simp_all add: word_arith_nat_div word_arith_nat_mod AmountPerPower_def amountPerPower_val)
  have "CheckLimit (vpowLimiter vc_ex) 150000 ADD_POWER = Ret ((vpowLimiter vc_ex)\<lparr>estimatedTotalPower := 1150000, addingPower := 150000\<rparr>, None)"
    by (simp add: CheckLimit_def checkTotalPower_def vc_ex_def Limiter_Reset_def ADD_POWER_def SUB_POWER_def Let_def
        i64_small i32_percent)
  then show ?thesis
    by (simp add: validateStaking_def ctx_stake_def tx_ex_def Let_def q Sign_small sgn_if Uint64_def i64_small
        optDelegatee_def readDelegatee_def vview_def vc_ex_def vst_ex_def check_delegation_def g opt_bytes_def bytes_Equal_def)
qed

lemma ex_context:
  "Exec ctx_stake" "ctx_current ac_ex ctx_stake" "txAmount (Tx ctx_stake) \<le> bal ac_ex (txFrom (Tx ctx_stake))"
  "txFrom (Tx ctx_stake) = addr_ex 1" "txAmount (Tx ctx_stake) = 150000000000000000000000"
  by (simp_all add: ctx_stake_def tx_ex_def ctx_current_def current_def ac_ex_def accts_ex_def to_addr_def payer_addr_def
      opt_bytes_def NewAccount_def bal_def mval_def addr_ex_def NewAcctCtrler_def)

theorem staking_conserves_coins_witness:
  "\<exists>c' ac'. vsteps (\<lambda>_. addr_ex 1) (vc_ex, ac_ex) (c', ac') \<and> bonded (vexec c') = 150000 \<and>
     coins c' ac' = 200000 * coin"
proof -
  obtain c1 opt where v: "validateStaking DefaultGovParams vc_ex ctx_stake = Ret (c1, Inr opt)" "boPower opt = 150000"
    using ex_validated by blast
  obtain c' ac' where e: "execBonding (\<lambda>_. addr_ex 1) c1 ac_ex 1 ctx_stake opt = (c', ac', None)"
      "bonded (vexec c') = bonded (vexec vc_ex) + 150000"
    using stake_step[OF ex_inv v(1) ex_context(1,2) _ ex_context(3), of 1] ex_context(4) v(2) by auto
  have "vstep (\<lambda>_. addr_ex 1) (vc_ex, ac_ex) (c', ac')"
    by (rule vstep.stake[OF v(1) ex_context(1,2) _ ex_context(3) e(1)]) (simp add: ex_context(4))
  then have s: "vsteps (\<lambda>_. addr_ex 1) (vc_ex, ac_ex) (c', ac')" using vsteps.refl vsteps.step by blast
  have "coins vc_ex ac_ex = 200000 * coin"
    by (simp add: coins_def wealth_def ac_ex_def msum_def coin_def vc_ex_def vst_ex_def bonded_def frozen_sum_def)
  then have "coins c' ac' = 200000 * coin" using staking_conserves_coins[OF ex_inv s] by simp
  moreover have "bonded (vexec vc_ex) = 0" by (simp add: vc_ex_def vst_ex_def bonded_def msum_def)
  ultimately show ?thesis using s e(2) by auto
qed

theorem staking_moves_amount_witness:
  "\<exists>c1 opt c' ac'. validateStaking DefaultGovParams vc_ex ctx_stake = Ret (c1, Inr opt) \<and>
     execBonding (\<lambda>_. addr_ex 1) c1 ac_ex 1 ctx_stake opt = (c', ac', None) \<and>
     bal ac' (addr_ex 1) = 50000000000000000000000"
proof -
  obtain c1 opt where v: "validateStaking DefaultGovParams vc_ex ctx_stake = Ret (c1, Inr opt)"
    using ex_validated by blast
  have "bal ac_ex (addr_ex 1) = 200000000000000000000000" by (simp add: bal_def ac_ex_def)
  then show ?thesis
    using staking_moves_amount[OF ex_inv v ex_context(1,2) _ ex_context(3), of 1] v by (auto simp: ex_context(4,5))
qed

definition vst_bonded :: vstate where
  "vst_bonded = \<lparr>dgts = [addr_ex 1 \<mapsto> \<lparr>PubKey = [3], Delegators = [addr_ex 1], dSumPower = 150000, dSelfPower = 150000, daddr = addr_ex 1\<rparr>],
     vpows = [(addr_ex 1, addr_ex 1) \<mapsto> \<lparr>vSumPower = 150000,
       vPowerChunks = [\<lparr>cPower = 150000, cHeight = 1, cTxHash = replicate 32 9\<rparr>], vfrom = addr_ex 1, vto = addr_ex 1\<rparr>],
     frozens = [(5, addr_ex 1) \<mapsto> \<lparr>RefundPower = 20, fPowerChunks = [\<lparr>cPower = 20, cHeight = 1, cTxHash = replicate 32 8\<rparr>]\<rparr>],
     missed = Map.empty\<rparr>"

lemma ex_bonded_inv: "cinv (\<lambda>_. addr_ex 1) (vc_ex\<lparr>vexec := vst_bonded\<rparr>) ac_ex"
proof -
  have into: "into a Map.empty = Map.empty" for a by (simp add: into_def)
  have "vinv (\<lambda>_. addr_ex 1) vst_bonded"
    by (auto simp: vinv_def vbase_def vst_bonded_def bonded_def frozen_sum_def msum_def mval_def max_power_def vp_ok_def
        fz_ok_def dgt_ok_def csum_def fsum_def into split: if_splits)
  then show ?thesis using ex_inv unfolding cinv_def
    by (auto simp: cinv_def coins_def owners_exist_def vst_bonded_def bonded_def frozen_sum_def msum_def mval_def
      max_power_def coin_def csum_def fsum_def ac_ex_def wealth_def split: if_splits)
qed

definition ctx_unstake :: TrxContext where
  "ctx_unstake = ctx_stake\<lparr>Tx := (Tx ctx_stake)\<lparr>txType := TRX_UNSTAKING, txPayload := Some (TrxPayloadUnstaking (replicate 32 9))\<rparr>\<rparr>"


theorem EndBlock_refunds_witness:
  "\<exists>c' ac' b'. VPowerCtrler_EndBlock DefaultGovParams bctx_ex (vc_ex\<lparr>vexec := vst_bonded\<rparr>) ac_ex = Ret (c', ac', b', None) \<and>
     uint (bal ac' (addr_ex 1)) = 200020 * coin"
proof -
  have "0 \<le> MaxValidatorCnt DefaultGovParams" by (simp add: DefaultGovParams_def NewGovParams_def Let_def)
  moreover have "uint (bal ac_ex (addr_ex 1)) + mval fsum (frozens vst_bonded) (5, addr_ex 1) * coin = 200020 * coin"
    by (simp add: bal_def ac_ex_def vst_bonded_def fsum_def coin_def mval_def)
  moreover have "Height bctx_ex = 5" by (simp add: bctx_ex_def Height_def)
  ultimately show ?thesis using EndBlock_refunds[OF ex_bonded_inv, of DefaultGovParams bctx_ex] by auto
qed

section \<open>At the border with genesis\<close>

lemma refundFrozen_stuck:
  assumes "ainv ac" "a \<in> set as" "frozens st (h, a) \<noteq> None" "atree ac a = None"
  shows "\<exists>ac' done e. refundFrozen st h ac as = (ac', done, Some e)"
  using assms
proof (induction as arbitrary: ac)
  case (Cons b as)
  show ?case
  proof (cases "frozens st (h, b)")
    case None
    then have "a \<noteq> b" using Cons.prems(3) by auto
    then have "a \<in> set as" using Cons.prems(2) by simp
    from Cons.IH[OF Cons.prems(1) this Cons.prems(3,4)] None show ?thesis by auto
  next
    case (Some z)
    let ?amt = "PowerToAmount (RefundPower z)"
    show ?thesis
    proof (cases "\<exists>ac1 e. AcctCtrler_Reward ac b ?amt True = (ac1, Some e)")
      case True
      then show ?thesis using Some by auto
    next
      case False
      then obtain ac1 where r: "AcctCtrler_Reward ac b ?amt True = (ac1, None)"
        by (metis not_None_eq surj_pair)
      obtain ac0 i where f: "findAccount ac b True = (ac0, i)" by (cases "findAccount ac b True")
      have i: "i \<noteq> None" "0 \<le> Sign ?amt"
        using r f by (auto simp: AcctCtrler_Reward_def Account_AddBalance_def split: option.splits if_splits)
      have "atree ac b \<noteq> None" using findAccount_exec[OF Cons.prems(1) f] i by auto
      from Reward_exec[OF Cons.prems(1) i(2) this] obtain x where x: "ainv ac1" "atree ac1 = (atree ac)(b \<mapsto> x)"
        using r by auto
      have "a \<noteq> b" using \<open>atree ac b \<noteq> None\<close> Cons.prems(4) by auto
      then have "a \<in> set as" "atree ac1 a = None" using Cons.prems(2,4) x(2) by auto
      from Cons.IH[OF x(1) this(1) Cons.prems(3) this(2)] r Some show ?thesis by auto
    qed
  qed
qed simp

text \<open>
  (C34) If power frozen until this height belongs to an address without an account - the validators of
  the genesis file need none - the end of the block fails with an error.
\<close>

theorem refund_needs_account:
  assumes "ainv ac" "finite (dom (frozens (vexec c)))" "frozens (vexec c) (Height b, a) \<noteq> None" "atree ac a = None"
  shows "\<exists>c' ac' e. VPowerCtrler_EndBlock g b c ac = Ret (c', ac', b, Some e)"
proof -
  have "a \<in> set (frozen_owners (vexec c) (Height b))" using frozen_owners_props(2)[OF assms(2)] assms(3) by simp
  from refundFrozen_stuck[OF assms(1) this assms(3,4)] show ?thesis
    by (auto simp: VPowerCtrler_EndBlock_def unfreezePowerChunk_def Let_def)
qed

theorem refund_needs_account_witness:
  "\<exists>c' ac' e. VPowerCtrler_EndBlock DefaultGovParams bctx_ex (vc_ex\<lparr>vexec := vst_bonded\<rparr>) (NewAcctCtrler Map.empty) =
     Ret (c', ac', bctx_ex, Some e)"
proof -
  have "ainv (NewAcctCtrler Map.empty)" by (simp add: ainv_def NewAcctCtrler_def)
  then show ?thesis
    using refund_needs_account[of "NewAcctCtrler Map.empty" "vc_ex\<lparr>vexec := vst_bonded\<rparr>" bctx_ex "addr_ex 1" DefaultGovParams]
    by (simp add: vst_bonded_def bctx_ex_def Height_def NewAcctCtrler_def)
qed



end
