(* ===== verification/Gov_Steps.thy ===== *)
theory Gov_Steps
  imports Gov_Inv VPower_Steps
begin

text \<open>
  Governance over all runs. The contract between the voting power controller and governance is the
  locale \<open>validator_source\<close>: the validators have distinct addresses, no negative power and the
  reported total. The controller's end of block establishes it, and governance relies on it.
\<close>

section \<open>The contract of the validator set\<close>

locale validator_source =
  fixes ok :: "'c \<Rightarrow> bool" and vals :: "'c \<Rightarrow> (addr \<times> int) list \<times> int" and isval :: "'c \<Rightarrow> addr \<Rightarrow> bool"
  assumes vals_sound: "ok c \<Longrightarrow> vals_ok (vals c)"
    and isval_member: "ok c \<Longrightarrow> isval c a \<longleftrightarrow> a \<in> fst ` set (fst (vals c))"
begin

lemma proposal_made:
  assumes "gov_ok J g" "json_uniform J" "ok c" "validateProposal J (isval c) g h ctx = Ret None" "Exec ctx"
  shows "\<exists>g' p. execProposing (vals c) g ctx = Ret (g', None) \<and> gov_ok J g' \<and> govParams g' = govParams g \<and>
    props (gexec g') = (props (gexec g))(TxHash ctx \<mapsto> p) \<and> props (gexec g) (TxHash ctx) = None \<and>
    TotalVotingPower p = snd (vals c) \<and> (\<forall>a. IsVoter p a \<longleftrightarrow> isval c a)"
proof -
  obtain g' p where P: "execProposing (vals c) g ctx = Ret (g', None)" "gov_ok J g'" "govParams g' = govParams g"
      "props (gexec g') = (props (gexec g))(TxHash ctx \<mapsto> p)" "props (gexec g) (TxHash ctx) = None"
      "TotalVotingPower p = snd (vals c)"
      "Voters p = map (\<lambda>(a, pw). \<lparr>voAddress = a, voPower = pw, voChoice = NOT_CHOICE\<rparr>) (fst (vals c))"
    using propose_step[OF assms(1,2,4,5) vals_sound[OF assms(3)]] by blast
  have "IsVoter p a \<longleftrightarrow> isval c a" for a
    unfolding isval_member[OF assms(3)] IsVoter_def P(7) by (force simp: list_ex_iff bytes_Equal_def)
  then show ?thesis using P by blast
qed

end

text \<open>The last validators of the voting power controller.\<close>

definition valset_ok :: "VPowerCtrler \<Rightarrow> bool" where
  "valset_ok c \<longleftrightarrow> distinct (map (\<lambda>v. daddr (oval v)) (lastValidators c)) \<and>
     (\<forall>v \<in> set (lastValidators c). 0 \<le> dSumPower (oval v)) \<and>
     (\<Sum>v\<leftarrow>lastValidators c. dSumPower (oval v)) \<le> max_power"

lemma foldl_i64_powers:
  assumes "\<forall>v \<in> set vs. 0 \<le> f v" "0 \<le> t" "t + (\<Sum>v\<leftarrow>vs. f v) \<le> max_power"
  shows "foldl (\<lambda>t v. i64 (t + f v)) t vs = t + (\<Sum>v\<leftarrow>vs. f v)"
  using assms
proof (induction vs arbitrary: t)
  case (Cons v vs)
  have "0 \<le> (\<Sum>v\<leftarrow>vs. f v)" using Cons.prems(1) by (intro sum_list_nonneg) auto
  then have "i64 (t + f v) = t + f v" using Cons.prems by (intro i64_id in64_power) auto
  then show ?case using Cons.IH[of "t + f v"] Cons.prems by (simp add: add.assoc)
qed simp

interpretation vpv: validator_source valset_ok Validators IsValidator
proof
  fix c assume v: "valset_ok c"
  have t: "sumPowerOfValidators c = (\<Sum>v\<leftarrow>lastValidators c. dSumPower (oval v))"
    using foldl_i64_powers[of "lastValidators c" "\<lambda>v. dSumPower (oval v)" 0] v by (simp add: sumPowerOfValidators_def valset_ok_def)
  show "vals_ok (Validators c)"
    using v by (auto simp: vals_ok_def Validators_def t valset_ok_def comp_def)
  show "IsValidator c a \<longleftrightarrow> a \<in> fst ` set (fst (Validators c))" for a
    by (auto simp: IsValidator_def Validators_def list_ex_iff bytes_Equal_def image_iff)
qed

text \<open>Every end of a block of the voting power controller establishes the contract.\<close>

lemma delegated_le_bonded:
  assumes "vbase st" "finite A"
  shows "(\<Sum>a\<in>A. msum csum (into a (vpows st))) \<le> bonded st"
proof -
  let ?m = "vpows st"
  have f: "finite (dom ?m)" using vbaseD(1)[OF assms(1)] .
  have fi: "finite (dom (into a ?m))" for a using finite_into f by blast
  have "(\<Sum>a\<in>A. msum csum (into a ?m)) = (\<Sum>(a, k)\<in>Sigma A (\<lambda>a. dom (into a ?m)). csum (the (?m (k, a))))"
    unfolding msum_def using assms(2) fi by (subst sum.Sigma) (auto simp: into_def)
  also have "\<dots> = (\<Sum>(k, a)\<in>{(k, a). a \<in> A \<and> (k, a) \<in> dom ?m}. csum (the (?m (k, a))))"
    by (rule sum.reindex_bij_witness[of _ "\<lambda>(k, a). (a, k)" "\<lambda>(a, k). (k, a)"]) (auto simp: into_def)
  also have "\<dots> \<le> (\<Sum>(k, a)\<in>dom ?m. csum (the (?m (k, a))))"
  proof (rule sum_mono2)
    show "finite (dom ?m)" by (rule f)
    show "{(k, a). a \<in> A \<and> (k, a) \<in> dom ?m} \<subseteq> dom ?m" by auto
    show "0 \<le> (case b of (k, a) \<Rightarrow> csum (the (?m (k, a))))" if "b \<in> dom ?m - {(k, a). a \<in> A \<and> (k, a) \<in> dom ?m}" for b
      using that csum_nonneg[OF assms(1)] by (cases b) auto
  qed
  also have "\<dots> = bonded st" by (simp add: bonded_def msum_def case_prod_beta)
  finally show ?thesis .
qed

lemma distinct_sub:
  assumes "mset xs \<subseteq># mset ys" "distinct ys"
  shows "distinct xs"
proof -
  obtain M where "mset ys = mset xs + M" using assms(1) by (auto simp: mset_subset_eq_exists_conv)
  moreover obtain zs where "mset zs = M" using ex_mset by blast
  ultimately have "mset ys = mset (xs @ zs)" by simp
  then have "distinct (xs @ zs)" using assms(2) mset_eq_imp_distinct_iff by blast
  then show ?thesis by simp
qed

lemma updateValidators_sub:
  assumes "updateValidators all lasts n = Some (ups, new, ds)"
  shows "mset new \<subseteq># mset all"
proof -
  let ?s = "sort_by OrderByPower_Less all" and ?k = "nat (min (int (length all)) n)"
  have "new = sort_by OrderByPub_Less (take ?k ?s)"
    using assms by (auto simp: updateValidators_def selectValidators_def validatorUpdates_def Let_def split: if_splits)
  then have "mset new = mset (take ?k ?s)" by simp
  moreover have "mset (take ?k ?s) \<subseteq># mset ?s"
    by (metis append_take_drop_id mset_append mset_subset_eq_add_left)
  ultimately show ?thesis by simp
qed

lemma EndBlock_valset:
  assumes inv: "cinv p2a c ac" and g: "0 \<le> MaxValidatorCnt g"
    and e: "VPowerCtrler_EndBlock g b c ac = Ret (c', ac', b', None)"
  shows "valset_ok c'"
proof -
  obtain ups new ds lasts where L: "lastValidators c' = map own new"
      "updateValidators (loadDelegatees (vexec c')) lasts (MaxValidatorCnt g) = Some (ups, new, ds)"
    using e by (auto simp: VPowerCtrler_EndBlock_def Let_def split: prod.splits option.splits)
  have "cinv p2a c' ac'" using EndBlock_step[OF inv g, of b] e by auto
  then have i: "vinv p2a (vexec c')" by (simp add: cinv_def)
  let ?st = "vexec c'" let ?all = "loadDelegatees ?st"
  have dd: "d \<in> set ?all \<Longrightarrow> dSumPower d = msum csum (into (daddr d) (vpows ?st))" for d
    using vinvD(2)[OF i] vinvD(3)[OF i] by (auto simp: loadDelegatees_def dgt_ok_def)
  have "map daddr ?all = sorted_list_of_set (dom (dgts ?st))"
    unfolding loadDelegatees_def map_map comp_def
    by (rule map_idI) (use vinvD(2,3)[OF i] in \<open>auto simp: dgt_ok_def\<close>)
  then have "distinct (map daddr ?all)" using vinvD(2)[OF i] by simp
  have sub: "mset new \<subseteq># mset ?all" by (rule updateValidators_sub[OF L(2)])
  then have "mset (map daddr new) \<subseteq># mset (map daddr ?all)" by (simp add: image_mset_subseteq_mono)
  then have d: "distinct (map daddr new)" using \<open>distinct (map daddr ?all)\<close> by (rule distinct_sub)
  have new: "d \<in> set new \<Longrightarrow> d \<in> set ?all" for d using sub by (meson mset_subset_eqD set_mset_mset in_multiset_in_set)
  have "(\<Sum>d\<leftarrow>new. dSumPower d) = (\<Sum>d\<leftarrow>new. msum csum (into (daddr d) (vpows ?st)))"
    using new dd by (metis (no_types, lifting) map_cong)
  also have "\<dots> = (\<Sum>a\<leftarrow>map daddr new. msum csum (into a (vpows ?st)))" by (simp add: comp_def)
  also have "\<dots> = (\<Sum>a\<in>set (map daddr new). msum csum (into a (vpows ?st)))"
    using d by (rule sum_list_distinct_conv_sum_set)
  also have "\<dots> \<le> bonded ?st" by (rule delegated_le_bonded[OF vinvD(1)[OF i]]) simp
  finally have "(\<Sum>d\<leftarrow>new. dSumPower d) \<le> max_power"
    using vbaseD(6)[OF vinvD(1)[OF i]] frozen_nonneg[OF vinvD(1)[OF i]] by linarith
  moreover have "0 \<le> dSumPower d" if "d \<in> set new" for d
    using dd[OF new[OF that]] into_nonneg[OF vinvD(1)[OF i]] by simp
  ultimately show ?thesis using d L(1) by (simp add: valset_ok_def own_def comp_def)
qed

section \<open>Runs\<close>

inductive gstep :: "gov_json \<Rightarrow> GovCtrler \<Rightarrow> GovCtrler \<Rightarrow> bool" for J where
  propose: "\<lbrakk>valset_ok v; validateProposal J (IsValidator v) c h ctx = Ret None; Exec ctx;
     execProposing (Validators v) c ctx = Ret (c', e)\<rbrakk> \<Longrightarrow> gstep J c c'"
| vote: "\<lbrakk>validateVoting c h ctx = None; Exec ctx; execVoting c ctx = Ret (c', e)\<rbrakk> \<Longrightarrow> gstep J c c'"
| begin_block: "\<lbrakk>0 \<le> SlashRate (govParams c); SlashRate (govParams c) \<le> 100; GovCtrler_BeginBlock b c = Ret c'\<rbrakk> \<Longrightarrow> gstep J c c'"
| end_block: "GovCtrler_EndBlock J b c = Ret (c', e) \<Longrightarrow> gstep J c c'"
| commit: "gstep J c (GovCtrler_Commit c)"

lemma gstep_ok:
  assumes "gstep J c c'" "json_uniform J" "gov_ok J c"
  shows "gov_ok J c' \<and> (govParams c' = govParams c \<or> voted J (govParams c) (govParams c'))"
  using assms(1)
proof cases
  case (propose v h ctx e)
  then show ?thesis using vpv.proposal_made[OF assms(3,2) propose(1-3)] by auto
next
  case (vote h ctx e)
  then show ?thesis using vote_step[OF assms(3) vote(1,2)] by auto
next
  case (begin_block b)
  then show ?thesis using gov_punish_ok[OF assms(3) begin_block(1,2), of "biByzantine (blockInfo b)"]
    by (auto simp: GovCtrler_BeginBlock_def)
next
  case (end_block b e)
  then show ?thesis using EndBlock_ok[OF assms(3), of b] by auto
next
  case commit
  then show ?thesis using assms(3) by (auto simp: GovCtrler_Commit_def gov_ok_def Let_def split: option.splits)
qed

text \<open>
  (C3) Governance invariant: in every state reached by proposals, votes, slashing, block ends and
  commits, the count of every option of every open proposal is the power of the voters that chose it,
  totals and majorities agree with the voters, and the end of a block neither fails nor panics.
\<close>

theorem governance_invariant:
  assumes "json_uniform J" "gov_ok J c" "rtranclp (gstep J) c c'"
  shows "gov_ok J c' \<and> (\<exists>c''. GovCtrler_EndBlock J b c' = Ret (c'', None))"
proof -
  have "gov_ok J c'" using assms(3) by (induction rule: rtranclp_induct) (use assms(1,2) gstep_ok in blast)+
  then show ?thesis using EndBlock_ok by blast
qed



text \<open>
  (C30) A validated vote succeeds and moves exactly the voter's power from the option chosen before, if
  any, to the option chosen now.
\<close>

theorem vote_moves_power:
  assumes "gov_ok J c" "validateVoting c h ctx = None" "Exec ctx"
  shows "\<exists>c' k choice p w p'. execVoting c ctx = Ret (c', None) \<and> txPayload (Tx ctx) = Some (TrxPayloadVoting k choice) \<and>
    props (gexec c) k = Some p \<and> findVoter p (txFrom (Tx ctx)) = Some w \<and> props (gexec c') = (props (gexec c))(k \<mapsto> p') \<and>
    length (Options p') = length (Options p) \<and>
    (\<forall>i < length (Options p). opVotes (Options p' ! i) = opVotes (Options p ! i) -
       (if voChoice w = int i then voPower w else 0) + (if choice = int i then voPower w else 0))"
proof -
  obtain c' k choice p w p' where V: "txPayload (Tx ctx) = Some (TrxPayloadVoting k choice)" "execVoting c ctx = Ret (c', None)"
      "gov_ok J c'" "props (gexec c) k = Some p" "findVoter p (txFrom (Tx ctx)) = Some w"
      "props (gexec c') = (props (gexec c))(k \<mapsto> p')" "length (Options p') = length (Options p)"
      "Voters p' = set_voter (Voters p) (txFrom (Tx ctx)) (w\<lparr>voChoice := choice\<rparr>)"
    using vote_step[OF assms] by blast
  have "props (gexec c') k = Some p'" using V(6) by simp
  then have ok: "prop_ok p" "prop_ok p'"
    using ginvD(3)[of J "gexec c" k p] ginvD(3)[of J "gexec c'" k p'] assms(1) V(3,4) by (auto simp: gov_ok_def open_ok_def)
  have "opVotes (Options p' ! i) = opVotes (Options p ! i) - (if voChoice w = int i then voPower w else 0) +
      (if choice = int i then voPower w else 0)" if "i < length (Options p)" for i
    using prop_okD(5)[OF ok(1) that] prop_okD(5)[OF ok(2)] that V(7,8) find_voter[OF V(5)]
      set_voter_eq(1)[of "txFrom (Tx ctx)" "Voters p" w "w\<lparr>voChoice := choice\<rparr>" i] by simp
  then show ?thesis using V by blast
qed

text \<open>
  (C33) A proposal of a validator with a parameter option that has a gas price or maximal supply which
  is not a decimal string makes the validation panic instead of refusing it.
\<close>

theorem bad_option_panics:
  assumes "bytes_Compare (opt_bytes (txTo (Tx ctx))) ZeroAddress = 0" "isVal (txFrom (Tx ctx))"
    and "txPayload (Tx ctx) = Some (TrxPayloadProposal pp)" "props (gview c (Exec ctx)) (TxHash ctx) = None"
    and "height < ppStartVotingHeight pp" "ppVotingPeriodBlocks pp \<le> MaxVotingPeriodBlocks (govParams c)"
    and "MinVotingPeriodBlocks (govParams c) \<le> ppVotingPeriodBlocks pp" "ppOptType pp = PROPOSAL_GOVPARAMS"
    and "ppOptions pp = b # bs" "jxMap J b = Inr ((''gasPrice'', v) # es)" "\<forall>s. v = JStr s \<longrightarrow> jxDecimal J s = None"
  shows "validateProposal J isVal c height ctx = Panic"
proof -
  have "conv_entry J ''gasPrice'' v = Panic" using assms(11) by (cases v) (simp_all add: conv_entry_def)
  then have "check_options J emptyGovParams (ppOptions pp) = Panic"
    using assms(9,10) by (simp add: GovParams_UnmarshalJSON_def)
  then show ?thesis using assms(1-8) by (simp add: validateProposal_def)
qed

text \<open>
  (C31) After the end of a block the validators have distinct addresses and non-negative power, and the
  reported total is the exact sum of their powers: it does not wrap around.
\<close>

theorem validators_total_exact:
  assumes "cinv p2a c ac" "0 \<le> MaxValidatorCnt g" "VPowerCtrler_EndBlock g b c ac = Ret (c', ac', b', None)"
  shows "distinct (map fst (fst (Validators c'))) \<and> (\<forall>v \<in> set (fst (Validators c')). 0 \<le> snd v) \<and>
    snd (Validators c') = sum_list (map snd (fst (Validators c'))) \<and> snd (Validators c') \<le> max_power"
  using vpv.vals_sound[OF EndBlock_valset[OF assms]] by (simp add: vals_ok_def)

text \<open>Of several parameter proposals that are due in one block only the last one has an effect.\<close>

lemma last_proposal_wins:
  assumes "fprops st k1 = Some p1" "fprops st k2 = Some p2" "ApplyHeight p1 \<le> h" "ApplyHeight p2 \<le> h"
    "PropType p1 = PROPOSAL_GOVPARAMS" "PropType p2 = PROPOSAL_GOVPARAMS" "MajorOption p1 = Some x1" "MajorOption p2 = Some x2"
    "GovParams_UnmarshalJSON J emptyGovParams (opOption x1) = Ret (Inr g1)"
    "GovParams_UnmarshalJSON J emptyGovParams (opOption x2) = Ret (Inr g2)"
  shows "apply_scan J g st h [k1, k2] new = Ret (Some (MergeGovParams g g2), [k1, k2], None)"
  using assms by simp

section \<open>Concrete runs\<close>

definition J_ex :: gov_json where
  "J_ex = \<lparr>jxMap = (\<lambda>b. if b = [9] then Inr [(''gasPrice'', JRest 5)] else Inr []),
     jxFill = (\<lambda>g es. Inr (g\<lparr>SlashRate := 7\<rparr>)), jxDecimal = (\<lambda>_. None)\<rparr>"

lemma J_ex_uniform: "json_uniform J_ex"
  by (simp add: json_uniform_def J_ex_def)

definition prop_ex :: GovProposal where
  "prop_ex = \<lparr>PropType = PROPOSAL_GOVPARAMS, prTxHash = [4], StartVotingHeight = 2, EndVotingHeight = 5, ApplyHeight = 9,
     TotalVotingPower = 12, MajorityPower = 8,
     Voters = [\<lparr>voAddress = addr_ex 1, voPower = 9, voChoice = 0\<rparr>, \<lparr>voAddress = addr_ex 2, voPower = 3, voChoice = -1\<rparr>],
     Options = [\<lparr>opOption = [8], opVotes = 9\<rparr>], MajorOption = None\<rparr>"

definition gov_ex_st :: GovCtrler where
  "gov_ex_st = (NewGovCtrler \<lparr>gitem = Some DefaultGovParams, props = [[4] \<mapsto> prop_ex], fprops = Map.empty\<rparr>)"

lemma parse_ex: "GovParams_UnmarshalJSON J_ex emptyGovParams [8] = Ret (Inr (emptyGovParams\<lparr>SlashRate := 7\<rparr>))"
  by (simp add: GovParams_UnmarshalJSON_def J_ex_def)

lemma prop_ex_ok: "prop_ok prop_ex"
  by (simp add: prop_ok_def prop_ex_def powsum_def max_power_def addr_ex_def)

lemma gov_ex_ok: "gov_ok J_ex gov_ex_st"
proof -
  have "open_ok J_ex [4] prop_ex" using prop_ex_ok parse_ex by (simp add: open_ok_def prop_ex_def parses_def)
  then show ?thesis by (simp add: gov_ok_def ginv_def gov_ex_st_def NewGovCtrler_def)
qed

theorem governance_invariant_witness:
  "\<exists>c. rtranclp (gstep J_ex) gov_ex_st c \<and> gov_ok J_ex c \<and> c = GovCtrler_Commit gov_ex_st"
proof -
  have "rtranclp (gstep J_ex) gov_ex_st (GovCtrler_Commit gov_ex_st)" by (rule r_into_rtranclp) (rule gstep.commit)
  then show ?thesis using governance_invariant[OF J_ex_uniform gov_ex_ok] by blast
qed



definition ctx_vote :: TrxContext where
  "ctx_vote = ctx_stake\<lparr>Tx := (Tx ctx_stake)\<lparr>txFrom := addr_ex 2, txTo := Some ZeroAddress, txType := TRX_VOTING,
     txPayload := Some (TrxPayloadVoting [4] 0)\<rparr>\<rparr>"

theorem vote_moves_power_witness:
  "\<exists>c' p. execVoting gov_ex_st ctx_vote = Ret (c', None) \<and> props (gexec c') [4] = Some p \<and> opVotes (Options p ! 0) = 12"
proof -
  have v: "validateVoting gov_ex_st 4 ctx_vote = None"
    by (simp add: validateVoting_def ctx_vote_def opt_bytes_def gview_def gov_ex_st_def NewGovCtrler_def prop_ex_def
        IsVoter_def bytes_Equal_def ctx_stake_def i32_percent Let_def)
  have e: "Exec ctx_vote" by (simp add: ctx_vote_def ctx_stake_def)
  have f: "findVoter prop_ex (addr_ex 2) = Some \<lparr>voAddress = addr_ex 2, voPower = 3, voChoice = -1\<rparr>"
    by (simp add: findVoter_def prop_ex_def bytes_Equal_def addr_ex_def)
  have x: "txPayload (Tx ctx_vote) = Some (TrxPayloadVoting [4] 0)" "txFrom (Tx ctx_vote) = addr_ex 2"
      "props (gexec gov_ex_st) [4] = Some prop_ex" "Options prop_ex = [\<lparr>opOption = [8], opVotes = 9\<rparr>]"
    by (simp_all add: ctx_vote_def gov_ex_st_def NewGovCtrler_def prop_ex_def)
  from vote_moves_power[OF gov_ex_ok v e] show ?thesis by (auto simp: x f)
qed

definition ctx_propose :: TrxContext where
  "ctx_propose = ctx_stake\<lparr>Tx := (Tx ctx_stake)\<lparr>txTo := Some ZeroAddress, txType := TRX_PROPOSAL,
     txPayload := Some (TrxPayloadProposal \<lparr>ppMessage = [], ppStartVotingHeight = 10, ppVotingPeriodBlocks = 86400,
       ppApplyingHeight = 200000, ppOptType = PROPOSAL_GOVPARAMS, ppOptions = [[9]]\<rparr>)\<rparr>\<rparr>"

theorem bad_option_panics_witness: "validateProposal J_ex (\<lambda>_. True) gov_ex_st 3 ctx_propose = Panic"
proof -
  have "length (replicate 32 (9 :: byte)) \<noteq> length [4 :: byte]" by simp
  then have r: "replicate 32 (9 :: byte) \<noteq> [4]" by metis
  show ?thesis
    by (rule bad_option_panics[where b = "[9]" and bs = "[]" and v = "JRest 5" and es = "[]" and
        pp = "\<lparr>ppMessage = [], ppStartVotingHeight = 10, ppVotingPeriodBlocks = 86400,
          ppApplyingHeight = 200000, ppOptType = PROPOSAL_GOVPARAMS, ppOptions = [[9]]\<rparr>"])
      (simp_all add: ctx_propose_def ctx_stake_def opt_bytes_def gview_def gov_ex_st_def NewGovCtrler_def
        DefaultGovParams_def NewGovParams_def Let_def DaySeconds_def J_ex_def r)
qed

theorem validators_total_exact_witness:
  "\<exists>c' ac' b'. VPowerCtrler_EndBlock DefaultGovParams bctx_ex (vc_ex\<lparr>vexec := vst_bonded\<rparr>) ac_ex = Ret (c', ac', b', None) \<and>
     snd (Validators c') = sum_list (map snd (fst (Validators c')))"
proof -
  have m: "0 \<le> MaxValidatorCnt DefaultGovParams" by (simp add: DefaultGovParams_def NewGovParams_def Let_def)
  obtain c' ac' b' where e: "VPowerCtrler_EndBlock DefaultGovParams bctx_ex (vc_ex\<lparr>vexec := vst_bonded\<rparr>) ac_ex = Ret (c', ac', b', None)"
    using EndBlock_step[OF ex_bonded_inv m] by blast
  then show ?thesis using validators_total_exact[OF ex_bonded_inv m e] by blast
qed

end
