(* ===== verification/Fxnum.thy ===== *)
theory Fxnum
  imports Units Complex_Main
begin

text \<open>
  The fixed-point numbers of \<open>src/libs/fxnum\<close> (\<open>fxnum_fixed.go\<close>, \<open>fixed_util.go\<close>, \<open>fxnum.go\<close>), wrappers around
  a fixed-point and a decimal library. The operations of the two libraries are parameters, collected in the records
  \<open>fixed_ops\<close> and \<open>decimal_ops\<close>; what is relied on of them is stated by the predicates \<open>fx_lawful\<close>, \<open>fx_raw\<close>
  and \<open>dec_lawful\<close>. The variable-length integers are those of Go's \<open>encoding/binary\<close>.
\<close>

section \<open>Numbers\<close>

record 'f fixed_ops =
  fxNewI :: "int \<Rightarrow> nat \<Rightarrow> 'f"
  fxAdd :: "'f \<Rightarrow> 'f \<Rightarrow> 'f"
  fxSub :: "'f \<Rightarrow> 'f \<Rightarrow> 'f"
  fxMul :: "'f \<Rightarrow> 'f \<Rightarrow> 'f"
  fxDiv :: "'f \<Rightarrow> 'f \<Rightarrow> 'f"
  fxCmp :: "'f \<Rightarrow> 'f \<Rightarrow> int"
  fxZERO :: 'f
  fxIsNaN :: "'f \<Rightarrow> bool"
  fxMarshalBinary :: "'f \<Rightarrow> bytes option"

record 'd decimal_ops =
  dNew :: "int \<Rightarrow> int \<Rightarrow> 'd"
  dNewFromInt :: "int \<Rightarrow> 'd"
  dNewFromBigInt :: "int \<Rightarrow> int \<Rightarrow> 'd"
  dZero :: 'd
  dUninit :: 'd
  dAdd :: "'d \<Rightarrow> 'd \<Rightarrow> 'd"
  dSub :: "'d \<Rightarrow> 'd \<Rightarrow> 'd"
  dMul :: "'d \<Rightarrow> 'd \<Rightarrow> 'd"
  dDiv :: "'d \<Rightarrow> 'd \<Rightarrow> 'd"
  dQuoRem :: "'d \<Rightarrow> 'd \<Rightarrow> int \<Rightarrow> 'd \<times> 'd"
  dPow :: "'d \<Rightarrow> 'd \<Rightarrow> 'd"
  dNeg :: "'d \<Rightarrow> 'd"
  dFloor :: "'d \<Rightarrow> 'd"
  dBigInt :: "'d \<Rightarrow> int"

definition FxNum_New :: "'f fixed_ops \<Rightarrow> int \<Rightarrow> nat \<Rightarrow> 'f" where
  "FxNum_New F v nexp = fxNewI F v nexp"

definition FxNum_FromInt :: "'f fixed_ops \<Rightarrow> int \<Rightarrow> 'f" where
  "FxNum_FromInt F v = FxNum_New F v 0"

definition FxNum_ZERO :: "'f fixed_ops \<Rightarrow> 'f" where "FxNum_ZERO F = FxNum_New F 0 0"
definition FxNum_ONE :: "'f fixed_ops \<Rightarrow> 'f" where "FxNum_ONE F = FxNum_New F 1 0"
definition FxNum_PercentBase :: "'f fixed_ops \<Rightarrow> 'f" where "FxNum_PercentBase F = FxNum_New F 100 0"
definition FxNum_PermilBase :: "'f fixed_ops \<Rightarrow> 'f" where "FxNum_PermilBase F = FxNum_New F 1000 0"

definition FxNum_QuoRem :: "'f fixed_ops \<Rightarrow> 'f \<Rightarrow> 'f \<Rightarrow> int \<Rightarrow> 'f \<times> 'f" where
  "FxNum_QuoRem F x y precision = (fxDiv F x y, fxZERO F)"

definition lnTerms :: nat where "lnTerms = 32"
definition expTerms :: nat where "expTerms = 32"

definition fixed_one :: "'f fixed_ops \<Rightarrow> 'f" where "fixed_one F = fxNewI F 1 0"

fun FixedLn_loop :: "'f fixed_ops \<Rightarrow> 'f \<Rightarrow> nat list \<Rightarrow> 'f \<Rightarrow> 'f \<Rightarrow> 'f" where
  "FixedLn_loop F t2 [] sum0 trm = sum0"
| "FixedLn_loop F t2 (k # ks) sum0 trm =
     (let trm' = fxMul F trm t2
      in FixedLn_loop F t2 ks (fxAdd F sum0 (fxDiv F trm' (fxNewI F (2 * int k + 1) 0))) trm')"

definition FixedLn :: "'f fixed_ops \<Rightarrow> 'f \<Rightarrow> 'f option" where
  "FixedLn F x =
     (if fxCmp F x (fxZERO F) \<le> 0 then None
      else (let t = fxDiv F (fxSub F x (fixed_one F)) (fxAdd F x (fixed_one F))
            in Some (fxMul F (FixedLn_loop F (fxMul F t t) [1..<lnTerms] t t) (fxNewI F 2 0))))"

fun FixedExp_loop :: "'f fixed_ops \<Rightarrow> 'f \<Rightarrow> nat \<Rightarrow> 'f \<Rightarrow> 'f" where
  "FixedExp_loop F x 0 s = s"
| "FixedExp_loop F x (Suc n) s =
     FixedExp_loop F x n (fxAdd F (fixed_one F) (fxMul F (fxDiv F x (fxNewI F (int (Suc n)) 0)) s))"

definition FixedExp :: "'f fixed_ops \<Rightarrow> 'f \<Rightarrow> 'f" where
  "FixedExp F x = FixedExp_loop F x expTerms (fixed_one F)"

definition FixedPow :: "'f fixed_ops \<Rightarrow> 'f \<Rightarrow> 'f \<Rightarrow> 'f option" where
  "FixedPow F base0 exponent =
     (case FixedLn F base0 of None \<Rightarrow> None | Some lnVal \<Rightarrow> Some (FixedExp F (fxMul F lnVal exponent)))"

text \<open>\<open>Pow\<close> drops the error, with which \<open>FixedPow\<close> returns zero.\<close>

definition FxNum_Pow :: "'f fixed_ops \<Rightarrow> 'f \<Rightarrow> 'f \<Rightarrow> 'f" where
  "FxNum_Pow F x y = (case FixedPow F x y of None \<Rightarrow> fxZERO F | Some r \<Rightarrow> r)"

definition FxNum_Percent :: "'f fixed_ops \<Rightarrow> int \<Rightarrow> 'f" where
  "FxNum_Percent F n = fxDiv F (FxNum_FromInt F n) (FxNum_PercentBase F)"

definition FxNum_Permil :: "'f fixed_ops \<Rightarrow> int \<Rightarrow> 'f" where
  "FxNum_Permil F n = fxDiv F (FxNum_FromInt F n) (FxNum_PermilBase F)"

section \<open>Conversion to decimals\<close>

fun Uvarint_loop :: "nat \<Rightarrow> nat \<Rightarrow> nat \<Rightarrow> bytes \<Rightarrow> nat \<times> int" where
  "Uvarint_loop i x s [] = (0, 0)"
| "Uvarint_loop i x s (b # bs) =
     (if i = 10 then (0, - (int i + 1))
      else if unat b < 128
      then (if i = 9 \<and> 1 < unat b then (0, - (int i + 1)) else (take_bit 64 (or x (push_bit s (unat b))), int i + 1))
      else Uvarint_loop (i + 1) (take_bit 64 (or x (push_bit s (unat b mod 128)))) (s + 7) bs)"

definition binary_Varint :: "bytes \<Rightarrow> int \<times> int" where
  "binary_Varint buf = (case Uvarint_loop 0 0 0 buf of (ux, n) \<Rightarrow>
     (let x = int (ux div 2) in (if odd ux then - x - 1 else x, n)))"

fun put_uvarint :: "nat \<Rightarrow> bytes" where
  "put_uvarint n = (if n < 128 then [of_nat n] else of_nat (n mod 128 + 128) # put_uvarint (n div 128))"

declare put_uvarint.simps [simp del]

definition put_varint :: "int \<Rightarrow> bytes" where
  "put_varint x = put_uvarint (nat (if x < 0 then - 2 * x - 1 else 2 * x))"

text \<open>An error leaves the caller with the zero \<open>decimal.Decimal\<close>.\<close>

definition FixedToDecimalByInt :: "'f fixed_ops \<Rightarrow> 'd decimal_ops \<Rightarrow> 'f \<Rightarrow> 'd option" where
  "FixedToDecimalByInt F D f =
     (if fxIsNaN F f then None
      else (case fxMarshalBinary F f of
              None \<Rightarrow> None
            | Some buf \<Rightarrow> Some (dNew D (fst (binary_Varint buf)) (-7))))"

definition ToDecimal :: "'f fixed_ops \<Rightarrow> 'd decimal_ops \<Rightarrow> 'f \<Rightarrow> 'd" where
  "ToDecimal F D x = (case FixedToDecimalByInt F D x of None \<Rightarrow> dUninit D | Some d \<Rightarrow> d)"

lemma or_shift: "x < 2 ^ s \<Longrightarrow> or x (push_bit s b) = x + b * 2 ^ s" for x b :: nat
proof -
  assume "x < 2 ^ s"
  then have "take_bit s x = x" by (simp add: take_bit_nat_eq_self_iff)
  moreover have "and (take_bit s x) (push_bit s b) = 0"
    by (rule bit_eqI) (auto simp: bit_simps)
  ultimately have "or x (push_bit s b) = x + push_bit s b"
    by (metis disjunctive_add_eq_or)
  then show ?thesis by (simp add: push_bit_eq_mult)
qed

lemma Uvarint_put:
  "i \<le> 9 \<Longrightarrow> x < 2 ^ (7 * i) \<Longrightarrow> n * 2 ^ (7 * i) < 2 ^ 64 \<Longrightarrow> x + n * 2 ^ (7 * i) < 2 ^ 64 \<Longrightarrow>
    fst (Uvarint_loop i x (7 * i) (put_uvarint n)) = x + n * 2 ^ (7 * i)"
proof (induction n arbitrary: i x rule: put_uvarint.induct)
  case (1 n)
  show ?case
  proof (cases "n < 128")
    case True
    have "\<not> (i = 9 \<and> 1 < n)"
    proof
      assume "i = 9 \<and> 1 < n"
      then have "2 * 2 ^ 63 \<le> n * 2 ^ (7 * i)" by (intro mult_mono) auto
      then show False using 1 by auto
    qed
    then show ?thesis using True 1 by (auto simp: put_uvarint.simps[of n] unat_of_nat or_shift take_bit_nat_eq_self_iff)
  next
    case False
    have "i \<le> 8"
    proof (rule ccontr)
      assume "\<not> i \<le> 8"
      then have "128 * 2 ^ 63 \<le> n * 2 ^ (7 * i)" using False by (intro mult_mono power_increasing) auto
      then show False using 1 by auto
    qed
    have "n * 2 ^ (7 * i) = (n div 128 * 128 + n mod 128) * 2 ^ (7 * i)" by simp
    then have e: "x + n * 2 ^ (7 * i) = x + n mod 128 * 2 ^ (7 * i) + n div 128 * 2 ^ (7 * (i + 1))"
      unfolding distrib_right by (simp add: power_add)
    have u: "unat (of_nat (n mod 128 + 128) :: byte) = n mod 128 + 128"
      by (simp only: unat_of_nat) (simp add: mod_less)
    let ?x = "x + n mod 128 * 2 ^ (7 * i)"
    have "n mod 128 * 2 ^ (7 * i) \<le> 127 * 2 ^ (7 * i)" by (intro mult_right_mono) auto
    moreover have "(2::nat) ^ (7 * (i + 1)) = 128 * 2 ^ (7 * i)" by (simp add: power_add)
    ultimately have x: "?x < 2 ^ (7 * (i + 1))" using 1(3) by linarith
    have x64: "?x < 2 ^ 64" using e 1 by linarith
    have "n div 128 * 2 ^ (7 * (i + 1)) < 2 ^ 64" using e 1 by linarith
    then have "fst (Uvarint_loop (i + 1) ?x (7 * (i + 1)) (put_uvarint (n div 128))) = ?x + n div 128 * 2 ^ (7 * (i + 1))"
      using 1 False \<open>i \<le> 8\<close> x e by (intro 1) auto
    moreover obtain b where b: "put_uvarint n = b # put_uvarint (n div 128)" "unat b = n mod 128 + 128"
      using False u put_uvarint.simps[of n] by metis
    ultimately show ?thesis using \<open>i \<le> 8\<close> 1(3) x64 e
      by (simp add: b or_shift take_bit_nat_eq_self add.commute)
  qed
qed

lemma Varint_put:
  assumes "in64 x"
  shows "fst (binary_Varint (put_varint x)) = x"
proof -
  define n where "n = nat (if x < 0 then - 2 * x - 1 else 2 * x)"
  have "n < 2 ^ 64" using assms by (auto simp: in64_def n_def)
  then have "fst (Uvarint_loop 0 0 0 (put_uvarint n)) = n" using Uvarint_put[of 0 0 n] by simp
  then have "fst (binary_Varint (put_varint x)) = (if odd n then - int (n div 2) - 1 else int (n div 2))"
    unfolding binary_Varint_def put_varint_def n_def[symmetric]
    by (cases "Uvarint_loop 0 0 0 (put_uvarint n)") (simp add: Let_def)
  moreover have "(if odd n then - int (n div 2) - 1 else int (n div 2)) = x"
  proof (cases "x < 0")
    case True
    then have "int n = - 2 * x - 1" by (simp add: n_def)
    then show ?thesis by presburger
  next
    case False
    then have "int n = 2 * x" by (simp add: n_def)
    then show ?thesis by presburger
  qed
  ultimately show ?thesis by simp
qed
section \<open>Laws of the numbers\<close>

text \<open>
  What is relied on of the fixed-point library: its addition is exact on the whole numbers in its range,
  and addition is a commutative monoid that subtraction undoes.
\<close>

definition fx_max :: int where "fx_max = 99999999999"

definition fx_lawful :: "'f fixed_ops \<Rightarrow> bool" where
  "fx_lawful F \<longleftrightarrow>
     (\<forall>x y z. fxAdd F (fxAdd F x y) z = fxAdd F x (fxAdd F y z)) \<and>
     (\<forall>x y. fxAdd F x y = fxAdd F y x) \<and>
     (\<forall>x. fxAdd F x (fxNewI F 0 0) = x) \<and>
     (\<forall>x y. fxAdd F y (fxSub F x y) = x) \<and>
     (\<forall>a b. 0 \<le> a \<and> 0 \<le> b \<and> a + b \<le> fx_max \<longrightarrow> fxNewI F (a + b) 0 = fxAdd F (fxNewI F a 0) (fxNewI F b 0))"

lemma fx_lawfulD:
  assumes "fx_lawful F"
  shows "fxAdd F (fxAdd F x y) z = fxAdd F x (fxAdd F y z)" "fxAdd F x y = fxAdd F y x"
    "fxAdd F x (FxNum_ZERO F) = x" "fxAdd F y (fxSub F x y) = x"
    "0 \<le> a \<Longrightarrow> 0 \<le> b \<Longrightarrow> a + b \<le> fx_max \<Longrightarrow> FxNum_FromInt F (a + b) = fxAdd F (FxNum_FromInt F a) (FxNum_FromInt F b)"
  using assms unfolding fx_lawful_def FxNum_ZERO_def FxNum_FromInt_def FxNum_New_def by blast+

lemma in64_fx: "0 \<le> a \<Longrightarrow> a \<le> fx_max \<Longrightarrow> i64 a = a"
  by (intro i64_id) (simp add: in64_def fx_max_def)

text \<open>The binary form of a fixed-point number is its count of \<open>10^-7\<close> as a variable-length integer.\<close>

definition fx_raw :: "'f fixed_ops \<Rightarrow> ('f \<Rightarrow> int) \<Rightarrow> bool" where
  "fx_raw F raw \<longleftrightarrow> (\<forall>x. \<not> fxIsNaN F x \<longrightarrow> in64 (raw x) \<and> fxMarshalBinary F x = Some (put_varint (raw x))) \<and>
     (\<forall>n. 0 \<le> n \<and> n \<le> fx_max \<longrightarrow> \<not> fxIsNaN F (fxNewI F n 0) \<and> raw (fxNewI F n 0) = n * 10 ^ 7)"

text \<open>
  Decimals are exact rational numbers: sums, differences and products are exact, quotients are cut at the
  precision, \<open>Floor\<close> and \<open>BigInt\<close> round down, and a non-positive power of a number from one up lies in the unit interval.
\<close>

definition dec_lawful :: "'d decimal_ops \<Rightarrow> ('d \<Rightarrow> rat) \<Rightarrow> bool" where
  "dec_lawful D val \<longleftrightarrow>
     (\<forall>a n. val (dNew D a (- int n)) = of_int a / 10 ^ n) \<and>
     (\<forall>a. val (dNewFromInt D a) = of_int a) \<and>
     (\<forall>a. val (dNewFromBigInt D a 0) = of_int a) \<and>
     val (dZero D) = 0 \<and>
     (\<forall>x y. val (dAdd D x y) = val x + val y) \<and>
     (\<forall>x y. val (dSub D x y) = val x - val y) \<and>
     (\<forall>x y. val (dMul D x y) = val x * val y) \<and>
     (\<forall>x. val (dNeg D x) = - val x) \<and>
     (\<forall>x. val (dFloor D x) = of_int \<lfloor>val x\<rfloor>) \<and>
     (\<forall>x. 0 \<le> val x \<longrightarrow> dBigInt D x = \<lfloor>val x\<rfloor>) \<and>
     (\<forall>x y. 0 \<le> val x \<and> val x \<le> val y \<and> 0 < val y \<longrightarrow> 0 \<le> val (dDiv D x y) \<and> val (dDiv D x y) \<le> 1) \<and>
     (\<forall>x y n. 0 \<le> val x \<and> 0 < val y \<longrightarrow>
        val (fst (dQuoRem D x y (int n))) = of_int \<lfloor>val x / val y * 10 ^ n\<rfloor> / 10 ^ n) \<and>
     (\<forall>x y. 1 \<le> val x \<and> val y \<le> 0 \<longrightarrow> 0 \<le> val (dPow D x y) \<and> val (dPow D x y) \<le> 1)"

lemma dec_lawfulD:
  assumes "dec_lawful D val"
  shows "val (dNew D a (- int n)) = of_int a / 10 ^ n" "val (dNewFromInt D a) = of_int a"
    "val (dNewFromBigInt D a 0) = of_int a" "val (dZero D) = 0" "val (dAdd D x y) = val x + val y"
    "val (dSub D x y) = val x - val y" "val (dMul D x y) = val x * val y" "val (dNeg D x) = - val x"
    "val (dFloor D x) = of_int \<lfloor>val x\<rfloor>" "0 \<le> val x \<Longrightarrow> dBigInt D x = \<lfloor>val x\<rfloor>"
    "0 \<le> val x \<Longrightarrow> val x \<le> val y \<Longrightarrow> 0 < val y \<Longrightarrow> 0 \<le> val (dDiv D x y) \<and> val (dDiv D x y) \<le> 1"
    "0 \<le> val x \<Longrightarrow> 0 < val y \<Longrightarrow> val (fst (dQuoRem D x y (int n))) = of_int \<lfloor>val x / val y * 10 ^ n\<rfloor> / 10 ^ n"
    "1 \<le> val x \<Longrightarrow> val y \<le> 0 \<Longrightarrow> 0 \<le> val (dPow D x y) \<and> val (dPow D x y) \<le> 1"
  using assms unfolding dec_lawful_def by blast+

lemma ToDecimal_val:
  assumes "fx_raw F raw" "dec_lawful D val" "\<not> fxIsNaN F x"
  shows "val (ToDecimal F D x) = of_int (raw x) / 10 ^ 7"
proof -
  have "in64 (raw x)" "fxMarshalBinary F x = Some (put_varint (raw x))" using assms(1,3) by (auto simp: fx_raw_def)
  then show ?thesis using dec_lawfulD(1)[OF assms(2), of "raw x" 7] Varint_put[of "raw x"] assms(3)
    by (simp add: ToDecimal_def FixedToDecimalByInt_def)
qed

lemma QuoRem_bounds:
  assumes "dec_lawful D val" "0 \<le> val x" "0 < val y"
  shows "0 \<le> val (fst (dQuoRem D x y (int n)))" "val (fst (dQuoRem D x y (int n))) \<le> val x / val y"
proof -
  note q = dec_lawfulD(12)[OF assms, of n]
  have "0 \<le> val x / val y * 10 ^ n" using assms by simp
  then show "0 \<le> val (fst (dQuoRem D x y (int n)))" by (simp add: q)
  have "of_int \<lfloor>val x / val y * 10 ^ n\<rfloor> \<le> val x / val y * 10 ^ n" by (rule of_int_floor_le)
  then show "val (fst (dQuoRem D x y (int n))) \<le> val x / val y" by (simp add: q divide_le_eq)
qed

section \<open>An instance\<close>

text \<open>Fixed-point numbers with seven decimals, as multiples of \<open>10^-7\<close>.\<close>

definition fx_ex :: "int fixed_ops" where
  "fx_ex = \<lparr>fxNewI = (\<lambda>v n. v * 10 ^ 7 div 10 ^ n), fxAdd = (+), fxSub = (-), fxMul = (\<lambda>x y. x * y div 10 ^ 7),
     fxDiv = (\<lambda>x y. x * 10 ^ 7 div y), fxCmp = (\<lambda>x y. sgn (x - y)), fxZERO = 0,
     fxIsNaN = (\<lambda>x. \<not> in64 x), fxMarshalBinary = (\<lambda>x. Some (put_varint x))\<rparr>"

lemma fx_ex_lawful: "fx_lawful fx_ex" "fxZERO fx_ex = fxNewI fx_ex 0 0"
  by (auto simp: fx_lawful_def fx_ex_def algebra_simps)

lemma fx_ex_raw: "fx_raw fx_ex (\<lambda>x. x)"
  by (auto simp: fx_raw_def fx_ex_def fx_max_def in64_def)

text \<open>Rational numbers for the decimals; powers with whole exponents.\<close>

definition dec_ex :: "rat decimal_ops" where
  "dec_ex = \<lparr>dNew = (\<lambda>a e. of_int a * 10 powi e), dNewFromInt = of_int, dNewFromBigInt = (\<lambda>a e. of_int a * 10 powi e),
     dZero = 0, dUninit = 0, dAdd = (+), dSub = (-), dMul = (*), dDiv = (/),
     dQuoRem = (\<lambda>x y n. (of_int \<lfloor>x / y * 10 ^ nat n\<rfloor> / 10 ^ nat n, 0)),
     dPow = (\<lambda>x y. x powi \<lfloor>y\<rfloor>), dNeg = uminus, dFloor = (\<lambda>x. of_int \<lfloor>x\<rfloor>), dBigInt = floor\<rparr>"

lemma dec_ex_lawful: "dec_lawful dec_ex (\<lambda>x. x)"
proof -
  have "0 \<le> x powi \<lfloor>y\<rfloor> \<and> x powi \<lfloor>y\<rfloor> \<le> 1" if "1 \<le> x" "y \<le> 0" for x y :: rat
  proof -
    have "\<lfloor>y\<rfloor> \<le> 0" using that by simp
    then obtain n where n: "\<lfloor>y\<rfloor> = - int n" by (metis minus_equation_iff nonneg_int_cases neg_0_le_iff_le)
    have "1 \<le> x ^ n" using that by simp
    then show ?thesis unfolding n by (simp add: power_int_minus field_simps)
  qed
  moreover have "x / y \<le> 1" if "x \<le> y" "0 < y" for x y :: rat using that by simp
  moreover have "of_int a * 10 powi (- int n) = of_int a / (10 :: rat) ^ n" for a n
    by (simp add: power_int_minus divide_inverse)
  ultimately show ?thesis by (auto simp: dec_lawful_def dec_ex_def)
qed

end
