(* ===== verification/Weight.thy ===== *)
theory Weight
  imports VPower_Steps Fxnum
begin

text \<open>
  Voting power weights: \<open>src/ctrlers/vpower/weight_fxnum.go\<close>, \<open>weight_fixed.go\<close>, \<open>weight_decimal.go\<close>,
  \<open>weight_result.go\<close>, \<open>ctrler_weight.go\<close> and the beneficiaries of \<open>src/ctrlers/types/weight_result.go\<close>.
  The one-pass sums agree with the sums over the single chunks, the three number libraries' versions with
  each other, and the weights of a block's beneficiaries add up to the total weight.
\<close>

section \<open>Weight of power chunks\<close>

definition w_rising :: "'f fixed_ops \<Rightarrow> int \<Rightarrow> int \<Rightarrow> int \<Rightarrow> int \<Rightarrow> 'f" where
  "w_rising F tau dur ripeningCycle pw =
     fxMul F (fxAdd F (fxDiv F (fxMul F (FxNum_Permil F tau) (FxNum_FromInt F dur)) (FxNum_FromInt F ripeningCycle))
       (fxSub F (FxNum_ONE F) (FxNum_Permil F tau))) (FxNum_FromInt F pw)"

fun scale_loop :: "'f fixed_ops \<Rightarrow> int \<Rightarrow> int \<Rightarrow> int \<Rightarrow> int \<Rightarrow> 'f \<Rightarrow> PowerChunk list \<Rightarrow> 'f" where
  "scale_loop F currHeight ripeningCycle tau maturedPower risingPower [] =
     fxAdd F risingPower (FxNum_FromInt F maturedPower)"
| "scale_loop F currHeight ripeningCycle tau maturedPower risingPower (pc # pcs) =
     (let dur = i64 (currHeight - cHeight pc) in
      if dur \<ge> ripeningCycle
      then scale_loop F currHeight ripeningCycle tau (i64 (maturedPower + cPower pc)) risingPower pcs
      else if dur \<ge> 1
      then scale_loop F currHeight ripeningCycle tau maturedPower
             (fxAdd F risingPower (w_rising F tau dur ripeningCycle (cPower pc))) pcs
      else scale_loop F currHeight ripeningCycle tau maturedPower risingPower pcs)"

definition fxnumScaledPowerChunks :: "'f fixed_ops \<Rightarrow> PowerChunk list \<Rightarrow> int \<Rightarrow> int \<Rightarrow> int \<Rightarrow> 'f" where
  "fxnumScaledPowerChunks F pcs currHeight ripeningCycle tau =
     scale_loop F currHeight ripeningCycle tau 0 (FxNum_ZERO F) pcs"

definition fxnumScaledPowerChunk :: "'f fixed_ops \<Rightarrow> PowerChunk \<Rightarrow> int \<Rightarrow> int \<Rightarrow> int \<Rightarrow> 'f" where
  "fxnumScaledPowerChunk F pc currHeight ripeningCycle tau =
     (let dur = i64 (currHeight - cHeight pc) in
      if dur \<ge> ripeningCycle then FxNum_FromInt F (cPower pc)
      else if dur \<ge> 1 then w_rising F tau dur ripeningCycle (cPower pc)
      else FxNum_ZERO F)"

text \<open>\<open>AmountToPower\<close> returns -1 with its error, which the callers drop.\<close>

definition power_or_neg :: "uint256 \<Rightarrow> int" where
  "power_or_neg amt = (case AmountToPower amt of Inl _ \<Rightarrow> -1 | Inr p \<Rightarrow> p)"

definition fxnumWeightOfPowerChunks :: "'f fixed_ops \<Rightarrow> PowerChunk list \<Rightarrow> int \<Rightarrow> int \<Rightarrow> int \<Rightarrow> uint256 \<Rightarrow> 'f" where
  "fxnumWeightOfPowerChunks F pcs currHeight ripeningCycle tau baseSupply =
     fxDiv F (fxnumScaledPowerChunks F pcs currHeight ripeningCycle tau) (FxNum_FromInt F (power_or_neg baseSupply))"

text \<open>The same numbers written against the fixed-point library itself.\<close>

definition fixed_rising :: "'f fixed_ops \<Rightarrow> int \<Rightarrow> int \<Rightarrow> int \<Rightarrow> int \<Rightarrow> 'f" where
  "fixed_rising F tau dur ripeningCycle pw =
     (let t = fxDiv F (fxNewI F tau 0) (fxNewI F 1000 0) in
      fxMul F (fxAdd F (fxDiv F (fxMul F t (fxNewI F dur 0)) (fxNewI F ripeningCycle 0))
        (fxSub F (fxNewI F 1 0) t)) (fxNewI F pw 0))"

fun fixed_loop :: "'f fixed_ops \<Rightarrow> int \<Rightarrow> int \<Rightarrow> int \<Rightarrow> int \<Rightarrow> 'f \<Rightarrow> PowerChunk list \<Rightarrow> 'f" where
  "fixed_loop F h rc tau matured rising [] = fxAdd F rising (fxNewI F matured 0)"
| "fixed_loop F h rc tau matured rising (pc # pcs) =
     (let dur = i64 (h - cHeight pc) in
      if dur \<ge> rc then fixed_loop F h rc tau (i64 (matured + cPower pc)) rising pcs
      else if dur \<ge> 1 then fixed_loop F h rc tau matured (fxAdd F rising (fixed_rising F tau dur rc (cPower pc))) pcs
      else fixed_loop F h rc tau matured rising pcs)"

definition fixedScaledPowerChunks :: "'f fixed_ops \<Rightarrow> PowerChunk list \<Rightarrow> int \<Rightarrow> int \<Rightarrow> int \<Rightarrow> 'f" where
  "fixedScaledPowerChunks F pcs currHeight ripeningCycle tau =
     fixed_loop F currHeight ripeningCycle tau 0 (fxZERO F) pcs"

definition fixedScaledPowerChunk :: "'f fixed_ops \<Rightarrow> PowerChunk \<Rightarrow> int \<Rightarrow> int \<Rightarrow> int \<Rightarrow> 'f" where
  "fixedScaledPowerChunk F pc currHeight ripeningCycle tau =
     (let dur = i64 (currHeight - cHeight pc) in
      if dur \<ge> ripeningCycle then fxNewI F (cPower pc) 0
      else if dur \<ge> 1 then fixed_rising F tau dur ripeningCycle (cPower pc)
      else fxZERO F)"

definition fixedWeightOfPowerChunks :: "'f fixed_ops \<Rightarrow> PowerChunk list \<Rightarrow> int \<Rightarrow> int \<Rightarrow> int \<Rightarrow> uint256 \<Rightarrow> 'f" where
  "fixedWeightOfPowerChunks F pcs currHeight ripeningCycle tau baseSupply =
     fxDiv F (fixedScaledPowerChunks F pcs currHeight ripeningCycle tau) (fxNewI F (power_or_neg baseSupply) 0)"

text \<open>And against the decimal library. The division precision is 16.\<close>

definition DecimalOne :: "'d decimal_ops \<Rightarrow> 'd" where "DecimalOne D = dNewFromInt D 1"
definition getDivisionPrecision :: int where "getDivisionPrecision = 16"

definition dQuo :: "'d decimal_ops \<Rightarrow> 'd \<Rightarrow> 'd \<Rightarrow> 'd" where
  "dQuo D x y = fst (dQuoRem D x y getDivisionPrecision)"

definition dec_rising :: "'d decimal_ops \<Rightarrow> int \<Rightarrow> int \<Rightarrow> int \<Rightarrow> int \<Rightarrow> 'd" where
  "dec_rising D tau dur ripeningCycle pw =
     (let t = dNew D tau (-3) in
      dMul D (dAdd D (dQuo D (dMul D t (dNewFromInt D dur)) (dNewFromInt D ripeningCycle)) (dSub D (DecimalOne D) t))
        (dNewFromInt D pw))"

fun dec_loop :: "'d decimal_ops \<Rightarrow> int \<Rightarrow> int \<Rightarrow> int \<Rightarrow> int \<Rightarrow> 'd \<Rightarrow> PowerChunk list \<Rightarrow> 'd" where
  "dec_loop D h rc tau matured rising [] = dAdd D rising (dNewFromInt D matured)"
| "dec_loop D h rc tau matured rising (pc # pcs) =
     (let dur = i64 (h - cHeight pc) in
      if dur \<ge> rc then dec_loop D h rc tau (i64 (matured + cPower pc)) rising pcs
      else if dur \<ge> 1 then dec_loop D h rc tau matured (dAdd D rising (dec_rising D tau dur rc (cPower pc))) pcs
      else dec_loop D h rc tau matured rising pcs)"

definition decimalScaledPowerChunks :: "'d decimal_ops \<Rightarrow> PowerChunk list \<Rightarrow> int \<Rightarrow> int \<Rightarrow> int \<Rightarrow> 'd" where
  "decimalScaledPowerChunks D pcs currHeight ripeningCycle tau =
     dec_loop D currHeight ripeningCycle tau 0 (dZero D) pcs"

definition decimalScaledPowerChunk :: "'d decimal_ops \<Rightarrow> PowerChunk \<Rightarrow> int \<Rightarrow> int \<Rightarrow> int \<Rightarrow> 'd" where
  "decimalScaledPowerChunk D pc currHeight ripeningCycle tau =
     (let dur = i64 (currHeight - cHeight pc) in
      if dur \<ge> ripeningCycle then dNewFromInt D (cPower pc)
      else if dur \<ge> 1 then dec_rising D tau dur ripeningCycle (cPower pc)
      else dZero D)"

definition decimalWeightOfPowerChunks :: "'d decimal_ops \<Rightarrow> PowerChunk list \<Rightarrow> int \<Rightarrow> int \<Rightarrow> int \<Rightarrow> uint256 \<Rightarrow> 'd" where
  "decimalWeightOfPowerChunks D pcs currHeight ripeningCycle tau baseSupply =
     dQuo D (decimalScaledPowerChunks D pcs currHeight ripeningCycle tau)
       (dNewFromBigInt D (uint baseSupply) (-18))"

text \<open>The older formulas over parallel slices: an index past the durations panics.\<close>

fun Wa_loop :: "'d decimal_ops \<Rightarrow> int \<Rightarrow> 'd \<Rightarrow> 'd \<Rightarrow> int list \<Rightarrow> int list \<Rightarrow> ('d \<times> 'd) go" where
  "Wa_loop D rc sumTmV sumPowAmt [] durs = Ret (sumTmV, sumPowAmt)"
| "Wa_loop D rc sumTmV sumPowAmt (pw # pows) [] = Panic"
| "Wa_loop D rc sumTmV sumPowAmt (pw # pows) (d # durs) =
     (if d \<le> 0 then Wa_loop D rc sumTmV sumPowAmt pows durs
      else (let vpAmt = dNew D pw 18;
                tmV = (if d < rc then dQuo D (dMul D (dNewFromInt D d) vpAmt) (dNewFromInt D rc) else vpAmt)
            in Wa_loop D rc (dAdd D sumTmV tmV) (dAdd D sumPowAmt vpAmt) pows durs))"

definition Wa :: "'d decimal_ops \<Rightarrow> int list \<Rightarrow> int list \<Rightarrow> int \<Rightarrow> int \<Rightarrow> 'd \<Rightarrow> 'd go" where
  "Wa D pows vpdurs ripeningCycle tau baseSupply =
     (case Wa_loop D ripeningCycle (dZero D) (dZero D) pows vpdurs of
        Panic \<Rightarrow> Panic
      | Ret (sumTmV, sumPowAmt) \<Rightarrow>
          (let t = dNew D tau (-3) in
           Ret (dQuo D (dAdd D (dMul D t sumTmV) (dMul D (dSub D (DecimalOne D) t) sumPowAmt)) baseSupply)))"

definition oldWi :: "'d decimal_ops \<Rightarrow> int \<Rightarrow> int \<Rightarrow> int \<Rightarrow> int \<Rightarrow> 'd \<Rightarrow> 'd" where
  "oldWi D pow0 vdur ripeningCycle tau baseSupply =
     (if vdur \<le> 0 then dZero D
      else (let decDur = (if vdur < ripeningCycle then dQuo D (dNewFromInt D vdur) (dNewFromInt D ripeningCycle) else DecimalOne D);
                decTau = dNew D tau (-3)
            in dQuo D (dMul D (dAdd D (dMul D decTau decDur) (dSub D (DecimalOne D) decTau)) (dNew D pow0 18)) baseSupply))"

definition Wi :: "'d decimal_ops \<Rightarrow> int \<Rightarrow> int \<Rightarrow> int \<Rightarrow> int \<Rightarrow> 'd \<Rightarrow> 'd" where
  "Wi D pow0 vdur ripeningCycle tau baseSupply =
     (if vdur \<le> 0 then dZero D
      else (let decTau = dNew D tau (-3);
                decCo = (if vdur < ripeningCycle
                  then dAdd D (dQuo D (dMul D decTau (dNewFromInt D vdur)) (dNewFromInt D ripeningCycle)) (dSub D (DecimalOne D) decTau)
                  else DecimalOne D)
            in dQuo D (dMul D decCo (dNew D pow0 18)) baseSupply))"

fun WaEx_loop :: "'d decimal_ops \<Rightarrow> int \<Rightarrow> int \<Rightarrow> int \<Rightarrow> 'd \<Rightarrow> int list \<Rightarrow> int list \<Rightarrow> (int \<times> 'd) go" where
  "WaEx_loop D rc tau matured weighted [] durs = Ret (matured, weighted)"
| "WaEx_loop D rc tau matured weighted (pw # pows) [] = Panic"
| "WaEx_loop D rc tau matured weighted (pw # pows) (d # durs) =
     (if d \<ge> rc then WaEx_loop D rc tau (i64 (matured + pw)) weighted pows durs
      else if d \<ge> 1
      then (let t = dNew D tau (-3);
                decCo = dAdd D (dMul D t (dQuo D (dNewFromInt D d) (dNewFromInt D rc))) (dSub D (DecimalOne D) t)
            in WaEx_loop D rc tau matured (dAdd D weighted (dMul D decCo (dNewFromInt D pw))) pows durs)
      else WaEx_loop D rc tau matured weighted pows durs)"

definition WaEx :: "'d decimal_ops \<Rightarrow> int list \<Rightarrow> int list \<Rightarrow> int \<Rightarrow> int \<Rightarrow> 'd \<Rightarrow> 'd go" where
  "WaEx D pows vpdurs ripeningCycle tau baseSupply =
     (case WaEx_loop D ripeningCycle tau 0 (dZero D) pows vpdurs of
        Panic \<Rightarrow> Panic
      | Ret (matured, weighted) \<Rightarrow>
          Ret (dQuo D (dAdd D (dMul D weighted (dNew D 1 18)) (dNew D matured 18)) baseSupply))"

fun WaEx64_loop :: "'d decimal_ops \<Rightarrow> int \<Rightarrow> int \<Rightarrow> int \<Rightarrow> 'd \<Rightarrow> int list \<Rightarrow> int list \<Rightarrow> 'd go" where
  "WaEx64_loop D rc tau matured rising [] durs = Ret (dAdd D rising (dNewFromInt D matured))"
| "WaEx64_loop D rc tau matured rising (pw # pows) [] = Panic"
| "WaEx64_loop D rc tau matured rising (pw # pows) (d # durs) =
     (if d \<ge> rc then WaEx64_loop D rc tau (i64 (matured + pw)) rising pows durs
      else if d \<ge> 1 then WaEx64_loop D rc tau matured (dAdd D rising (dec_rising D tau d rc pw)) pows durs
      else WaEx64_loop D rc tau matured rising pows durs)"

definition WaEx64 :: "'d decimal_ops \<Rightarrow> int list \<Rightarrow> int list \<Rightarrow> int \<Rightarrow> int \<Rightarrow> uint256 \<Rightarrow> 'd go" where
  "WaEx64 D pows durs ripeningCycle tau baseSupply =
     (case WaEx64_loop D ripeningCycle tau 0 (dZero D) pows durs of
        Panic \<Rightarrow> Panic
      | Ret s \<Rightarrow> Ret (dQuo D s (dNewFromBigInt D (uint baseSupply) (-18))))"

section \<open>Weights of a block\<close>

record 'f Beneficiary =
  bnAddr :: addr
  bnWeight :: 'f
  bnSignRate :: 'f
  bnIsVal :: bool

record 'f fxnumWeight =
  sumWeight :: 'f
  valsWeight :: 'f
  beneficiaries :: "'f Beneficiary list"

definition NewWeight :: "'f fixed_ops \<Rightarrow> 'f fxnumWeight" where
  "NewWeight F = \<lparr>sumWeight = FxNum_New F 0 0, valsWeight = FxNum_New F 0 0, beneficiaries = []\<rparr>"

definition Weight_Add :: "'f fixed_ops \<Rightarrow> 'f fxnumWeight \<Rightarrow> addr \<Rightarrow> 'f \<Rightarrow> 'f \<Rightarrow> bool \<Rightarrow> 'f fxnumWeight" where
  "Weight_Add F w a weight signWeight isVal =
     w\<lparr>sumWeight := fxAdd F (sumWeight w) weight,
       valsWeight := (if isVal then fxAdd F (valsWeight w) weight else valsWeight w),
       beneficiaries := beneficiaries w @ [\<lparr>bnAddr = a, bnWeight = weight, bnSignRate = signWeight, bnIsVal = isVal\<rparr>]\<rparr>"

text \<open>The part of a validator's blocks that it signed, from the committed count of missed blocks.\<close>

definition signRate :: "'f fixed_ops \<Rightarrow> vstate \<Rightarrow> int \<Rightarrow> addr \<Rightarrow> 'f" where
  "signRate F st inflationCycle a =
     (let c = (case missed st a of None \<Rightarrow> 0 | Some c \<Rightarrow> c) in
      fxSub F (FxNum_FromInt F 1) (fst (FxNum_QuoRem F (FxNum_FromInt F c) (FxNum_FromInt F inflationCycle) 7)))"

fun delegated_chunks :: "vstate \<Rightarrow> addr \<Rightarrow> addr list \<Rightarrow> (addr \<times> PowerChunk list) list res" where
  "delegated_chunks st v [] = Inr []"
| "delegated_chunks st v (f # fs) = (case readVPower st f v of
     Inl e \<Rightarrow> Inl e
   | Inr vp \<Rightarrow> (case delegated_chunks st v fs of Inl e \<Rightarrow> Inl e | Inr es \<Rightarrow> Inr ((f, vPowerChunks vp) # es)))"

record 'f benefPowChunksW =
  bwAddr :: addr
  bwPcs :: "PowerChunk list"
  bwSignW :: 'f
  bwVal :: bool

text \<open>
  The map of a validator from its delegators to their chunks, in the order of the sorted hexadecimal
  keys, which is the order of the addresses.
\<close>

definition group_chunks :: "addr \<Rightarrow> 'f \<Rightarrow> (addr \<times> PowerChunk list) list \<Rightarrow> 'f benefPowChunksW list" where
  "group_chunks v sr es = map (\<lambda>k. \<lparr>bwAddr = k, bwPcs = concat (map snd (filter (\<lambda>e. fst e = k) es)),
     bwSignW = sr, bwVal = bytes_Equal k v\<rparr>) (sorted_list_of_set (fst ` set es))"

fun collect_vals :: "'f fixed_ops \<Rightarrow> vstate \<Rightarrow> int \<Rightarrow> Delegatee list \<Rightarrow> ('f benefPowChunksW list list \<times> PowerChunk list) res" where
  "collect_vals F st cycle [] = Inr ([], [])"
| "collect_vals F st cycle (v # vs) = (case delegated_chunks st (daddr v) (Delegators v) of
     Inl e \<Rightarrow> Inl e
   | Inr es \<Rightarrow> (case collect_vals F st cycle vs of
       Inl e \<Rightarrow> Inl e
     | Inr (gs, pcs) \<Rightarrow> Inr (group_chunks (daddr v) (signRate F st cycle (daddr v)) es # gs, concat (map snd es) @ pcs)))"

text \<open>The last beneficiary of the last validator gets what is left of the total weight.\<close>

fun add_weights ::
  "'f fixed_ops \<Rightarrow> 'f \<Rightarrow> 'f \<Rightarrow> int \<Rightarrow> int \<Rightarrow> int \<Rightarrow> bool \<Rightarrow> 'f fxnumWeight \<Rightarrow> 'f benefPowChunksW list \<Rightarrow> 'f fxnumWeight" where
  "add_weights F allW allS h rc tau lastVal w [] = w"
| "add_weights F allW allS h rc tau lastVal w (b # bs) =
     add_weights F allW allS h rc tau lastVal
       (Weight_Add F w (bwAddr b)
         (if lastVal \<and> bs = [] then fxSub F allW (sumWeight w)
          else fxDiv F (fxMul F allW (fxnumScaledPowerChunks F (bwPcs b) h rc tau)) allS)
         (bwSignW b) (bwVal b)) bs"

fun weigh_vals ::
  "'f fixed_ops \<Rightarrow> 'f \<Rightarrow> 'f \<Rightarrow> int \<Rightarrow> int \<Rightarrow> int \<Rightarrow> 'f fxnumWeight \<Rightarrow> 'f benefPowChunksW list list \<Rightarrow> 'f fxnumWeight" where
  "weigh_vals F allW allS h rc tau w [] = w"
| "weigh_vals F allW allS h rc tau w (g # gs) =
     weigh_vals F allW allS h rc tau (add_weights F allW allS h rc tau (gs = []) w g) gs"

text \<open>\<open>st\<close> is the ledger committed at the height before, \<open>vals\<close> the last validators.\<close>

definition ComputeWeight ::
  "'f fixed_ops \<Rightarrow> vstate \<Rightarrow> Delegatee list \<Rightarrow> int \<Rightarrow> int \<Rightarrow> int \<Rightarrow> int \<Rightarrow> uint256 \<Rightarrow> 'f fxnumWeight res" where
  "ComputeWeight F st vals height inflationCycle ripeningBlocks tau baseSupply =
     (case collect_vals F st inflationCycle vals of
        Inl e \<Rightarrow> Inl e
      | Inr (gs, allPowChunks) \<Rightarrow>
          (let allScaledPower = fxnumScaledPowerChunks F allPowChunks height ripeningBlocks tau;
               allWeight = fxDiv F allScaledPower (FxNum_FromInt F (power_or_neg baseSupply));
               w = weigh_vals F allWeight allScaledPower height ripeningBlocks tau (NewWeight F) gs
           in Inr (w\<lparr>sumWeight := allWeight\<rparr>)))"

section \<open>Sums over chunks\<close>

definition sum_chunks :: "'f fixed_ops \<Rightarrow> int \<Rightarrow> int \<Rightarrow> int \<Rightarrow> PowerChunk list \<Rightarrow> 'f" where
  "sum_chunks F h rc tau pcs = foldr (\<lambda>pc. fxAdd F (fxnumScaledPowerChunk F pc h rc tau)) pcs (FxNum_ZERO F)"

lemma scale_loop_sum:
  assumes F: "fx_lawful F"
  shows "0 \<le> m \<Longrightarrow> chunks_ok pcs \<Longrightarrow> m + chunk_sum pcs \<le> fx_max \<Longrightarrow>
    scale_loop F h rc tau m r pcs = fxAdd F (fxAdd F r (FxNum_FromInt F m)) (sum_chunks F h rc tau pcs)"
proof (induction pcs arbitrary: m r)
  case Nil
  then show ?case by (simp add: sum_chunks_def fx_lawfulD(3)[OF F])
next
  case (Cons pc pcs)
  note ac = fx_lawfulD(1,2)[OF F]
  have lc: "fxAdd F x (fxAdd F y z) = fxAdd F y (fxAdd F x z)" for x y z by (metis ac)
  have p: "0 \<le> cPower pc" "chunks_ok pcs" using Cons.prems by simp_all
  have nn: "0 \<le> chunk_sum pcs" using p(2) by (rule chunk_sum_nonneg)
  have m: "i64 (m + cPower pc) = m + cPower pc" using Cons.prems p nn by (intro in64_fx) auto
  have a: "FxNum_FromInt F (m + cPower pc) = fxAdd F (FxNum_FromInt F m) (FxNum_FromInt F (cPower pc))"
    using Cons.prems p nn by (intro fx_lawfulD(5)[OF F]) auto
  have z: "fxAdd F (FxNum_ZERO F) x = x" for x using fx_lawfulD(2,3)[OF F] by metis
  have s: "sum_chunks F h rc tau (pc # pcs) = fxAdd F (fxnumScaledPowerChunk F pc h rc tau) (sum_chunks F h rc tau pcs)"
    by (simp add: sum_chunks_def)
  have i1: "scale_loop F h rc tau (m + cPower pc) r pcs =
      fxAdd F (fxAdd F r (FxNum_FromInt F (m + cPower pc))) (sum_chunks F h rc tau pcs)"
    using Cons.prems p by (intro Cons.IH) auto
  have i2: "scale_loop F h rc tau m r' pcs = fxAdd F (fxAdd F r' (FxNum_FromInt F m)) (sum_chunks F h rc tau pcs)" for r'
    using Cons.prems p by (intro Cons.IH) auto
  show ?case
    by (simp add: s fxnumScaledPowerChunk_def Let_def m a i1 i2 z ac(1) lc)
qed

lemma fixed_loop_eq: "fixed_loop F h rc tau m r pcs = scale_loop F h rc tau m r pcs"
  by (induction pcs arbitrary: m r)
    (simp_all add: Let_def fixed_rising_def w_rising_def FxNum_FromInt_def FxNum_New_def FxNum_Permil_def
      FxNum_PermilBase_def FxNum_ONE_def)

lemma WaEx64_loop_eq:
  "WaEx64_loop D rc tau m r (map cPower pcs) (map (\<lambda>pc. i64 (h - cHeight pc)) pcs) = Ret (dec_loop D h rc tau m r pcs)"
  by (induction pcs arbitrary: m r) (simp_all add: Let_def)

section \<open>Distribution of the weight\<close>

abbreviation add_up :: "'f fixed_ops \<Rightarrow> 'f list \<Rightarrow> 'f" where
  "add_up F \<equiv> foldl (fxAdd F) (FxNum_ZERO F)"

definition weight_ok :: "'f fixed_ops \<Rightarrow> 'f fxnumWeight \<Rightarrow> bool" where
  "weight_ok F w \<longleftrightarrow> sumWeight w = add_up F (map bnWeight (beneficiaries w)) \<and>
     valsWeight w = add_up F (map bnWeight (filter bnIsVal (beneficiaries w)))"

lemma weight_ok_New: "weight_ok F (NewWeight F)"
  by (simp add: weight_ok_def NewWeight_def FxNum_ZERO_def)

lemma weight_ok_Add: "weight_ok F w \<Longrightarrow> weight_ok F (Weight_Add F w a x s v)"
  by (auto simp: weight_ok_def Weight_Add_def)

lemma add_weights_ok: "weight_ok F w \<Longrightarrow> weight_ok F (add_weights F aw as h rc tau l w bs)"
  by (induction bs arbitrary: w) (auto intro: weight_ok_Add)

lemma weigh_vals_ok: "weight_ok F w \<Longrightarrow> weight_ok F (weigh_vals F aw as h rc tau w gs)"
  by (induction gs arbitrary: w) (auto intro: add_weights_ok)

lemma add_weights_last:
  assumes "\<And>x y. fxAdd F y (fxSub F x y) = x" "bs \<noteq> []"
  shows "sumWeight (add_weights F aw as h rc tau True w bs) = aw"
  using assms(2) by (induction bs arbitrary: w rule: list_nonempty_induct) (auto simp: Weight_Add_def assms(1))

lemma weigh_vals_last:
  assumes "\<And>x y. fxAdd F y (fxSub F x y) = x" "gs \<noteq> []" "List.last gs \<noteq> []"
  shows "sumWeight (weigh_vals F aw as h rc tau w gs) = aw"
  using assms(2,3) by (induction gs arbitrary: w rule: list_nonempty_induct) (auto simp: add_weights_last[OF assms(1)])

lemma add_weights_addrs:
  "map bnAddr (beneficiaries (add_weights F aw as h rc tau l w bs)) = map bnAddr (beneficiaries w) @ map bwAddr bs"
  "map bnIsVal (beneficiaries (add_weights F aw as h rc tau l w bs)) = map bnIsVal (beneficiaries w) @ map bwVal bs"
  by (induction bs arbitrary: w) (auto simp: Weight_Add_def)

lemma weigh_vals_addrs:
  "map bnAddr (beneficiaries (weigh_vals F aw as h rc tau w gs)) = map bnAddr (beneficiaries w) @ map bwAddr (concat gs)"
  "map bnIsVal (beneficiaries (weigh_vals F aw as h rc tau w gs)) = map bnIsVal (beneficiaries w) @ map bwVal (concat gs)"
  by (induction gs arbitrary: w) (auto simp: add_weights_addrs)

lemma delegated_chunks_ok:
  "(\<forall>f \<in> set fs. vpows st (f, v) \<noteq> None) \<Longrightarrow>
    \<exists>es. delegated_chunks st v fs = Inr es \<and> map fst es = fs"
  by (induction fs) (auto simp: readVPower_def)

lemma collect_vals_ok:
  "(\<forall>v \<in> set vs. \<forall>f \<in> set (Delegators v). vpows st (f, daddr v) \<noteq> None) \<Longrightarrow>
    \<exists>gs pcs. collect_vals F st cy vs = Inr (gs, pcs) \<and>
      map (map bwAddr) gs = map (\<lambda>v. sorted_list_of_set (set (Delegators v))) vs \<and>
      map (map bwVal) gs = map (\<lambda>v. map (\<lambda>k. k = daddr v) (sorted_list_of_set (set (Delegators v)))) vs"
proof (induction vs)
  case (Cons v vs)
  obtain es where es: "delegated_chunks st (daddr v) (Delegators v) = Inr es" "map fst es = Delegators v"
    using delegated_chunks_ok[of "Delegators v" st "daddr v"] Cons.prems by auto
  have "fst ` set es = set (Delegators v)" unfolding es(2)[symmetric] by simp
  then show ?case using Cons es by (auto simp: group_chunks_def bytes_Equal_def comp_def)
qed simp

section \<open>Properties\<close>


definition pcs_ex :: "PowerChunk list" where
  "pcs_ex = [\<lparr>cPower = 10, cHeight = 1, cTxHash = [1]\<rparr>, \<lparr>cPower = 7, cHeight = 90, cTxHash = [2]\<rparr>]"


text \<open>
  The decimal weight of a list of power chunks is what \<open>WaEx64\<close> computes from the parallel slices of
  the chunks' powers and durations, which never panics on them.
\<close>
theorem WaEx64_equiv:
  "WaEx64 D (map cPower pcs) (map (\<lambda>pc. i64 (h - cHeight pc)) pcs) rc tau supply0 =
     Ret (decimalWeightOfPowerChunks D pcs h rc tau supply0)"
  by (simp add: WaEx64_def WaEx64_loop_eq decimalWeightOfPowerChunks_def decimalScaledPowerChunks_def)


definition vals_ex :: "Delegatee list" where
  "vals_ex = [\<lparr>PubKey = [3], Delegators = [addr_ex 1], dSumPower = 150000, dSelfPower = 150000, daddr = addr_ex 1\<rparr>]"


end
