(* ===== verification/Supply.thy ===== *)
theory Supply
  imports Weight
begin

text \<open>
  The supply controller, \<open>src/ctrlers/supply\<close>: the total supply (\<open>supply.go\<close>), the rewards (\<open>reward.go\<close>,
  \<open>ctrler_reward.go\<close>), issuance (\<open>ctrler_mint.go\<close>), burning (\<open>ctrler_burn.go\<close>), transactions (\<open>ctrler.go\<close>) and
  blocks (\<open>ctrler_block.go\<close>). The two channels between the controller and the routine that computes the
  issuance have room for one message each, an option.
\<close>

section \<open>Total supply\<close>

record Supply =
  spHeight :: int
  spAdjustHeight :: int
  totalSupply :: uint256
  adjustSupply :: uint256
  schanged :: bool

definition NewSupply :: Supply where
  "NewSupply = \<lparr>spHeight = 0, spAdjustHeight = 0, totalSupply = 0, adjustSupply = 0, schanged = False\<rparr>"

definition Supply_Add :: "Supply \<Rightarrow> int \<Rightarrow> uint256 \<Rightarrow> Supply" where
  "Supply_Add s height amt = s\<lparr>totalSupply := totalSupply s + amt, spHeight := height, schanged := True\<rparr>"

definition Supply_Sub :: "Supply \<Rightarrow> int \<Rightarrow> uint256 \<Rightarrow> Supply" where
  "Supply_Sub s height amt = s\<lparr>totalSupply := totalSupply s - amt, spHeight := height, schanged := True\<rparr>"

definition AdjustAdd :: "Supply \<Rightarrow> int \<Rightarrow> uint256 \<Rightarrow> Supply" where
  "AdjustAdd s height amt =
     (let s1 = Supply_Add s height amt in s1\<lparr>adjustSupply := totalSupply s1, spAdjustHeight := height\<rparr>)"

definition AdjustSub :: "Supply \<Rightarrow> int \<Rightarrow> uint256 \<Rightarrow> Supply" where
  "AdjustSub s height amt =
     (let s1 = Supply_Sub s height amt in s1\<lparr>adjustSupply := totalSupply s1, spAdjustHeight := height\<rparr>)"

text \<open>The wire form; the protocol buffer library turns it into bytes and back.\<close>

record SupplyProto =
  pSupHeight :: int
  pAdjustHeight :: int
  pXTotalSupply :: bytes
  pXAdjustSupply :: bytes

definition Supply_toProto :: "Supply \<Rightarrow> SupplyProto" where
  "Supply_toProto s = \<lparr>pSupHeight = spHeight s, pAdjustHeight = spAdjustHeight s,
     pXTotalSupply = u256_Bytes (totalSupply s), pXAdjustSupply = u256_Bytes (adjustSupply s)\<rparr>"

definition Supply_fromProto :: "SupplyProto \<Rightarrow> bool \<Rightarrow> Supply" where
  "Supply_fromProto p ch = \<lparr>spHeight = pSupHeight p, spAdjustHeight = pAdjustHeight p,
     totalSupply = SetBytes (pXTotalSupply p), adjustSupply = SetBytes (pXAdjustSupply p), schanged = ch\<rparr>"

section \<open>Rewards\<close>

record Reward =
  rwAddress :: addr
  rwHeight :: int
  issued :: uint256
  withdrawn :: uint256
  slashed :: uint256
  cumulated :: uint256

definition NewReward :: "addr \<Rightarrow> Reward" where
  "NewReward a = \<lparr>rwAddress = a, rwHeight = 0, issued = 0, withdrawn = 0, slashed = 0, cumulated = 0\<rparr>"

record RewardProto =
  pRwAddress :: addr
  pRwHeight :: int
  pXIssued :: bytes
  pXWithdrawn :: bytes
  pXSlashed :: bytes
  pXCumulated :: bytes

definition Reward_toProto :: "Reward \<Rightarrow> RewardProto" where
  "Reward_toProto r = \<lparr>pRwAddress = rwAddress r, pRwHeight = rwHeight r, pXIssued = u256_Bytes (issued r),
     pXWithdrawn = u256_Bytes (withdrawn r), pXSlashed = u256_Bytes (slashed r), pXCumulated = u256_Bytes (cumulated r)\<rparr>"

definition Reward_fromProto :: "RewardProto \<Rightarrow> Reward" where
  "Reward_fromProto p = \<lparr>rwAddress = pRwAddress p, rwHeight = pRwHeight p, issued = SetBytes (pXIssued p),
     withdrawn = SetBytes (pXWithdrawn p), slashed = SetBytes (pXSlashed p), cumulated = SetBytes (pXCumulated p)\<rparr>"

definition Reward_Issue :: "Reward \<Rightarrow> uint256 \<Rightarrow> int \<Rightarrow> Reward go" where
  "Reward_Issue rwd r h =
     (if rwHeight rwd < h
      then Ret (rwd\<lparr>issued := r, withdrawn := 0, slashed := 0, rwHeight := h, cumulated := cumulated rwd + r\<rparr>)
      else if rwHeight rwd = h then Ret (rwd\<lparr>issued := issued rwd + r, cumulated := cumulated rwd + r\<rparr>)
      else Panic)"

definition Reward_Withdraw :: "Reward \<Rightarrow> uint256 \<Rightarrow> int \<Rightarrow> Reward go" where
  "Reward_Withdraw rwd r h =
     (if rwHeight rwd < h
      then Ret (rwd\<lparr>issued := 0, withdrawn := r, slashed := 0, rwHeight := h, cumulated := cumulated rwd - r\<rparr>)
      else if rwHeight rwd = h then Ret (rwd\<lparr>withdrawn := withdrawn rwd + r, cumulated := cumulated rwd - r\<rparr>)
      else Panic)"

definition Reward_Slash :: "Reward \<Rightarrow> uint256 \<Rightarrow> int \<Rightarrow> Reward go" where
  "Reward_Slash rwd r h =
     (if rwHeight rwd < h
      then Ret (rwd\<lparr>issued := 0, withdrawn := 0, slashed := r, rwHeight := h, cumulated := cumulated rwd - r\<rparr>)
      else if rwHeight rwd = h then Ret (rwd\<lparr>slashed := slashed rwd + r, cumulated := cumulated rwd - r\<rparr>)
      else Panic)"

section \<open>The controller\<close>

record sstate =
  stotal :: "Supply option"
  rewards :: "addr \<rightharpoonup> Reward"

record reqMint =
  rqHeight :: int
  rqTotalSupply :: uint256
  rqAdjustedSupply :: uint256
  rqAdjustedHeight :: int

record respMint =
  rsErr :: "xerror option"
  sumMintedAmt :: uint256
  rsRewards :: "(addr \<times> uint256) list"

record SupplyCtrler =
  sexec :: sstate
  scheck :: sstate
  lastTotalSupply :: Supply
  reqCh :: "reqMint option"
  respCh :: "respMint option"

text \<open>A ledger without a total supply is the one before genesis.\<close>

definition NewSupplyCtrler :: "sstate \<Rightarrow> SupplyCtrler" where
  "NewSupplyCtrler st = \<lparr>sexec = st, scheck = st,
     lastTotalSupply = (case stotal st of None \<Rightarrow> NewSupply | Some s \<Rightarrow> s\<lparr>schanged := False\<rparr>), reqCh = None, respCh = None\<rparr>"

definition SupplyCtrler_InitLedger :: "SupplyCtrler \<Rightarrow> uint256 \<Rightarrow> SupplyCtrler" where
  "SupplyCtrler_InitLedger c initSupply = c\<lparr>lastTotalSupply := AdjustAdd (lastTotalSupply c) 1 initSupply\<rparr>"

definition sview :: "SupplyCtrler \<Rightarrow> bool \<Rightarrow> sstate" where
  "sview c exec = (if exec then sexec c else scheck c)"

definition set_sview :: "SupplyCtrler \<Rightarrow> bool \<Rightarrow> sstate \<Rightarrow> SupplyCtrler" where
  "set_sview c exec st = (if exec then c\<lparr>sexec := st\<rparr> else c\<lparr>scheck := st\<rparr>)"

definition SupplyCtrler_ValidateTrx :: "SupplyCtrler \<Rightarrow> TrxContext \<Rightarrow> Reward res" where
  "SupplyCtrler_ValidateTrx c ctx =
     (if txType (Tx ctx) = TRX_WITHDRAW then
        (if Sign (txAmount (Tx ctx)) \<noteq> 0 then Inl (Wrapf ErrInvalidTrx ''amount must be 0'')
         else (case txPayload (Tx ctx) of
           Some (TrxPayloadWithdraw reqAmt) \<Rightarrow>
             (case rewards (sview c (Exec ctx)) (txFrom (Tx ctx)) of
                None \<Rightarrow> Inl ErrNotFoundResult
              | Some rwd \<Rightarrow> if reqAmt > cumulated rwd then Inl (Wrapf ErrInvalidTrx ''insufficient reward'') else Inr rwd)
         | _ \<Rightarrow> Inl ErrInvalidTrxPayloadType))
      else Inl ErrUnknownTrxType)"

definition withdrawReward ::
  "SupplyCtrler \<Rightarrow> AcctCtrler \<Rightarrow> Reward \<Rightarrow> uint256 \<Rightarrow> int \<Rightarrow> bool \<Rightarrow> (SupplyCtrler \<times> AcctCtrler \<times> xerror option) go" where
  "withdrawReward c ac currReward amt height exec =
     (case Reward_Withdraw currReward amt height of
        Panic \<Rightarrow> Panic
      | Ret r \<Rightarrow>
          (let st = sview c exec; a = rwAddress r;
               st' = st\<lparr>rewards := (rewards st)(a := if cumulated r = 0 then None else Some r)\<rparr>
           in case AcctCtrler_Reward ac a amt exec of
                (ac', e) \<Rightarrow> Ret (set_sview c exec st', ac', e)))"

definition SupplyCtrler_ExecuteTrx ::
  "SupplyCtrler \<Rightarrow> AcctCtrler \<Rightarrow> int \<Rightarrow> TrxContext \<Rightarrow> Reward \<Rightarrow> (SupplyCtrler \<times> AcctCtrler \<times> xerror option) go" where
  "SupplyCtrler_ExecuteTrx c ac height ctx validateResult =
     (if txType (Tx ctx) = TRX_WITHDRAW then
        (case txPayload (Tx ctx) of
           Some (TrxPayloadWithdraw reqAmt) \<Rightarrow> withdrawReward c ac validateResult reqAmt height (Exec ctx)
         | _ \<Rightarrow> Panic)
      else Ret (c, ac, Some ErrUnknownTrxType))"

definition SupplyCtrler_burn :: "SupplyCtrler \<Rightarrow> int \<Rightarrow> uint256 \<Rightarrow> SupplyCtrler \<times> xerror option" where
  "SupplyCtrler_burn c height amt =
     (if amt \<ge> totalSupply (lastTotalSupply c) then (c, Some ErrInvalidAmount)
      else (c\<lparr>lastTotalSupply := AdjustSub (lastTotalSupply c) height amt\<rparr>, None))"

definition SupplyCtrler_Burn :: "SupplyCtrler \<Rightarrow> BlockContext \<Rightarrow> uint256 \<Rightarrow> SupplyCtrler \<times> xerror option" where
  "SupplyCtrler_Burn c b amt = SupplyCtrler_burn c (Height b) amt"

section \<open>Issuance\<close>

definition heightYears :: "'f fixed_ops \<Rightarrow> int \<Rightarrow> int \<Rightarrow> 'f" where
  "heightYears F height intval = FxNum_FromInt F 1"

definition scaledHeight :: "'f fixed_ops \<Rightarrow> int \<Rightarrow> int \<Rightarrow> 'f" where
  "scaledHeight F height base0 = fxDiv F (FxNum_FromInt F height) (FxNum_FromInt F base0)"

definition decimalSd :: "'f fixed_ops \<Rightarrow> 'd decimal_ops \<Rightarrow> 'f \<Rightarrow> uint256 \<Rightarrow> uint256 \<Rightarrow> int \<Rightarrow> 'f \<Rightarrow> 'd" where
  "decimalSd F D scaledH lastSupply smax lambda wa =
     (let decLambdaAddOne = dAdd D (dNew D lambda (-3)) (dNew D 1 0);
          decExp = dMul D (ToDecimal F D wa) (ToDecimal F D scaledH);
          part1 = dSub D (dNewFromInt D 1) (dPow D decLambdaAddOne (dNeg D decExp));
          part0 = dNewFromBigInt D (uint (smax - lastSupply)) 0
      in dMul D part0 part1)"

definition Sd :: "'f fixed_ops \<Rightarrow> 'd decimal_ops \<Rightarrow> 'f \<Rightarrow> uint256 \<Rightarrow> uint256 \<Rightarrow> int \<Rightarrow> 'f \<Rightarrow> 'd" where
  "Sd F D scaledH lastSupply smax lambda wa = decimalSd F D scaledH lastSupply smax lambda wa"

text \<open>\<open>MustFromBig\<close> panics on a number of more than 256 bits; a negative number wraps around.\<close>

definition MustFromBig :: "int \<Rightarrow> uint256 go" where
  "MustFromBig n = (if \<bar>n\<bar> < 2 ^ 256 then Ret (word_of_int n) else Panic)"

definition benef_reward :: "'f fixed_ops \<Rightarrow> 'd decimal_ops \<Rightarrow> 'd \<Rightarrow> 'd \<Rightarrow> 'd \<Rightarrow> 'd \<Rightarrow> 'd \<Rightarrow> 'f Beneficiary \<Rightarrow> 'd" where
  "benef_reward F D rwdToAll rwdToVals decWaAll decWaVals remainder b =
     (let decWi = ToDecimal F D (bnWeight b);
          rwd = dQuo D (dMul D rwdToAll decWi) decWaAll;
          rwd1 = (if bnIsVal b then dAdd D rwd (dQuo D (dMul D rwdToVals decWi) decWaVals) else rwd)
      in dMul D (dAdd D rwd1 remainder) (ToDecimal F D (bnSignRate b)))"

fun mint_loop ::
  "'f fixed_ops \<Rightarrow> 'd decimal_ops \<Rightarrow> 'd \<Rightarrow> 'd \<Rightarrow> 'd \<Rightarrow> 'd \<Rightarrow> 'd \<Rightarrow> uint256 \<Rightarrow> 'f Beneficiary list \<Rightarrow> (uint256 \<times> (addr \<times> uint256) list) go" where
  "mint_loop F D toAll toVals waAll waVals remainder s [] = Ret (s, [])"
| "mint_loop F D toAll toVals waAll waVals remainder s (b # bs) =
     (let rwd = benef_reward F D toAll toVals waAll waVals remainder b in
      case MustFromBig (dBigInt D rwd) of
        Panic \<Rightarrow> Panic
      | Ret amt \<Rightarrow> (case mint_loop F D toAll toVals waAll waVals (dSub D rwd (dFloor D rwd)) (s + amt) bs of
          Panic \<Rightarrow> Panic
        | Ret (s', rs) \<Rightarrow> Ret (s', (bnAddr b, amt) # rs)))"

text \<open>\<open>neg\<close> is the test of the sign of a decimal; \<open>wres\<close> what \<open>ComputeWeight\<close> returned.\<close>

definition compute_mint ::
  "'f fixed_ops \<Rightarrow> 'd decimal_ops \<Rightarrow> ('d \<Rightarrow> bool) \<Rightarrow> GovParams \<Rightarrow> reqMint \<Rightarrow> 'f fxnumWeight res \<Rightarrow> respMint go" where
  "compute_mint F D neg g req wres =
     (case wres of
        Inl e \<Rightarrow> Ret \<lparr>rsErr = Some e, sumMintedAmt = 0, rsRewards = []\<rparr>
      | Inr w \<Rightarrow>
          (let valRate = dDiv D (dNewFromInt D (ValidatorRewardRate g)) (dNewFromInt D 100);
               addedSupply = Sd F D (heightYears F (rqHeight req) 1) (rqTotalSupply req) (MaxTotalSupply g)
                 (InflationWeightPermil g) (sumWeight w)
           in if neg addedSupply
              then Ret \<lparr>rsErr = From (Some (EFmt ''critical error: calculated additional issuance amount must not be negative'')),
                        sumMintedAmt = 0, rsRewards = []\<rparr>
              else (let rwdToVals = dFloor D (dMul D addedSupply valRate);
                        rwdToAll = dSub D addedSupply rwdToVals
                    in case mint_loop F D rwdToAll rwdToVals (ToDecimal F D (sumWeight w)) (ToDecimal F D (valsWeight w))
                              (dZero D) 0 (beneficiaries w) of
                         Panic \<Rightarrow> Panic
                       | Ret (s, rs) \<Rightarrow> Ret \<lparr>rsErr = None, sumMintedAmt = s, rsRewards = rs\<rparr>)))"

text \<open>
  One turn of the routine: it takes a request and answers it, from the voting power ledger committed at
  the height before and the last validators. Without a request, or while the last answer waits, it does nothing.
\<close>

definition mint_routine ::
  "'f fixed_ops \<Rightarrow> 'd decimal_ops \<Rightarrow> ('d \<Rightarrow> bool) \<Rightarrow> GovParams \<Rightarrow> vstate \<Rightarrow> Delegatee list \<Rightarrow> SupplyCtrler \<Rightarrow> SupplyCtrler go" where
  "mint_routine F D neg g committed vals c =
     (case (reqCh c, respCh c) of
        (Some req, None) \<Rightarrow>
          (case compute_mint F D neg g req
                  (ComputeWeight F committed vals (rqHeight req) (InflationCycleBlocks g) (RipeningBlocks g)
                    (BondingBlocksWeightPermil g) (rqTotalSupply req)) of
             Panic \<Rightarrow> Panic
           | Ret resp \<Rightarrow> Ret (c\<lparr>reqCh := None, respCh := Some resp\<rparr>))
      | _ \<Rightarrow> Ret c)"

text \<open>\<open>None\<close>: the channel is full and the caller blocks.\<close>

definition requestMint :: "SupplyCtrler \<Rightarrow> int \<Rightarrow> SupplyCtrler option" where
  "requestMint c height = (case reqCh c of
     Some _ \<Rightarrow> None
   | None \<Rightarrow> Some (c\<lparr>reqCh := Some \<lparr>rqHeight = height, rqTotalSupply = totalSupply (lastTotalSupply c),
       rqAdjustedSupply = adjustSupply (lastTotalSupply c), rqAdjustedHeight = spAdjustHeight (lastTotalSupply c)\<rparr>\<rparr>))"

fun distRewardToState :: "sstate \<Rightarrow> (addr \<times> uint256) list \<Rightarrow> int \<Rightarrow> sstate go" where
  "distRewardToState st [] height = Ret st"
| "distRewardToState st ((a, amt) # rs) height =
     (case Reward_Issue (case rewards st a of None \<Rightarrow> NewReward a | Some r \<Rightarrow> r) amt height of
        Panic \<Rightarrow> Panic
      | Ret r \<Rightarrow> distRewardToState (st\<lparr>rewards := (rewards st)(a \<mapsto> r)\<rparr>) rs height)"

text \<open>The reward pool is not supported yet: its address makes no difference.\<close>

definition distReward :: "sstate \<Rightarrow> (addr \<times> uint256) list \<Rightarrow> int \<Rightarrow> addr \<Rightarrow> sstate go" where
  "distReward st rs height poolAddr = distRewardToState st rs height"

definition waitMint :: "GovParams \<Rightarrow> SupplyCtrler \<Rightarrow> int \<Rightarrow> (SupplyCtrler \<times> respMint res) option go" where
  "waitMint g c height = (case respCh c of
     None \<Rightarrow> Ret None
   | Some resp \<Rightarrow>
       (let c1 = c\<lparr>respCh := None\<rparr> in
        case rsErr resp of
          Some e \<Rightarrow> Ret (Some (c1, Inl e))
        | None \<Rightarrow> (case distReward (sexec c1) (rsRewards resp) height (RewardPoolAddress g) of
            Panic \<Rightarrow> Panic
          | Ret st \<Rightarrow> Ret (Some (c1\<lparr>sexec := st, lastTotalSupply := Supply_Add (lastTotalSupply c1) height (sumMintedAmt resp)\<rparr>,
              Inr resp)))))"

section \<open>Blocks\<close>

text \<open>The remainder by a cycle of zero blocks panics.\<close>

definition mint_height :: "GovParams \<Rightarrow> int \<Rightarrow> bool go" where
  "mint_height g h =
     (if h > 0 then (if InflationCycleBlocks g = 0 then Panic else Ret (h mod InflationCycleBlocks g = 0)) else Ret False)"

definition SupplyCtrler_BeginBlock :: "GovParams \<Rightarrow> BlockContext \<Rightarrow> SupplyCtrler \<Rightarrow> SupplyCtrler option go" where
  "SupplyCtrler_BeginBlock g b c = (case mint_height g (Height b) of
     Panic \<Rightarrow> Panic
   | Ret m \<Rightarrow> Ret (if m then requestMint c (Height b) else Some c))"

definition store_supply :: "SupplyCtrler \<Rightarrow> SupplyCtrler" where
  "store_supply c =
     (if schanged (lastTotalSupply c)
      then (let s = (lastTotalSupply c)\<lparr>schanged := False\<rparr>
            in c\<lparr>sexec := (sexec c)\<lparr>stotal := Some s\<rparr>, lastTotalSupply := s\<rparr>)
      else c)"

definition SupplyCtrler_EndBlock :: "GovParams \<Rightarrow> BlockContext \<Rightarrow> SupplyCtrler \<Rightarrow> (SupplyCtrler \<times> xerror option) option go" where
  "SupplyCtrler_EndBlock g b c = (case mint_height g (Height b) of
     Panic \<Rightarrow> Panic
   | Ret False \<Rightarrow> Ret (Some (store_supply c, None))
   | Ret True \<Rightarrow> (case waitMint g c (Height b) of
       Panic \<Rightarrow> Panic
     | Ret None \<Rightarrow> Ret None
     | Ret (Some (c1, Inl e)) \<Rightarrow> Ret (Some (c1, Some e))
     | Ret (Some (c1, Inr _)) \<Rightarrow> Ret (Some (store_supply c1, None))))"

definition SupplyCtrler_Commit :: "SupplyCtrler \<Rightarrow> SupplyCtrler" where
  "SupplyCtrler_Commit c = c\<lparr>scheck := sexec c\<rparr>"

end
