(* ===== verification/Supply_Inv.thy ===== *)
theory Supply_Inv
  imports Supply
begin

text \<open>
  Issuance stays below the maximum supply, what is issued is exactly what is credited to the rewards, and a
  withdrawal moves exactly its amount from the reward to the account.
\<close>

section \<open>Amounts of the beneficiaries\<close>

definition weight_fair :: "'f fixed_ops \<Rightarrow> ('f \<Rightarrow> int) \<Rightarrow> 'f fxnumWeight \<Rightarrow> bool" where
  "weight_fair F raw w \<longleftrightarrow>
     (\<forall>b \<in> set (beneficiaries w). \<not> fxIsNaN F (bnWeight b) \<and> 0 \<le> raw (bnWeight b) \<and>
        \<not> fxIsNaN F (bnSignRate b) \<and> 0 \<le> raw (bnSignRate b) \<and> raw (bnSignRate b) \<le> 10 ^ 7) \<and>
     \<not> fxIsNaN F (sumWeight w) \<and> 0 < raw (sumWeight w) \<and> raw (sumWeight w) = (\<Sum>b\<leftarrow>beneficiaries w. raw (bnWeight b)) \<and>
     \<not> fxIsNaN F (valsWeight w) \<and> 0 < raw (valsWeight w) \<and>
     raw (valsWeight w) = (\<Sum>b\<leftarrow>filter bnIsVal (beneficiaries w). raw (bnWeight b))"

definition benef_ok :: "'f fixed_ops \<Rightarrow> ('f \<Rightarrow> int) \<Rightarrow> 'f Beneficiary \<Rightarrow> bool" where
  "benef_ok F raw b \<longleftrightarrow> \<not> fxIsNaN F (bnWeight b) \<and> 0 \<le> raw (bnWeight b) \<and>
     \<not> fxIsNaN F (bnSignRate b) \<and> 0 \<le> raw (bnSignRate b) \<and> raw (bnSignRate b) \<le> 10 ^ 7"

definition share :: "rat \<Rightarrow> rat \<Rightarrow> rat \<Rightarrow> rat \<Rightarrow> ('f \<Rightarrow> int) \<Rightarrow> 'f Beneficiary \<Rightarrow> rat" where
  "share A V WA WV raw b = A * (of_int (raw (bnWeight b)) / 10 ^ 7) / WA +
     (if bnIsVal b then V * (of_int (raw (bnWeight b)) / 10 ^ 7) / WV else 0)"

lemma uint_lt256: "uint (x :: uint256) < 2 ^ 256"
  using uint_bounded[of x] by simp

lemma mult_unit: "0 \<le> x \<Longrightarrow> 0 \<le> y \<Longrightarrow> y \<le> 1 \<Longrightarrow> 0 \<le> x * y \<and> x * y \<le> x" for x y :: rat
  by (simp add: mult_left_le)

lemma benef_reward_bounds:
  assumes raw: "fx_raw F raw" and D: "dec_lawful D val" and b: "benef_ok F raw b"
    and p: "0 \<le> val toAll" "0 \<le> val toVals" "0 < val waAll" "0 < val waVals" "0 \<le> val rem"
  shows "0 \<le> val (benef_reward F D toAll toVals waAll waVals rem b)"
    "val (benef_reward F D toAll toVals waAll waVals rem b) \<le>
       share (val toAll) (val toVals) (val waAll) (val waVals) raw b + val rem"
proof -
  let ?wi = "ToDecimal F D (bnWeight b)" let ?sw = "ToDecimal F D (bnSignRate b)"
  have wi: "val ?wi = of_int (raw (bnWeight b)) / 10 ^ 7" "0 \<le> val ?wi"
    using ToDecimal_val[OF raw D, of "bnWeight b"] b by (auto simp: benef_ok_def)
  have sw: "0 \<le> val ?sw" "val ?sw \<le> 1"
    using ToDecimal_val[OF raw D, of "bnSignRate b"] b by (auto simp: benef_ok_def)
  note arith = dec_lawfulD(5,7)[OF D]
  have q: "0 \<le> val (dQuo D (dMul D x ?wi) y) \<and> val (dQuo D (dMul D x ?wi) y) \<le> val x * val ?wi / val y"
    if "0 \<le> val x" "0 < val y" for x y
    using QuoRem_bounds[OF D, of "dMul D x ?wi" y 16] that wi(2) by (simp add: dQuo_def getDivisionPrecision_def arith)
  define base where "base = (if bnIsVal b then dAdd D (dQuo D (dMul D toAll ?wi) waAll) (dQuo D (dMul D toVals ?wi) waVals)
    else dQuo D (dMul D toAll ?wi) waAll)"
  have B: "0 \<le> val base" "val base \<le> share (val toAll) (val toVals) (val waAll) (val waVals) raw b"
    using q[OF p(1,3)] q[OF p(2,4)] unfolding share_def wi(1)[symmetric] by (auto simp: base_def arith)
  have e: "val (benef_reward F D toAll toVals waAll waVals rem b) = (val base + val rem) * val ?sw"
    by (simp add: benef_reward_def Let_def base_def arith)
  show "0 \<le> val (benef_reward F D toAll toVals waAll waVals rem b)"
    "val (benef_reward F D toAll toVals waAll waVals rem b) \<le>
       share (val toAll) (val toVals) (val waAll) (val waVals) raw b + val rem"
    unfolding e using mult_unit[of "val base + val rem" "val ?sw"] B p(5) sw by auto
qed

lemma mint_loop_ok:
  assumes raw: "fx_raw F raw" and D: "dec_lawful D val"
    and p: "0 \<le> val toAll" "0 \<le> val toVals" "0 < val waAll" "0 < val waVals"
  shows "0 \<le> val rem \<Longrightarrow> \<forall>b \<in> set bs. benef_ok F raw b \<Longrightarrow>
    val rem + (\<Sum>b\<leftarrow>bs. share (val toAll) (val toVals) (val waAll) (val waVals) raw b) < 2 ^ 256 \<Longrightarrow>
    \<exists>rs. mint_loop F D toAll toVals waAll waVals rem s bs = Ret (s + (\<Sum>r\<leftarrow>rs. snd r), rs) \<and> map fst rs = map bnAddr bs \<and>
      of_int (\<Sum>r\<leftarrow>rs. uint (snd r)) \<le> val rem + (\<Sum>b\<leftarrow>bs. share (val toAll) (val toVals) (val waAll) (val waVals) raw b)"
proof (induction bs arbitrary: rem s)
  case Nil
  then show ?case by simp
next
  case (Cons b bs)
  let ?sh = "share (val toAll) (val toVals) (val waAll) (val waVals) raw"
  let ?r = "benef_reward F D toAll toVals waAll waVals rem b"
  have b: "benef_ok F raw b" using Cons.prems(2) by simp
  note R = benef_reward_bounds[OF raw D b p Cons.prems(1)]
  have sh: "0 \<le> ?sh x" if "x \<in> set bs" for x using Cons.prems(2) p that by (auto simp: share_def benef_ok_def)
  have rest: "0 \<le> (\<Sum>b\<leftarrow>bs. ?sh b)" using sh by (intro sum_list_nonneg) auto
  have n: "dBigInt D ?r = \<lfloor>val ?r\<rfloor>" "0 \<le> \<lfloor>val ?r\<rfloor>" using dec_lawfulD(10)[OF D R(1)] R(1) by simp_all
  have lt: "\<lfloor>val ?r\<rfloor> < 2 ^ 256" using R(2) Cons.prems(3) rest by (simp add: floor_less_iff)
  let ?amt = "word_of_int \<lfloor>val ?r\<rfloor> :: uint256"
  have m: "MustFromBig (dBigInt D ?r) = Ret ?amt" using n lt by (simp add: MustFromBig_def)
  have u: "uint ?amt = \<lfloor>val ?r\<rfloor>" using n(2) lt by (rule uint_word_of_int_lt)
  let ?rem = "dSub D ?r (dFloor D ?r)"
  have rem: "val ?rem = val ?r - of_int \<lfloor>val ?r\<rfloor>" by (simp add: dec_lawfulD(6,9)[OF D])
  have "0 \<le> val ?rem" unfolding rem by (simp add: of_int_floor_le)
  moreover have fl: "0 \<le> (of_int \<lfloor>val ?r\<rfloor> :: rat)" using n(2) by simp
  moreover have "val ?rem + (\<Sum>b\<leftarrow>bs. ?sh b) < 2 ^ 256"
    using R(2) Cons.prems(3) fl unfolding rem list.map sum_list.Cons by linarith
  ultimately obtain rs where rs: "mint_loop F D toAll toVals waAll waVals ?rem (s + ?amt) bs = Ret (s + ?amt + (\<Sum>r\<leftarrow>rs. snd r), rs)"
      "map fst rs = map bnAddr bs" "of_int (\<Sum>r\<leftarrow>rs. uint (snd r)) \<le> val ?rem + (\<Sum>b\<leftarrow>bs. ?sh b)"
    using Cons.IH[of ?rem "s + ?amt"] Cons.prems(2) by auto
  have "mint_loop F D toAll toVals waAll waVals rem s (b # bs) =
      Ret (s + (\<Sum>r\<leftarrow>(bnAddr b, ?amt) # rs. snd r), (bnAddr b, ?amt) # rs)"
    by (simp add: m rs(1) Let_def add.assoc)
  moreover have "of_int (\<Sum>r\<leftarrow>(bnAddr b, ?amt) # rs. uint (snd r)) \<le> val rem + (\<Sum>b\<leftarrow>b # bs. ?sh b)"
    using rs(3) R(2) rem by (simp add: u)
  ultimately show ?case using rs(2) by (intro exI[of _ "(bnAddr b, ?amt) # rs"]) simp
qed

lemma share_sum:
  fixes bs :: "'f Beneficiary list"
  shows "(\<Sum>b\<leftarrow>bs. share A V WA WV raw b) =
    A * (of_int (\<Sum>b\<leftarrow>bs. raw (bnWeight b)) / 10 ^ 7) / WA +
    V * (of_int (\<Sum>b\<leftarrow>filter bnIsVal bs. raw (bnWeight b)) / 10 ^ 7) / WV"
  by (induction bs) (auto simp: share_def algebra_simps add_divide_distrib)

lemma uint_sum_list:
  "(\<Sum>r\<leftarrow>rs. uint (f r)) < 2 ^ 256 \<Longrightarrow> uint (\<Sum>r\<leftarrow>rs. f r :: uint256) = (\<Sum>r\<leftarrow>rs. uint (f r))"
proof (induction rs)
  case (Cons r rs)
  have "0 \<le> (\<Sum>r\<leftarrow>rs. uint (f r))" by (intro sum_list_nonneg) auto
  moreover have "0 \<le> uint (f r)" by simp
  ultimately have "(\<Sum>r\<leftarrow>rs. uint (f r)) < 2 ^ 256" using Cons.prems unfolding list.map sum_list.Cons by linarith
  then have "uint (\<Sum>r\<leftarrow>rs. f r) = (\<Sum>r\<leftarrow>rs. uint (f r))" by (rule Cons.IH)
  then show ?case using Cons.prems uint_add_lt[of "f r" "\<Sum>r\<leftarrow>rs. f r"] by simp
qed simp

section \<open>The cap\<close>

lemma Sd_bounds:
  assumes raw: "fx_raw F raw" and D: "dec_lawful D val" and w: "\<not> fxIsNaN F wa" "0 \<le> raw wa"
    and l: "0 \<le> lambda" and s: "lastSupply \<le> smax"
  shows "0 \<le> val (Sd F D (heightYears F h i) lastSupply smax lambda wa)"
    "val (Sd F D (heightYears F h i) lastSupply smax lambda wa) \<le> of_int (uint smax - uint lastSupply)"
proof -
  let ?b = "dAdd D (dNew D lambda (-3)) (dNew D 1 0)"
  let ?e = "dNeg D (dMul D (ToDecimal F D wa) (ToDecimal F D (heightYears F h i)))"
  have h: "\<not> fxIsNaN F (heightYears F h i)" "raw (heightYears F h i) = 10 ^ 7"
    using raw by (auto simp: fx_raw_def heightYears_def FxNum_FromInt_def FxNum_New_def fx_max_def)
  have "1 \<le> val ?b" using l dec_lawfulD(1)[OF D, of lambda 3] dec_lawfulD(1)[OF D, of 1 0] by (simp add: dec_lawfulD(5)[OF D])
  moreover have "val ?e \<le> 0"
    using w by (simp add: dec_lawfulD(7,8)[OF D] ToDecimal_val[OF raw D] h)
  ultimately have "0 \<le> val (dPow D ?b ?e) \<and> val (dPow D ?b ?e) \<le> 1" by (rule dec_lawfulD(13)[OF D])
  then have p: "0 \<le> 1 - val (dPow D ?b ?e)" "1 - val (dPow D ?b ?e) \<le> 1" by auto
  have d: "uint (smax - lastSupply) = uint smax - uint lastSupply" using s by (rule uint_sub_le)
  have e: "val (Sd F D (heightYears F h i) lastSupply smax lambda wa) = of_int (uint smax - uint lastSupply) * (1 - val (dPow D ?b ?e))"
    by (simp add: Sd_def decimalSd_def Let_def dec_lawfulD(2,3,6,7)[OF D] d)
  have "0 \<le> uint smax - uint lastSupply" using s by (simp add: word_le_def)
  then have "0 \<le> (of_int (uint smax - uint lastSupply) :: rat)" by (rule of_int_0_le_iff[THEN iffD2])
  then show "0 \<le> val (Sd F D (heightYears F h i) lastSupply smax lambda wa)"
    "val (Sd F D (heightYears F h i) lastSupply smax lambda wa) \<le> of_int (uint smax - uint lastSupply)"
    unfolding e using mult_unit[OF _ p] by blast+
qed

text \<open>
  (C4) An issuance never lifts the total supply above the maximum. For voting power weights that add up to
  their total and signing rates between zero and one, the computation returns without an error; there is one
  reward for every beneficiary, the minted sum is the exact sum of the rewards, and the supply before with
  the minted sum is at most the maximum supply.
\<close>
theorem issuance_capped:
  assumes raw: "fx_raw F raw" and D: "dec_lawful D val" and neg: "\<forall>x. neg x \<longleftrightarrow> val x < 0"
    and w: "weight_fair F raw w"
    and g: "0 \<le> ValidatorRewardRate g" "ValidatorRewardRate g \<le> 100" "0 \<le> InflationWeightPermil g"
    and s: "rqTotalSupply req \<le> MaxTotalSupply g"
  shows "\<exists>resp. compute_mint F D neg g req (Inr w) = Ret resp \<and> rsErr resp = None \<and>
    map fst (rsRewards resp) = map bnAddr (beneficiaries w) \<and>
    uint (sumMintedAmt resp) = (\<Sum>r\<leftarrow>rsRewards resp. uint (snd r)) \<and>
    uint (rqTotalSupply req) + uint (sumMintedAmt resp) \<le> uint (MaxTotalSupply g)"
proof -
  define added where "added = Sd F D (heightYears F (rqHeight req) 1) (rqTotalSupply req) (MaxTotalSupply g) (InflationWeightPermil g) (sumWeight w)"
  define rate where "rate = dDiv D (dNewFromInt D (ValidatorRewardRate g)) (dNewFromInt D 100)"
  define toVals where "toVals = dFloor D (dMul D added rate)"
  define toAll where "toAll = dSub D added toVals"
  define wa where "wa = ToDecimal F D (sumWeight w)"
  define wv where "wv = ToDecimal F D (valsWeight w)"
  have nn: "\<not> fxIsNaN F (sumWeight w)" "\<not> fxIsNaN F (valsWeight w)" "0 < raw (sumWeight w)" "0 < raw (valsWeight w)"
    and bs: "\<forall>b \<in> set (beneficiaries w). benef_ok F raw b"
    using w by (auto simp: weight_fair_def benef_ok_def)
  have add: "0 \<le> val added" "val added \<le> of_int (uint (MaxTotalSupply g) - uint (rqTotalSupply req))"
    using Sd_bounds[OF raw D nn(1) _ g(3) s] nn(3) by (auto simp: added_def)
  have "0 \<le> val rate \<and> val rate \<le> 1" unfolding rate_def using g by (intro dec_lawfulD(11)[OF D]) (simp_all add: dec_lawfulD(2)[OF D])
  then have m: "0 \<le> val added * val rate" "val added * val rate \<le> val added" using mult_unit[OF add(1)] by auto
  have vals: "0 \<le> val toVals" "val toVals \<le> val added"
    using m order_trans[OF of_int_floor_le m(2)] by (simp_all add: toVals_def dec_lawfulD(7,9)[OF D])
  have all: "val toAll = val added - val toVals" by (simp add: toAll_def dec_lawfulD(6)[OF D])
  have wav: "val wa = of_int (raw (sumWeight w)) / 10 ^ 7" "val wv = of_int (raw (valsWeight w)) / 10 ^ 7"
    using ToDecimal_val[OF raw D] nn by (auto simp: wa_def wv_def)
  then have pos: "0 < val wa" "0 < val wv" using nn by auto
  have sum: "(\<Sum>b\<leftarrow>beneficiaries w. share (val toAll) (val toVals) (val wa) (val wv) raw b) = val added"
  proof -
    have "(\<Sum>b\<leftarrow>beneficiaries w. raw (bnWeight b)) = raw (sumWeight w)"
      "(\<Sum>b\<leftarrow>filter bnIsVal (beneficiaries w). raw (bnWeight b)) = raw (valsWeight w)"
      using w by (simp_all add: weight_fair_def)
    then show ?thesis unfolding share_sum using pos all by (simp only: wav[symmetric]) simp
  qed
  have z: "val (dZero D) = 0" by (rule dec_lawfulD(4)[OF D])
  have mx: "uint (MaxTotalSupply g) - uint (rqTotalSupply req) < 2 ^ 256"
    using uint_lt256[of "MaxTotalSupply g"] uint_ge_0[of "rqTotalSupply req"] by linarith
  then have "of_int (uint (MaxTotalSupply g) - uint (rqTotalSupply req)) < (of_int (2 ^ 256) :: rat)"
    by (rule of_int_less_iff[THEN iffD2])
  then have lt: "val added < 2 ^ 256" using add(2) by (simp only: of_int_power of_int_numeral)
  obtain rs where rs: "mint_loop F D toAll toVals wa wv (dZero D) 0 (beneficiaries w) = Ret (0 + (\<Sum>r\<leftarrow>rs. snd r), rs)"
      "map fst rs = map bnAddr (beneficiaries w)" "of_int (\<Sum>r\<leftarrow>rs. uint (snd r)) \<le> val added"
    using mint_loop_ok[OF raw D, of toAll toVals wa wv "dZero D" "beneficiaries w" 0] vals all pos bs lt sum z by (metis add_0 diff_ge_0_iff_ge order_refl)
  have le: "(\<Sum>r\<leftarrow>rs. uint (snd r)) \<le> uint (MaxTotalSupply g) - uint (rqTotalSupply req)"
    using order_trans[OF rs(3) add(2)] by (simp only: of_int_le_iff)
  then have "(\<Sum>r\<leftarrow>rs. uint (snd r)) < 2 ^ 256"
    using mx by linarith
  then have u: "uint (\<Sum>r\<leftarrow>rs. snd r) = (\<Sum>r\<leftarrow>rs. uint (snd r))" by (rule uint_sum_list)
  have "compute_mint F D neg g req (Inr w) = Ret \<lparr>rsErr = None, sumMintedAmt = (\<Sum>r\<leftarrow>rs. snd r), rsRewards = rs\<rparr>"
    using add(1) neg rs(1) unfolding compute_mint_def added_def[symmetric] rate_def[symmetric] toVals_def[symmetric]
      toAll_def[symmetric] wa_def[symmetric] wv_def[symmetric] Let_def
    by (simp add: not_less added_def[symmetric] rate_def[symmetric] toVals_def[symmetric] toAll_def[symmetric] wa_def[symmetric] wv_def[symmetric])
  then show ?thesis using rs(2) u le by simp
qed

definition weight_ex :: "int fxnumWeight" where
  "weight_ex = \<lparr>sumWeight = 3000000, valsWeight = 1000000,
     beneficiaries = [\<lparr>bnAddr = [1], bnWeight = 1000000, bnSignRate = 9000000, bnIsVal = True\<rparr>,
                      \<lparr>bnAddr = [2], bnWeight = 2000000, bnSignRate = 9000000, bnIsVal = False\<rparr>]\<rparr>"

definition req_ex :: reqMint where
  "req_ex = \<lparr>rqHeight = 604800, rqTotalSupply = 350000000000000000000000000, rqAdjustedSupply = 0, rqAdjustedHeight = 1\<rparr>"

theorem issuance_capped_witness:
  "\<exists>resp. compute_mint fx_ex dec_ex (\<lambda>x. x < 0) DefaultGovParams req_ex (Inr weight_ex) = Ret resp \<and> rsErr resp = None \<and>
    map fst (rsRewards resp) = [[1], [2]] \<and>
    350000000000000000000000000 + uint (sumMintedAmt resp) \<le> 700000000000000000000000000"
proof -
  have m: "MaxTotalSupply DefaultGovParams = 700000000000000000000000000"
    by (simp add: MaxTotalSupply_def DefaultGovParams_def NewGovParams_def Let_def opt_bytes_def)
  have w: "weight_fair fx_ex (\<lambda>x. x) weight_ex" by (simp add: weight_fair_def weight_ex_def fx_ex_def in64_def)
  have "rqTotalSupply req_ex \<le> MaxTotalSupply DefaultGovParams" by (simp add: m req_ex_def)
  moreover have "uint (rqTotalSupply req_ex) = 350000000000000000000000000" by (simp add: req_ex_def)
  ultimately show ?thesis
    using issuance_capped[OF fx_ex_raw dec_ex_lawful, of "\<lambda>x. x < 0" weight_ex DefaultGovParams req_ex] w m
    by (auto simp: weight_ex_def DefaultGovParams_def NewGovParams_def Let_def)
qed

text \<open>
  A maximum below the current supply, which governance may set, is not a cap: the difference wraps around.
\<close>

lemma Sd_below_max:
  assumes D: "dec_lawful D val" and s: "smax < lastSupply"
  shows "\<exists>p. val (Sd F D sh lastSupply smax lambda wa) = of_int (2 ^ 256 + uint smax - uint lastSupply) * (1 - val p)"
proof -
  have "uint (smax - lastSupply) = (uint smax - uint lastSupply) mod 2 ^ 256" by (simp add: uint_word_ariths)
  moreover have "0 \<le> uint smax - uint lastSupply + 2 ^ 256" "uint smax - uint lastSupply + 2 ^ 256 < 2 ^ 256"
    using s uint_lt256[of lastSupply] uint_ge_0[of smax] unfolding word_less_def by linarith+
  then have "(uint smax - uint lastSupply + 2 ^ 256) mod 2 ^ 256 = uint smax - uint lastSupply + 2 ^ 256"
    by (rule mod_pos_pos_trivial)
  then have "(uint smax - uint lastSupply) mod 2 ^ 256 = uint smax - uint lastSupply + 2 ^ 256"
    by (simp only: mod_add_self2)
  ultimately have "uint (smax - lastSupply) = 2 ^ 256 + uint smax - uint lastSupply" by simp
  then show ?thesis by (simp only: Sd_def decimalSd_def Let_def dec_lawfulD(2,3,6,7)[OF D]) auto
qed

section \<open>Rewards\<close>

definition sinv :: "sstate \<Rightarrow> int \<Rightarrow> bool" where
  "sinv st h \<longleftrightarrow> finite (dom (rewards st)) \<and> 0 \<le> h \<and> (\<forall>a r. rewards st a = Some r \<longrightarrow> rwAddress r = a \<and> rwHeight r \<le> h)"

definition rwd_of :: "sstate \<Rightarrow> addr \<Rightarrow> uint256" where
  "rwd_of st a = mval cumulated (rewards st) a"

definition rwd_sum :: "sstate \<Rightarrow> uint256" where
  "rwd_sum st = msum cumulated (rewards st)"

lemma sinv_mono: "sinv st h \<Longrightarrow> h \<le> h' \<Longrightarrow> sinv st h'"
  unfolding sinv_def by (meson order_trans)

lemma Reward_ops:
  assumes "rwHeight r0 \<le> h"
  shows "\<exists>r. Reward_Issue r0 amt h = Ret r \<and> rwAddress r = rwAddress r0 \<and> rwHeight r = h \<and> cumulated r = cumulated r0 + amt"
    "\<exists>r. Reward_Withdraw r0 amt h = Ret r \<and> rwAddress r = rwAddress r0 \<and> rwHeight r = h \<and> cumulated r = cumulated r0 - amt"
  using assms by (auto simp: Reward_Issue_def Reward_Withdraw_def)

lemma distReward_ok:
  "sinv st h \<Longrightarrow> h \<le> height \<Longrightarrow> \<exists>st'. distRewardToState st rs height = Ret st' \<and> sinv st' height \<and> stotal st' = stotal st \<and>
     rwd_sum st' = rwd_sum st + (\<Sum>r\<leftarrow>rs. snd r) \<and>
     (\<forall>a. rwd_of st' a = rwd_of st a + (\<Sum>r\<leftarrow>filter (\<lambda>r. fst r = a) rs. snd r))"
proof (induction rs arbitrary: st h)
  case Nil
  then show ?case by (simp add: sinv_mono)
next
  case (Cons x rs)
  obtain a amt where x: "x = (a, amt)" by (cases x)
  have inv: "sinv st height" using Cons.prems by (rule sinv_mono)
  let ?r0 = "case rewards st a of None \<Rightarrow> NewReward a | Some r \<Rightarrow> r"
  have r0: "rwAddress ?r0 = a" "rwHeight ?r0 \<le> height" "cumulated ?r0 = rwd_of st a"
    using inv by (auto simp: sinv_def NewReward_def rwd_of_def mval_def split: option.splits)
  obtain r where r: "Reward_Issue ?r0 amt height = Ret r" "rwAddress r = a" "rwHeight r = height" "cumulated r = rwd_of st a + amt"
    using Reward_ops(1)[OF r0(2), of amt] r0(1,3) by metis
  let ?st = "st\<lparr>rewards := (rewards st)(a \<mapsto> r)\<rparr>"
  have fin: "finite (dom (rewards st))" using Cons.prems by (simp add: sinv_def)
  have "sinv ?st height" using inv r by (auto simp: sinv_def split: if_splits)
  then obtain st' where st': "distRewardToState ?st rs height = Ret st'" "sinv st' height" "stotal st' = stotal st"
      "rwd_sum st' = rwd_sum ?st + (\<Sum>r\<leftarrow>rs. snd r)"
      "\<forall>b. rwd_of st' b = rwd_of ?st b + (\<Sum>r\<leftarrow>filter (\<lambda>r. fst r = b) rs. snd r)"
    using Cons.IH[of ?st height] by auto
  have "rwd_sum ?st = rwd_sum st + amt" "rwd_of ?st b = (if b = a then rwd_of st a + amt else rwd_of st b)" for b
    using r(4) by (auto simp: rwd_sum_def msum_update[OF fin] rwd_of_def mval_def)
  then show ?case using st' r(1) by (auto simp: x)
qed

text \<open>The sum a response carries is the sum of its rewards, as 256-bit words.\<close>

lemma mint_loop_sum: "mint_loop F D A V wa wv rem s bs = Ret (s', rs) \<Longrightarrow> s' = s + (\<Sum>r\<leftarrow>rs. snd r)"
  by (induction bs arbitrary: rem s s' rs) (fastforce simp: Let_def add.assoc split: go.splits prod.splits)+

lemma compute_mint_sum: "compute_mint F D neg g req w = Ret resp \<Longrightarrow> sumMintedAmt resp = (\<Sum>r\<leftarrow>rsRewards resp. snd r)"
  by (auto simp: compute_mint_def Let_def dest!: mint_loop_sum split: go.splits prod.splits sum.splits if_splits)


text \<open>
  (C32) A validated withdrawal in a block moves exactly the requested amount from the sender's cumulated reward to
  its account: it always succeeds, the reward and the balance change by that amount, a reward of zero is removed,
  no other reward or balance changes, and the total supply stays.
\<close>
theorem withdraw_moves_reward:
  assumes inv: "sinv (sexec c) h" "h \<le> height" "ainv ac"
    and v: "SupplyCtrler_ValidateTrx c ctx = Inr rwd" and e: "Exec ctx" and a: "atree ac (txFrom (Tx ctx)) \<noteq> None"
    and p: "txPayload (Tx ctx) = Some (TrxPayloadWithdraw amt)" "0 \<le> Sign amt"
  shows "\<exists>c' ac'. SupplyCtrler_ExecuteTrx c ac height ctx rwd = Ret (c', ac', None) \<and> sinv (sexec c') height \<and> ainv ac' \<and>
    uint (rwd_of (sexec c') (txFrom (Tx ctx))) = uint (rwd_of (sexec c) (txFrom (Tx ctx))) - uint amt \<and>
    (rewards (sexec c') (txFrom (Tx ctx)) = None \<longleftrightarrow> amt = rwd_of (sexec c) (txFrom (Tx ctx))) \<and>
    bal ac' (txFrom (Tx ctx)) = bal ac (txFrom (Tx ctx)) + amt \<and>
    (\<forall>x. x \<noteq> txFrom (Tx ctx) \<longrightarrow> rewards (sexec c') x = rewards (sexec c) x \<and> bal ac' x = bal ac x) \<and>
    lastTotalSupply c' = lastTotalSupply c"
proof -
  let ?a = "txFrom (Tx ctx)"
  have r: "rewards (sexec c) ?a = Some rwd" "amt \<le> cumulated rwd" and t: "txType (Tx ctx) = TRX_WITHDRAW"
    using v e p(1) by (auto simp: SupplyCtrler_ValidateTrx_def sview_def not_less split: if_splits option.splits)
  have ad: "rwAddress rwd = ?a" "rwHeight rwd \<le> height" using inv(1,2) r(1) by (auto simp: sinv_def dest: order_trans)
  obtain r' where r': "Reward_Withdraw rwd amt height = Ret r'" "rwAddress r' = ?a" "rwHeight r' = height"
      "cumulated r' = cumulated rwd - amt"
    using Reward_ops(2)[OF ad(2), of amt] ad(1) by metis
  obtain ac' x where ac': "AcctCtrler_Reward ac ?a amt True = (ac', None)" "ainv ac'" "atree ac' = (atree ac)(?a \<mapsto> x)"
      "Balance x = bal ac ?a + amt"
    using Reward_exec[OF inv(3) p(2) a] by blast
  let ?c = "c\<lparr>sexec := (sexec c)\<lparr>rewards := (rewards (sexec c))(?a := if cumulated r' = 0 then None else Some r')\<rparr>\<rparr>"
  have ex: "SupplyCtrler_ExecuteTrx c ac height ctx rwd = Ret (?c, ac', None)"
    using r' ac'(1) e by (simp add: SupplyCtrler_ExecuteTrx_def t p(1) withdrawReward_def Let_def sview_def set_sview_def)
  have "sinv (sexec c) height" using inv(1,2) by (rule sinv_mono)
  then have "sinv (sexec ?c) height" using r' by (auto simp: sinv_def split: if_splits)
  moreover have "rwd_of (sexec ?c) ?a = cumulated rwd - amt" "rwd_of (sexec c) ?a = cumulated rwd"
    using r' r(1) by (simp_all add: rwd_of_def mval_def)
  moreover have "uint (cumulated rwd - amt) = uint (cumulated rwd) - uint amt" using r(2) by (rule uint_sub_le)
  ultimately show ?thesis using ex ac' r' by (auto simp: bal_upd)
qed

section \<open>Examples\<close>

definition gov_mint :: GovParams where
  "gov_mint = DefaultGovParams\<lparr>InflationCycleBlocks := 5\<rparr>"

definition supply_ex :: SupplyCtrler where
  "supply_ex = SupplyCtrler_InitLedger (NewSupplyCtrler \<lparr>stotal = None,
     rewards = [addr_ex 1 \<mapsto> \<lparr>rwAddress = addr_ex 1, rwHeight = 2, issued = 0, withdrawn = 0, slashed = 0, cumulated = 70\<rparr>]\<rparr>) 350000000"

lemma supply_ex_inv: "sinv (sexec supply_ex) 2" "reqCh supply_ex = None" "respCh supply_ex = None"
  by (auto simp: supply_ex_def SupplyCtrler_InitLedger_def NewSupplyCtrler_def sinv_def split: if_splits)

text \<open>A decimal library with the one value three.\<close>

definition dec_unit :: "unit decimal_ops" where
  "dec_unit = \<lparr>dNew = (\<lambda>a e. ()), dNewFromInt = (\<lambda>a. ()), dNewFromBigInt = (\<lambda>a e. ()), dZero = (), dUninit = (),
     dAdd = (\<lambda>x y. ()), dSub = (\<lambda>x y. ()), dMul = (\<lambda>x y. ()), dDiv = (\<lambda>x y. ()), dQuoRem = (\<lambda>x y n. ((), ())),
     dPow = (\<lambda>x y. ()), dNeg = (\<lambda>x. ()), dFloor = (\<lambda>x. ()), dBigInt = (\<lambda>x. 3)\<rparr>"

lemma mint_ex:
  "\<exists>w. compute_mint fx_ex dec_unit (\<lambda>x. False) gov_mint req
     (ComputeWeight fx_ex vst_bonded vals_ex h cy rc tau s) = Ret \<lparr>rsErr = None, sumMintedAmt = 3, rsRewards = [(addr_ex 1, 3)]\<rparr>"
  by (simp add: ComputeWeight_def vals_ex_def vst_bonded_def Let_def readVPower_def group_chunks_def compute_mint_def
    NewWeight_def Weight_Add_def MustFromBig_def dec_unit_def)


definition ctx_withdraw :: TrxContext where
  "ctx_withdraw = ctx_stake\<lparr>Tx := (Tx ctx_stake)\<lparr>txType := TRX_WITHDRAW, txAmount := 0, txPayload := Some (TrxPayloadWithdraw 30)\<rparr>\<rparr>"

theorem withdraw_moves_reward_witness:
  "\<exists>rwd c' ac'. SupplyCtrler_ValidateTrx supply_ex ctx_withdraw = Inr rwd \<and>
     SupplyCtrler_ExecuteTrx supply_ex ac_ex 7 ctx_withdraw rwd = Ret (c', ac', None) \<and>
     uint (rwd_of (sexec c') (addr_ex 1)) = 40 \<and> bal ac' (addr_ex 1) = bal ac_ex (addr_ex 1) + 30"
proof -
  have f: "txFrom (Tx ctx_withdraw) = addr_ex 1" "txPayload (Tx ctx_withdraw) = Some (TrxPayloadWithdraw 30)" "Exec ctx_withdraw"
    by (simp_all add: ctx_withdraw_def ctx_stake_def tx_ex_def)
  obtain rwd where v: "SupplyCtrler_ValidateTrx supply_ex ctx_withdraw = Inr rwd"
    by (simp add: SupplyCtrler_ValidateTrx_def ctx_withdraw_def ctx_stake_def tx_ex_def sview_def supply_ex_def
      SupplyCtrler_InitLedger_def NewSupplyCtrler_def Sign_def)
  have r: "rwd_of (sexec supply_ex) (addr_ex 1) = 70"
    by (simp add: rwd_of_def mval_def supply_ex_def SupplyCtrler_InitLedger_def NewSupplyCtrler_def)
  have "ainv ac_ex" using ex_inv by (simp add: cinv_def)
  moreover have "atree ac_ex (txFrom (Tx ctx_withdraw)) \<noteq> None" by (simp add: f ac_ex_def)
  moreover have "0 \<le> Sign (30 :: uint256)" by (simp add: Sign_def)
  ultimately show ?thesis
    using withdraw_moves_reward[OF supply_ex_inv(1) _ _ v f(3) _ f(2), of 7 ac_ex] v r by (auto simp: f)
qed

end
