(* ===== verification/EVM.thy ===== *)
theory EVM
  imports Trx_Ctx
begin

text \<open>
  The virtual machine controller, \<open>src/ctrlers/vm/evm\<close>: the wrapper of the state database that copies
  accounts in and out (\<open>statedb.go\<close>), the state transition (\<open>state_transition.go\<close>, \<open>block_ctx.go\<close>) and the
  controller (\<open>ctrler.go\<close>). The state database, the interpreter and the constants of go-ethereum are
  parameters, collected in the record \<open>geth\<close>.
\<close>

section \<open>State database\<close>

text \<open>
  The wrapper holds the account controller it reads from and writes to. \<open>accessed\<close> remembers the
  addresses whose accounts were copied in, with one more than the snapshot that was current.
\<close>

record 's StateDBWrapper =
  stateDB :: 's
  wacct :: AcctCtrler
  accessed :: "addr \<rightharpoonup> int"
  wsnapshot :: int
  wexec :: bool

record 's geth =
  gNew :: "bytes \<Rightarrow> goerror + 's"
  gGetBalance :: "'s \<Rightarrow> addr \<Rightarrow> uint256"
  gSetBalance :: "'s \<Rightarrow> addr \<Rightarrow> uint256 \<Rightarrow> 's"
  gGetNonce :: "'s \<Rightarrow> addr \<Rightarrow> int"
  gSetNonce :: "'s \<Rightarrow> addr \<Rightarrow> int \<Rightarrow> 's"
  gGetCodeSize :: "'s \<Rightarrow> addr \<Rightarrow> int"
  gGetCodeHash :: "'s \<Rightarrow> addr \<Rightarrow> bytes"
  gEmptyCodeHash :: bytes
  gSnapshot :: "'s \<Rightarrow> 's \<times> int"
  gRevertToSnapshot :: "'s \<Rightarrow> int \<Rightarrow> 's"
  gSetTxContext :: "'s \<Rightarrow> bytes \<Rightarrow> int \<Rightarrow> 's"
  gAddAddressToAccessList :: "'s \<Rightarrow> addr \<Rightarrow> 's"
  gPrepare :: "'s \<Rightarrow> addr \<Rightarrow> addr \<Rightarrow> addr option \<Rightarrow> 's"
  gPrecompiles :: "addr list"
  gGetRefund :: "'s \<Rightarrow> int"
  gFinalise :: "'s \<Rightarrow> 's"
  gCommit :: "'s \<Rightarrow> int \<Rightarrow> bytes go"
  gCanTransfer :: "'s \<Rightarrow> addr \<Rightarrow> uint256 \<Rightarrow> bool"
  gIntrinsicGas :: "bytes \<Rightarrow> bool \<Rightarrow> goerror + int"
  gIsValidVersionedHash :: "bytes \<Rightarrow> bool"
  gMaxInitCodeSize :: nat
  gBlobGasPerBlob :: int
  gRefundQuotient :: int
  gCreate :: "'s StateDBWrapper \<Rightarrow> addr \<Rightarrow> bytes \<Rightarrow> int \<Rightarrow> uint256 \<Rightarrow> 's StateDBWrapper \<times> bytes \<times> int \<times> string option"
  gCall :: "'s StateDBWrapper \<Rightarrow> addr \<Rightarrow> addr \<Rightarrow> bytes \<Rightarrow> int \<Rightarrow> uint256 \<Rightarrow> 's StateDBWrapper \<times> bytes \<times> int \<times> string option"

definition NewStateDBWrapper :: "'s geth \<Rightarrow> bytes \<Rightarrow> AcctCtrler \<Rightarrow> goerror + 's StateDBWrapper" where
  "NewStateDBWrapper P rootHash ac = (case gNew P (Array32 rootHash) of
     Inl e \<Rightarrow> Inl e
   | Inr sdb \<Rightarrow> Inr \<lparr>stateDB = sdb, wacct = ac, accessed = Map.empty, wsnapshot = 0, wexec = False\<rparr>)"

definition addAccessedObjAddr :: "'s geth \<Rightarrow> 's StateDBWrapper \<Rightarrow> addr \<Rightarrow> 's StateDBWrapper" where
  "addAccessedObjAddr P w a =
     (if accessed w a \<noteq> None then w
      else (case FindOrNewAccount (wacct w) a (wexec w) of (ac, r) \<Rightarrow>
        w\<lparr>wacct := ac,
          stateDB := gSetBalance P (gSetNonce P (stateDB w) a (u64 (Nonce (heap ac r)))) a (Balance (heap ac r)),
          accessed := (accessed w)(a \<mapsto> wsnapshot w + 1)\<rparr>))"

definition Wrapper_AddAddressToAccessList :: "'s geth \<Rightarrow> 's StateDBWrapper \<Rightarrow> addr \<Rightarrow> 's StateDBWrapper" where
  "Wrapper_AddAddressToAccessList P w a =
     (let w1 = addAccessedObjAddr P w a in w1\<lparr>stateDB := gAddAddressToAccessList P (stateDB w1) a\<rparr>)"

text \<open>An absent receiver is a zero address here.\<close>

definition Wrapper_Initiate :: "'s geth \<Rightarrow> 's StateDBWrapper \<Rightarrow> bytes \<Rightarrow> int \<Rightarrow> addr \<Rightarrow> addr \<Rightarrow> int \<Rightarrow> bool \<Rightarrow> 's StateDBWrapper" where
  "Wrapper_Initiate P w txhash txidx frm to snap exec =
     (let w1 = w\<lparr>wexec := exec, wsnapshot := snap, stateDB := gSetTxContext P (stateDB w) (Array32 txhash) txidx\<rparr>;
          w2 = Wrapper_AddAddressToAccessList P w1 (Array20 frm)
      in if IsZeroAddress to then w2 else Wrapper_AddAddressToAccessList P w2 (Array20 to))"

definition finish_acct :: "'s geth \<Rightarrow> 's \<Rightarrow> bool \<Rightarrow> addr \<Rightarrow> AcctCtrler \<Rightarrow> AcctCtrler" where
  "finish_acct P sdb exec a ac =
     (case FindOrNewAccount ac a exec of (ac1, r) \<Rightarrow>
       (let x = Account_SetBalance (heap ac1 r) (gGetBalance P sdb a);
            x1 = (if gGetCodeSize P sdb a > 0
                  then Account_SetNonce (if AcctCode x = [] then Account_SetCode x (gGetCodeHash P sdb a) else x)
                         (i64 (gGetNonce P sdb a))
                  else x)
        in setAccount (put ac1 r x1) r exec))"

definition Wrapper_Finish :: "'s geth \<Rightarrow> 's StateDBWrapper \<Rightarrow> 's StateDBWrapper" where
  "Wrapper_Finish P w =
     w\<lparr>wacct := fold (finish_acct P (stateDB w) (wexec w)) (sorted_list_of_set (dom (accessed w))) (wacct w),
       accessed := Map.empty\<rparr>"

definition Wrapper_Prepare :: "'s geth \<Rightarrow> 's StateDBWrapper \<Rightarrow> addr \<Rightarrow> addr \<Rightarrow> addr option \<Rightarrow> 's StateDBWrapper" where
  "Wrapper_Prepare P w sender coinbase dst =
     (let w1 = addAccessedObjAddr P w sender;
          w2 = (case dst of None \<Rightarrow> w1 | Some d \<Rightarrow> addAccessedObjAddr P w1 d);
          w3 = addAccessedObjAddr P (fold (\<lambda>a w. addAccessedObjAddr P w a) (gPrecompiles P) w2) coinbase
      in w3\<lparr>stateDB := gPrepare P (stateDB w3) sender coinbase dst\<rparr>)"

definition revertAccessedObjAddr :: "'s StateDBWrapper \<Rightarrow> int \<Rightarrow> 's StateDBWrapper" where
  "revertAccessedObjAddr w snap =
     w\<lparr>accessed := (\<lambda>a. case accessed w a of Some v \<Rightarrow> (if snap < v then None else Some v) | None \<Rightarrow> None)\<rparr>"

definition Wrapper_RevertToSnapshot :: "'s geth \<Rightarrow> 's StateDBWrapper \<Rightarrow> int \<Rightarrow> 's StateDBWrapper" where
  "Wrapper_RevertToSnapshot P w revid =
     (let w1 = revertAccessedObjAddr w revid in w1\<lparr>stateDB := gRevertToSnapshot P (stateDB w1) revid\<rparr>)"

definition Wrapper_Snapshot :: "'s geth \<Rightarrow> 's StateDBWrapper \<Rightarrow> 's StateDBWrapper \<times> int" where
  "Wrapper_Snapshot P w = (case gSnapshot P (stateDB w) of (sdb, n) \<Rightarrow> (w\<lparr>stateDB := sdb, wsnapshot := n\<rparr>, n))"

section \<open>Messages\<close>

text \<open>The block context of the virtual machine, with the fields the transition reads.\<close>

record evm_block =
  ebCoinbase :: addr
  ebGasLimit :: int
  ebBlockNumber :: int
  ebTime :: int
  ebBaseFee :: int
  ebBlobBaseFee :: int

definition evmBlockContext :: "addr \<Rightarrow> int \<Rightarrow> int \<Rightarrow> int \<Rightarrow> evm_block" where
  "evmBlockContext coinbase gasLimit bn tm =
     \<lparr>ebCoinbase = coinbase, ebGasLimit = u64 gasLimit, ebBlockNumber = bn, ebTime = u64 tm, ebBaseFee = 0, ebBlobBaseFee = 0\<rparr>"

record Message =
  mTo :: "addr option"
  mFrom :: addr
  mNonce :: int
  mValue :: int
  mGasLimit :: int
  mGasPrice :: int
  mGasFeeCap :: "int option"
  mGasTipCap :: int
  mData :: bytes
  mSkipAccountChecks :: bool
  mBlobGasFeeCap :: int
  mBlobHashes :: "bytes list option"

definition evmMessage :: "addr \<Rightarrow> addr option \<Rightarrow> int \<Rightarrow> int \<Rightarrow> uint256 \<Rightarrow> uint256 \<Rightarrow> bytes \<Rightarrow> bool \<Rightarrow> Message" where
  "evmMessage frm to nonce gasLimit gasPrice amt data isFake =
     \<lparr>mTo = to, mFrom = frm, mNonce = u64 nonce, mValue = uint amt, mGasLimit = u64 gasLimit, mGasPrice = uint gasPrice,
      mGasFeeCap = Some 0, mGasTipCap = 0, mData = data, mSkipAccountChecks = isFake, mBlobGasFeeCap = 0, mBlobHashes = None\<rparr>"

section \<open>State transition\<close>

record 's VMStateTransition =
  stGp :: int
  stGasRemaining :: int
  stInitialGas :: int
  stW :: "'s StateDBWrapper"

record ExecutionResult =
  UsedGas :: int
  RefundedGas :: int
  VmErr :: "string option"
  ReturnData :: bytes

definition NewVMStateTransition :: "'s StateDBWrapper \<Rightarrow> int \<Rightarrow> 's VMStateTransition" where
  "NewVMStateTransition w gp = \<lparr>stGp = gp, stGasRemaining = 0, stInitialGas = 0, stW = w\<rparr>"

definition st_gasUsed :: "'s VMStateTransition \<Rightarrow> int" where
  "st_gasUsed st = u64 (stInitialGas st - stGasRemaining st)"

definition blobGasUsed :: "'s geth \<Rightarrow> Message \<Rightarrow> int" where
  "blobGasUsed P msg = u64 (i64 (int (case mBlobHashes msg of None \<Rightarrow> 0 | Some hs \<Rightarrow> length hs) * gBlobGasPerBlob P))"

text \<open>All forks up to Cancun are active from the first block on.\<close>

definition balance_check :: "'s geth \<Rightarrow> Message \<Rightarrow> int" where
  "balance_check P msg =
     (case mGasFeeCap msg of None \<Rightarrow> mGasLimit msg * mGasPrice msg | Some cap \<Rightarrow> mGasLimit msg * cap + mValue msg) +
     (if blobGasUsed P msg > 0 then blobGasUsed P msg * mBlobGasFeeCap msg else 0)"

definition buyGas :: "gaspool \<Rightarrow> 's geth \<Rightarrow> Message \<Rightarrow> 's VMStateTransition \<Rightarrow> goerror + 's VMStateTransition" where
  "buyGas G P msg st =
     (if balance_check P msg \<ge> 2 ^ 256 then Inl (EFmt ''insufficient funds: required balance exceeds 256 bits'')
      else if uint (gGetBalance P (stateDB (stW st)) (mFrom msg)) < balance_check P msg then Inl (EFmt ''insufficient funds'')
      else (case SubGas G (stGp st) (mGasLimit msg) of
              Inl e \<Rightarrow> Inl e
            | Inr gp \<Rightarrow> Inr (st\<lparr>stGp := gp, stGasRemaining := u64 (stGasRemaining st + mGasLimit msg),
                              stInitialGas := mGasLimit msg\<rparr>)))"

definition check_account :: "'s geth \<Rightarrow> 's \<Rightarrow> Message \<Rightarrow> goerror option" where
  "check_account P sdb msg =
     (let stNonce = gGetNonce P sdb (mFrom msg); codeHash = gGetCodeHash P sdb (mFrom msg) in
      if mSkipAccountChecks msg then None
      else if stNonce < mNonce msg then Some (EFmt ''nonce too high'')
      else if stNonce > mNonce msg then Some (EFmt ''nonce too low'')
      else if u64 (stNonce + 1) < stNonce then Some (EFmt ''nonce has max value'')
      else if codeHash \<noteq> replicate 32 0 \<and> codeHash \<noteq> gEmptyCodeHash P then Some (EFmt ''sender not an eoa'')
      else None)"

text \<open>The virtual machine runs with \<open>NoBaseFee\<close>, so zero fee caps are not compared. Messages always carry a fee cap.\<close>

definition check_fee_caps :: "evm_block \<Rightarrow> Message \<Rightarrow> goerror option" where
  "check_fee_caps eb msg =
     (let cap = (case mGasFeeCap msg of None \<Rightarrow> 0 | Some c \<Rightarrow> c) in
      if cap \<le> 0 \<and> mGasTipCap msg \<le> 0 then None
      else if cap \<ge> 2 ^ 256 then Some (EFmt ''max fee per gas higher than 2^256-1'')
      else if mGasTipCap msg \<ge> 2 ^ 256 then Some (EFmt ''max priority fee per gas higher than 2^256-1'')
      else if cap < mGasTipCap msg then Some (EFmt ''max priority fee per gas higher than max fee per gas'')
      else if cap < ebBaseFee eb then Some (EFmt ''max fee per gas less than block base fee'')
      else None)"

definition check_blobs :: "'s geth \<Rightarrow> evm_block \<Rightarrow> Message \<Rightarrow> goerror option" where
  "check_blobs P eb msg =
     (case mBlobHashes msg of
        Some hs \<Rightarrow>
          (if mTo msg = None then Some (EFmt ''blob transaction of type create'')
           else if hs = [] then Some (EFmt ''blob transaction missing blob hashes'')
           else if \<not> list_all (gIsValidVersionedHash P) hs then Some (EFmt ''blob has invalid hash version'')
           else if blobGasUsed P msg > 0 \<and> mBlobGasFeeCap msg > 0 \<and> mBlobGasFeeCap msg < ebBlobBaseFee eb
           then Some (EFmt ''max fee per blob gas less than block blob gas fee'')
           else None)
      | None \<Rightarrow> None)"

definition preCheck :: "gaspool \<Rightarrow> 's geth \<Rightarrow> evm_block \<Rightarrow> Message \<Rightarrow> 's VMStateTransition \<Rightarrow> goerror + 's VMStateTransition" where
  "preCheck G P eb msg st =
     (case check_account P (stateDB (stW st)) msg of
        Some e \<Rightarrow> Inl e
      | None \<Rightarrow> (case check_fee_caps eb msg of
          Some e \<Rightarrow> Inl e
        | None \<Rightarrow> (case check_blobs P eb msg of Some e \<Rightarrow> Inl e | None \<Rightarrow> buyGas G P msg st)))"

definition refundGas :: "gaspool \<Rightarrow> 's geth \<Rightarrow> 's VMStateTransition \<Rightarrow> ('s VMStateTransition \<times> int) go" where
  "refundGas G P st =
     (let refund = min (st_gasUsed st div gRefundQuotient P) (gGetRefund P (stateDB (stW st)));
          remaining = u64 (stGasRemaining st + refund)
      in case AddGas G (stGp st) remaining of
           Panic \<Rightarrow> Panic
         | Ret gp \<Rightarrow> Ret (st\<lparr>stGasRemaining := remaining, stGp := gp\<rparr>, refund))"

definition run_vm :: "'s geth \<Rightarrow> evm_block \<Rightarrow> Message \<Rightarrow> 's VMStateTransition \<Rightarrow> 's VMStateTransition \<times> bytes \<times> string option" where
  "run_vm P eb msg st =
     (let w = Wrapper_Prepare P (stW st) (mFrom msg) (ebCoinbase eb) (mTo msg);
          v = word_of_int (mValue msg)
      in case mTo msg of
           None \<Rightarrow> (case gCreate P w (mFrom msg) (mData msg) (stGasRemaining st) v of
             (w1, ret, gas, err) \<Rightarrow> (st\<lparr>stW := w1, stGasRemaining := gas\<rparr>, ret, err))
         | Some to \<Rightarrow>
             (let w0 = w\<lparr>stateDB := gSetNonce P (stateDB w) (mFrom msg) (u64 (gGetNonce P (stateDB w) (mFrom msg) + 1))\<rparr>
              in case gCall P w0 (mFrom msg) to (mData msg) (stGasRemaining st) v of
                (w1, ret, gas, err) \<Rightarrow> (st\<lparr>stW := w1, stGasRemaining := gas\<rparr>, ret, err)))"

text \<open>The transition is returned on errors too: gas that was bought stays bought.\<close>

definition TransitionDb ::
  "gaspool \<Rightarrow> 's geth \<Rightarrow> evm_block \<Rightarrow> Message \<Rightarrow> 's VMStateTransition \<Rightarrow> ('s VMStateTransition \<times> (goerror + ExecutionResult)) go" where
  "TransitionDb G P eb msg st0 =
     (case preCheck G P eb msg st0 of
        Inl e \<Rightarrow> Ret (st0, Inl e)
      | Inr st \<Rightarrow>
          (case gIntrinsicGas P (mData msg) (mTo msg = None) of
             Inl e \<Rightarrow> Ret (st, Inl e)
           | Inr gas \<Rightarrow>
               if stGasRemaining st < gas then Ret (st, Inl (EFmt ''intrinsic gas too low''))
               else (let st1 = st\<lparr>stGasRemaining := stGasRemaining st - gas\<rparr> in
                 if mValue msg \<ge> 2 ^ 256 then Ret (st1, Inl (EFmt ''insufficient funds for transfer''))
                 else if mValue msg \<noteq> 0 \<and> \<not> gCanTransfer P (stateDB (stW st1)) (mFrom msg) (word_of_int (mValue msg))
                 then Ret (st1, Inl (EFmt ''insufficient funds for transfer''))
                 else if mTo msg = None \<and> length (mData msg) > gMaxInitCodeSize P
                 then Ret (st1, Inl (EFmt ''max initcode size exceeded''))
                 else (case run_vm P eb msg st1 of (st2, ret, vmerr) \<Rightarrow>
                   (case refundGas G P st2 of
                      Panic \<Rightarrow> Panic
                    | Ret (st3, refund) \<Rightarrow>
                        Ret (st3, Inr \<lparr>UsedGas = st_gasUsed st3, RefundedGas = refund, VmErr = vmerr, ReturnData = ret\<rparr>))))))"

section \<open>The controller\<close>

record 's EVMCtrler =
  evStateDB :: 's
  evAccessed :: "addr \<rightharpoonup> int"
  evSnapshot :: int
  evBlock :: evm_block
  evRootHashes :: "int \<rightharpoonup> bytes"
  evLastRootHash :: bytes
  evLastBlockHeight :: int

definition wrapper_of :: "'s EVMCtrler \<Rightarrow> AcctCtrler \<Rightarrow> bool \<Rightarrow> 's StateDBWrapper" where
  "wrapper_of c ac exec = \<lparr>stateDB = evStateDB c, wacct = ac, accessed = evAccessed c, wsnapshot = evSnapshot c, wexec = exec\<rparr>"

definition keep_wrapper :: "'s EVMCtrler \<Rightarrow> 's StateDBWrapper \<Rightarrow> 's EVMCtrler" where
  "keep_wrapper c w = c\<lparr>evStateDB := stateDB w, evAccessed := accessed w, evSnapshot := wsnapshot w\<rparr>"

definition EVMCtrler_BeginBlock :: "'s geth \<Rightarrow> AcctCtrler \<Rightarrow> BlockContext \<Rightarrow> 's EVMCtrler \<Rightarrow> 's EVMCtrler res" where
  "EVMCtrler_BeginBlock P ac b c =
     (if i64 (evLastBlockHeight c + 1) \<noteq> Height b then Inl (Wrapf ErrBeginBlock ''wrong block height'')
      else (case NewStateDBWrapper P (evLastRootHash c) ac of
              Inl e \<Rightarrow> Inl (NewOrdinary (goError e))
            | Inr w \<Rightarrow> Inr ((keep_wrapper c w)\<lparr>evBlock := evmBlockContext (Array20 (opt_bytes (biProposer (blockInfo b))))
                (blockGasLimit b) (Height b) (biTime (blockInfo b))\<rparr>)))"

definition evm_input :: "Trx \<Rightarrow> bytes" where
  "evm_input tx = (case txPayload tx of Some (TrxPayloadContract d) \<Rightarrow> d | _ \<Rightarrow> [])"

definition EVMCtrler_ValidateTrx :: "'s geth \<Rightarrow> AcctCtrler \<Rightarrow> TrxContext \<Rightarrow> TrxContext res" where
  "EVMCtrler_ValidateTrx P ac ctx =
     (let rcv = heap ac (Receiver ctx); data = evm_input (Tx ctx) in
      if \<not> bytes_Equal (Address rcv) ZeroAddress \<and> AcctCode rcv = [] then Inl ErrInvalidAccountType
      else if bytes_Equal (Address rcv) ZeroAddress \<and> data = [] then Inl ErrInvalidTrxPayloadParams
      else (case gIntrinsicGas P data (IsZeroAddress (opt_bytes (txTo (Tx ctx)))) of
              Inl e \<Rightarrow> Inl (NewOrdinary (goError e))
            | Inr gas \<Rightarrow> if u64 (txGas (Tx ctx)) < gas then Inl (Wrapf ErrInvalidGas ''invalid gas'')
                         else Inr (if Exec ctx then ctx else ctx\<lparr>GasUsed := i64 gas\<rparr>)))"

definition tx_message :: "Trx \<Rightarrow> Message" where
  "tx_message tx =
     (let to = opt_bytes (txTo tx);
          toAddr = (if txTo tx \<noteq> None \<and> \<not> IsZeroAddress to then Some (Array20 to) else None)
      in evmMessage (Array20 (txFrom tx)) toAddr (txNonce tx) (txGas tx) (txGasPrice tx) (txAmount tx) (evm_input tx) False)"

definition execVM ::
  "gaspool \<Rightarrow> 's geth \<Rightarrow> evm_block \<Rightarrow> 's StateDBWrapper \<Rightarrow> int \<Rightarrow> Trx \<Rightarrow> ('s VMStateTransition \<times> (goerror + ExecutionResult)) go" where
  "execVM G P eb w gp tx = TransitionDb G P eb (tx_message tx) (NewVMStateTransition w gp)"

definition evm_start :: "'s geth \<Rightarrow> 's EVMCtrler \<Rightarrow> AcctCtrler \<Rightarrow> TrxContext \<Rightarrow> 's StateDBWrapper \<times> int" where
  "evm_start P c ac ctx = (case Wrapper_Snapshot P (wrapper_of c ac True) of (w0, snap) \<Rightarrow>
     (Wrapper_Initiate P w0 (TxHash ctx) (TxIdx ctx) (txFrom (Tx ctx)) (opt_bytes (txTo (Tx ctx))) snap (Exec ctx), snap))"

definition vm_error :: "string \<Rightarrow> xerror" where
  "vm_error e = (if e = ''execution reverted'' then Wrapf (NewOrdinary e) ''reason'' else Wrap (NewOrdinary e) (EFmt []))"

definition EVMCtrler_ExecuteTrx ::
  "gaspool \<Rightarrow> 's geth \<Rightarrow> 's EVMCtrler \<Rightarrow> AcctCtrler \<Rightarrow> BlockContext \<Rightarrow> TrxContext \<Rightarrow>
     ('s EVMCtrler \<times> AcctCtrler \<times> BlockContext \<times> TrxContext \<times> xerror option) go" where
  "EVMCtrler_ExecuteTrx G P c ac b ctx =
     (if \<not> Exec ctx then
        (case Account_SubBalance (heap ac (Sender ctx)) (txAmount (Tx ctx)) of
           Inl e \<Rightarrow> Ret (c, ac, b, ctx, Some e)
         | Inr x \<Rightarrow> Ret (c, setAccount (put ac (Sender ctx) x) (Sender ctx) False, b, ctx, None))
      else
        (case evm_start P c ac ctx of (w1, snap) \<Rightarrow>
         (case execVM G P (evBlock c) w1 (blockGasPool b) (Tx ctx) of
            Panic \<Rightarrow> Panic
          | Ret (st, Inl e) \<Rightarrow>
              (let w2 = Wrapper_Finish P (Wrapper_RevertToSnapshot P (stW st) snap) in
               Ret (keep_wrapper c w2, wacct w2, b\<lparr>blockGasPool := stGp st\<rparr>, ctx, Some (NewOrdinary (goError e))))
          | Ret (st, Inr r) \<Rightarrow>
              (let b1 = b\<lparr>blockGasPool := stGp st\<rparr>; ctx1 = ctx\<lparr>GasUsed := i64 (UsedGas r)\<rparr> in
               case VmErr r of
                 Some e \<Rightarrow>
                   (let w2 = Wrapper_Finish P (Wrapper_RevertToSnapshot P (stW st) snap) in
                    Ret (keep_wrapper c w2, wacct w2, b1, ctx1, Some (vm_error e)))
               | None \<Rightarrow>
                   (let w2 = Wrapper_Finish P (stW st) in
                    Ret (keep_wrapper c (w2\<lparr>stateDB := gFinalise P (stateDB w2)\<rparr>), wacct w2, b1, ctx1, None))))))"

text \<open>A failing commit of the state database panics.\<close>

definition EVMCtrler_Commit :: "'s geth \<Rightarrow> AcctCtrler \<Rightarrow> 's EVMCtrler \<Rightarrow> ('s EVMCtrler \<times> bytes \<times> int) go" where
  "EVMCtrler_Commit P ac c =
     (case gCommit P (evStateDB c) (u64 (u64 (evLastBlockHeight c) + 1)) of
        Panic \<Rightarrow> Panic
      | Ret root \<Rightarrow>
          (let h = i64 (evLastBlockHeight c + 1);
               c1 = c\<lparr>evLastBlockHeight := h, evLastRootHash := root, evRootHashes := (evRootHashes c)(h \<mapsto> root)\<rparr>
           in case NewStateDBWrapper P root ac of
                Inl _ \<Rightarrow> Panic
              | Inr w \<Rightarrow> Ret (keep_wrapper c1 w, root, h)))"

end
