(* ===== verification/Merkle.thy ===== *)
theory Merkle
  imports Sha256 Xerrors
begin

text \<open>
  The Merkle tree over the events of a transaction (\<open>types/merkle/tree.go\<close>): an array of \<open>2 * leafCount\<close> nodes in
  which the children of node \<open>i\<close> are the nodes \<open>2i\<close> and \<open>2i+1\<close>. A nil byte slice, which stands for a missing leaf
  and for a node without leaves below it, is \<open>None\<close>.
\<close>

record MerkleTree =
  nodes :: "bytes option list"
  leafCount :: nat

text \<open>\<open>bits.Len\<close>, and the smallest power of two that is at least \<open>n\<close>.\<close>

fun bits_Len :: "nat \<Rightarrow> nat" where
  "bits_Len n = (if n = 0 then 0 else Suc (bits_Len (n div 2)))"

declare bits_Len.simps [simp del]

definition nextPowerOf2 :: "nat \<Rightarrow> nat" where
  "nextPowerOf2 n = (if n \<le> 1 then 1 else push_bit (bits_Len (n - 1)) 1)"

definition buf_of :: "bytes option \<Rightarrow> bytes option \<Rightarrow> bytes" where
  "buf_of l r = (case l of None \<Rightarrow> [] | Some x \<Rightarrow> x) @ (case r of None \<Rightarrow> [] | Some x \<Rightarrow> x)"

definition hashPair :: "bytes option \<Rightarrow> bytes option \<Rightarrow> bytes option" where
  "hashPair l r = (if l = None \<and> r = None then None else Some (sha256 (buf_of l r)))"

primrec build_nodes :: "nat \<Rightarrow> bytes option list \<Rightarrow> bytes option list" where
  "build_nodes 0 ns = ns"
| "build_nodes (Suc i) ns = build_nodes i (ns[Suc i := hashPair (ns ! (2 * Suc i)) (ns ! (2 * Suc i + 1))])"

text \<open>\<open>make([][]byte, leafCount*2)\<close> with the leaves copied behind the inner nodes.\<close>

definition leaf_nodes :: "bytes list \<Rightarrow> bool \<Rightarrow> bytes option list" where
  "leaf_nodes leaves preHashed =
     (let n = nextPowerOf2 (length leaves) in
      replicate n None @ map (\<lambda>x. Some (if preHashed then x else sha256 x)) leaves @ replicate (n - length leaves) None)"

definition newMerkleTree :: "bytes list \<Rightarrow> bool \<Rightarrow> MerkleTree" where
  "newMerkleTree leaves preHashed =
     (let n = nextPowerOf2 (length leaves) in
      \<lparr>nodes = build_nodes (n - 1) (leaf_nodes leaves preHashed), leafCount = n\<rparr>)"

definition MerkleTree_Root :: "MerkleTree \<Rightarrow> bytes option" where
  "MerkleTree_Root t = nodes t ! 1"

fun proof_loop :: "bytes option list \<Rightarrow> nat \<Rightarrow> bytes option list" where
  "proof_loop ns nodeIdx = (if nodeIdx > 1 then ns ! (nodeIdx XOR 1) # proof_loop ns (nodeIdx div 2) else [])"

declare proof_loop.simps [simp del]

definition MerkleTree_Proof :: "MerkleTree \<Rightarrow> int \<Rightarrow> goerror + (bytes option \<times> bytes option list)" where
  "MerkleTree_Proof t index =
     (if index < 0 \<or> index \<ge> int (leafCount t) then Inl (EFmt ''index out of range'')
      else Inr (nodes t ! (leafCount t + nat index), proof_loop (nodes t) (leafCount t + nat index)))"

text \<open>Go's division truncates and \<open>nodeIdx%2 == 0\<close> is evenness for negative numbers too.\<close>

fun verify_loop :: "int \<Rightarrow> bytes option \<Rightarrow> bytes option list \<Rightarrow> bytes option" where
  "verify_loop nodeIdx current [] = current"
| "verify_loop nodeIdx current (sibling # siblings) =
     verify_loop (nodeIdx sdiv 2) (if even nodeIdx then hashPair current sibling else hashPair sibling current) siblings"

definition VerifyProof :: "int \<Rightarrow> bytes \<Rightarrow> bytes option list \<Rightarrow> bytes option \<Rightarrow> bool \<Rightarrow> goerror option" where
  "VerifyProof index data siblings root preHashed =
     (let current = verify_loop index (Some (if preHashed then data else sha256 data)) siblings;
          c = (case current of None \<Rightarrow> [] | Some x \<Rightarrow> x); r = (case root of None \<Rightarrow> [] | Some x \<Rightarrow> x)
      in if length c \<noteq> length r then Some (EFmt ''length mismatch'')
         else if c \<noteq> r then Some (EFmt ''hash mismatch'') else None)"

section \<open>The shape of a tree\<close>

lemma bits_Len_bounds: "0 < n \<Longrightarrow> 2 ^ (bits_Len n - 1) \<le> n \<and> n < 2 ^ bits_Len n"
proof (induction n rule: bits_Len.induct)
  case (1 n)
  show ?case
  proof (cases "n div 2 = 0")
    case True
    then have "n = 1" using 1 by auto
    then show ?thesis by (simp add: bits_Len.simps)
  next
    case False
    then have "2 ^ (bits_Len (n div 2) - 1) \<le> n div 2 \<and> n div 2 < 2 ^ bits_Len (n div 2)" using 1 by simp
    moreover obtain k where k: "bits_Len (n div 2) = Suc k" using False bits_Len.simps[of "n div 2"] by auto
    moreover have "bits_Len n = Suc (bits_Len (n div 2))" using 1(2) by (subst bits_Len.simps) simp
    ultimately show ?thesis by auto
  qed
qed

text \<open>The leaf count is the least power of two that holds the leaves.\<close>

lemma nextPowerOf2_pow: "\<exists>d. nextPowerOf2 n = 2 ^ d \<and> n \<le> 2 ^ d \<and> (1 < n \<longrightarrow> 2 ^ d < 2 * n)"
proof (cases "n \<le> 1")
  case True
  then show ?thesis by (intro exI[of _ 0]) (simp add: nextPowerOf2_def)
next
  case False
  let ?d = "bits_Len (n - 1)"
  have b: "2 ^ (?d - 1) \<le> n - 1" "n - 1 < 2 ^ ?d" using bits_Len_bounds[of "n - 1"] False by auto
  have "?d \<noteq> 0" using False by (subst bits_Len.simps) auto
  then have "(2::nat) ^ ?d = 2 * 2 ^ (?d - 1)" by (metis power_eq_if)
  then have "n \<le> 2 ^ ?d \<and> 2 ^ ?d < 2 * n" using b False by linarith
  then show ?thesis using False by (intro exI[of _ ?d]) (simp add: nextPowerOf2_def push_bit_eq_mult)
qed

lemma length_build_nodes [simp]: "length (build_nodes i ns) = length ns"
  by (induction i arbitrary: ns) auto

lemma build_nodes_above: "i < j \<Longrightarrow> build_nodes i ns ! j = ns ! j"
  by (induction i arbitrary: ns) auto

lemma build_nodes_inner:
  "1 \<le> j \<Longrightarrow> j \<le> i \<Longrightarrow> i < length ns \<Longrightarrow>
     build_nodes i ns ! j = hashPair (build_nodes i ns ! (2 * j)) (build_nodes i ns ! (2 * j + 1))"
proof (induction i arbitrary: ns)
  case 0
  then show ?case by simp
next
  case (Suc i)
  show ?case
  proof (cases "j = Suc i")
    case True
    then show ?thesis using Suc.prems by (simp add: build_nodes_above)
  next
    case False
    then show ?thesis using Suc by simp
  qed
qed

definition tree_ok :: "MerkleTree \<Rightarrow> nat \<Rightarrow> bool" where
  "tree_ok t d \<longleftrightarrow> leafCount t = 2 ^ d \<and> length (nodes t) = 2 * 2 ^ d \<and>
     (\<forall>j. 1 \<le> j \<longrightarrow> j < 2 ^ d \<longrightarrow> nodes t ! j = hashPair (nodes t ! (2 * j)) (nodes t ! (2 * j + 1)))"

lemma newMerkleTree_ok: "\<exists>d. tree_ok (newMerkleTree leaves p) d \<and> length leaves \<le> 2 ^ d"
proof -
  obtain d where d: "nextPowerOf2 (length leaves) = 2 ^ d" "length leaves \<le> 2 ^ d" using nextPowerOf2_pow by blast
  then have "tree_ok (newMerkleTree leaves p) d"
    using build_nodes_inner[of _ "2 ^ d - 1" "leaf_nodes leaves p"]
    by (auto simp: tree_ok_def newMerkleTree_def leaf_nodes_def Let_def)
  then show ?thesis using d by blast
qed

lemma newMerkleTree_leaf:
  assumes "i < length leaves"
  shows "nodes (newMerkleTree leaves p) ! (leafCount (newMerkleTree leaves p) + i) =
    Some (if p then leaves ! i else sha256 (leaves ! i))"
proof -
  obtain d where d: "nextPowerOf2 (length leaves) = 2 ^ d" using nextPowerOf2_pow by blast
  have "2 ^ d - 1 < 2 ^ d + i" using one_le_power[of "2::nat" d] by linarith
  then show ?thesis using assms d
    by (simp add: newMerkleTree_def Let_def build_nodes_above leaf_nodes_def nth_append)
qed

lemma hashPair_parent:
  assumes t: "tree_ok t d" and n: "1 < n" "n < 2 * 2 ^ d"
  shows "nodes t ! (n div 2) = (if even n then hashPair (nodes t ! n) (nodes t ! (n XOR 1)) else hashPair (nodes t ! (n XOR 1)) (nodes t ! n))"
proof -
  have "1 \<le> n div 2" "n div 2 < 2 ^ d" using n by auto
  then have "nodes t ! (n div 2) = hashPair (nodes t ! (2 * (n div 2))) (nodes t ! (2 * (n div 2) + 1))"
    using t by (simp add: tree_ok_def)
  then show ?thesis using n(1) by (cases "even n") (auto simp: xor_Suc_0_eq elim!: evenE oddE)
qed

section \<open>Proofs are accepted\<close>

lemma verify_proof_loop:
  assumes t: "tree_ok t d" and k: "k \<le> d" "i < 2 ^ k"
  shows "verify_loop (int i) (nodes t ! (2 ^ k + i)) (proof_loop (nodes t) (2 ^ k + i)) = nodes t ! 1 \<and>
    length (proof_loop (nodes t) (2 ^ k + i)) = k"
  using k
proof (induction k arbitrary: i)
  case 0
  then show ?case by (simp add: proof_loop.simps)
next
  case (Suc k)
  let ?n = "2 ^ Suc k + i"
  have "1 < ?n" using one_le_power[of "2::nat" k] unfolding power_Suc by linarith
  then have n: "1 < ?n" "?n div 2 = 2 ^ k + i div 2" "even ?n = even i" by auto
  have "(2::nat) ^ Suc k \<le> 2 ^ d" using Suc.prems(1) by (intro power_increasing) auto
  then have "?n < 2 * 2 ^ d" using Suc.prems(2) by linarith
  then have "nodes t ! (2 ^ k + i div 2) =
      (if even i then hashPair (nodes t ! ?n) (nodes t ! (?n XOR 1)) else hashPair (nodes t ! (?n XOR 1)) (nodes t ! ?n))"
    using hashPair_parent[OF t n(1)] n by simp
  moreover have "int i sdiv 2 = int (i div 2)" by (simp add: zdiv_int)
  ultimately show ?case using Suc.IH[of "i div 2"] Suc.prems n by (subst (1 2) proof_loop.simps) auto
qed

text \<open>
  (C0) For every list of leaves and every index of a leaf, \<open>Proof\<close> returns the leaf's hash with one sibling for each
  level of the tree, and \<open>VerifyProof\<close> accepts it for the leaf against the tree's root. The number of levels is that of
  the smallest complete tree that holds the leaves.
\<close>
theorem merkle_proof_accepted:
  assumes "i < length leaves"
  shows "\<exists>d siblings. MerkleTree_Proof (newMerkleTree leaves p) (int i) =
      Inr (Some (if p then leaves ! i else sha256 (leaves ! i)), siblings) \<and>
    length siblings = d \<and> length leaves \<le> 2 ^ d \<and> (length leaves > 1 \<longrightarrow> 2 ^ d < 2 * length leaves) \<and>
    VerifyProof (int i) (leaves ! i) siblings (MerkleTree_Root (newMerkleTree leaves p)) p = None"
proof -
  let ?t = "newMerkleTree leaves p"
  obtain d where t: "tree_ok ?t d" "length leaves \<le> 2 ^ d" using newMerkleTree_ok by blast
  then have lc: "leafCount ?t = 2 ^ d" by (simp add: tree_ok_def)
  moreover have "1 < length leaves \<longrightarrow> 2 ^ d < 2 * length leaves"
    using nextPowerOf2_pow[of "length leaves"] lc by (auto simp: newMerkleTree_def Let_def)
  ultimately show ?thesis
    using verify_proof_loop[OF t(1) order_refl, of i] newMerkleTree_leaf[OF assms, of p] assms t(2)
    by (intro exI[of _ d] exI[of _ "proof_loop (nodes ?t) (2 ^ d + i)"])
       (auto simp: MerkleTree_Proof_def VerifyProof_def MerkleTree_Root_def Let_def)
qed

theorem merkle_proof_accepted_witness:
  "\<exists>d siblings. MerkleTree_Proof (newMerkleTree [[1], [2], [3]] False) 2 = Inr (Some (sha256 [3]), siblings) \<and> length siblings = d \<and>
    VerifyProof 2 [3] siblings (MerkleTree_Root (newMerkleTree [[1], [2], [3]] False)) False = None"
  using merkle_proof_accepted[of 2 "[[1], [2], [3]]" False] by auto

section \<open>Proofs bind\<close>

text \<open>The strings a verification hashes, from the leaf's level to the root.\<close>

fun verify_inputs :: "int \<Rightarrow> bytes option \<Rightarrow> bytes option list \<Rightarrow> bytes list" where
  "verify_inputs nodeIdx current [] = []"
| "verify_inputs nodeIdx current (s # ss) =
     (let (l, r) = (if even nodeIdx then (current, s) else (s, current))
      in buf_of l r # verify_inputs (nodeIdx sdiv 2) (hashPair l r) ss)"

definition collision :: "(bytes \<times> bytes) list \<Rightarrow> bool" where
  "collision ps \<longleftrightarrow> list_ex (\<lambda>(x, y). x \<noteq> y \<and> sha256 x = sha256 y) ps"

lemma verify_loop_binds:
  assumes "length ss = length ss'" "length a = 32" "length b = 32"
    "verify_loop i (Some a) ss = verify_loop i (Some b) ss'"
  shows "a = b \<or> collision (zip (verify_inputs i (Some a) ss) (verify_inputs i (Some b) ss'))"
  using assms
proof (induction ss ss' arbitrary: i a b rule: list_induct2)
  case Nil
  then show ?case by simp
next
  case (Cons s ss s' ss')
  define x where "x = (if even i then buf_of (Some a) s else buf_of s (Some a))"
  define y where "y = (if even i then buf_of (Some b) s' else buf_of s' (Some b))"
  have "verify_loop (i sdiv 2) (Some (sha256 x)) ss = verify_loop (i sdiv 2) (Some (sha256 y)) ss'"
    using Cons.prems(3) by (simp add: x_def y_def hashPair_def split: if_splits)
  then have "sha256 x = sha256 y \<or>
      collision (zip (verify_inputs (i sdiv 2) (Some (sha256 x)) ss) (verify_inputs (i sdiv 2) (Some (sha256 y)) ss'))"
    by (intro Cons.IH) simp_all
  moreover have "verify_inputs i (Some a) (s # ss) = x # verify_inputs (i sdiv 2) (Some (sha256 x)) ss"
      "verify_inputs i (Some b) (s' # ss') = y # verify_inputs (i sdiv 2) (Some (sha256 y)) ss'"
    by (simp_all add: x_def y_def hashPair_def)
  moreover have "a = b" if "x = y"
    using that Cons.prems(1,2) by (cases "even i") (auto simp: x_def y_def buf_of_def dest: append_eq_append_conv[THEN iffD1, rotated])
  ultimately show ?case by (auto simp: collision_def)
qed

text \<open>
  (C0) Proofs are binding: if two strings are both accepted at the same index against the same root, with
  the same number of siblings, whatever the siblings are, then the strings are equal or the two verifications hash, at the same level, two
  different strings with the same digest.
\<close>
theorem merkle_proof_binds:
  assumes "VerifyProof i data ss root False = None" "VerifyProof i data' ss' root False = None" "length ss = length ss'"
  shows "data = data' \<or>
    collision (zip (data # verify_inputs i (Some (sha256 data)) ss) (data' # verify_inputs i (Some (sha256 data')) ss'))"
proof -
  have some: "\<exists>c. verify_loop i (Some a) ss = Some c" for a ss i
    by (induction ss arbitrary: a i) (auto simp: hashPair_def)
  have "verify_loop i (Some (sha256 data)) ss = verify_loop i (Some (sha256 data')) ss'"
    using assms(1,2) some[of i "sha256 data" ss] some[of i "sha256 data'" ss']
    by (auto simp: VerifyProof_def Let_def split: if_splits option.splits)
  from verify_loop_binds[OF assms(3) _ _ this] show ?thesis by (auto simp: collision_def)
qed

text \<open>
  (C0) The number of siblings has to be compared by the caller: for every inner node that has leaves below it,
  \<open>VerifyProof\<close> also accepts the concatenation of the node's two children as the data of a leaf, with the
  shorter proof of the inner node.
\<close>
theorem inner_node_accepted:
  assumes "i < 2 ^ k" "2 ^ k < leafCount (newMerkleTree leaves p)"
    "nodes (newMerkleTree leaves p) ! (2 ^ k + i) \<noteq> None"
  shows "VerifyProof (int i)
    (buf_of (nodes (newMerkleTree leaves p) ! (2 * (2 ^ k + i))) (nodes (newMerkleTree leaves p) ! (2 * (2 ^ k + i) + 1)))
    (proof_loop (nodes (newMerkleTree leaves p)) (2 ^ k + i)) (MerkleTree_Root (newMerkleTree leaves p)) False = None"
proof -
  let ?t = "newMerkleTree leaves p" let ?n = "2 ^ k + i"
  obtain d where t: "tree_ok ?t d" using newMerkleTree_ok by blast
  have k: "k < d" using assms(2) t by (simp add: tree_ok_def)
  have "(2::nat) * 2 ^ k \<le> 2 ^ d" using power_increasing[of "Suc k" d "2::nat"] k by simp
  then have "?n < 2 ^ d" using assms(1) by linarith
  moreover have "1 \<le> ?n" using one_le_power[of "2::nat" k] by linarith
  ultimately have "nodes ?t ! ?n = hashPair (nodes ?t ! (2 * ?n)) (nodes ?t ! (2 * ?n + 1))" using t unfolding tree_ok_def by blast
  then have "nodes ?t ! ?n = Some (sha256 (buf_of (nodes ?t ! (2 * ?n)) (nodes ?t ! (2 * ?n + 1))))"
    using assms(3) by (simp add: hashPair_def split: if_splits)
  then show ?thesis using verify_proof_loop[OF t _ assms(1)] k by (simp add: VerifyProof_def MerkleTree_Root_def Let_def)
qed

text \<open>The theorems at small trees.\<close>

theorem merkle_proof_binds_witness:
  "VerifyProof 0 [7] [Some [1]] (Some (sha256 (sha256 [7] @ [1]))) False = None \<and>
   VerifyProof 0 [7] [Some [1], None] (Some (sha256 (sha256 (sha256 [7] @ [1])))) False = None \<and>
   ([7::byte] = [7] \<or> collision (zip ([7] # verify_inputs 0 (Some (sha256 [7])) [Some [1]]) ([7] # verify_inputs 0 (Some (sha256 [7])) [Some [1]])))"
proof -
  have "VerifyProof 0 [7] [Some [1]] (Some (sha256 (sha256 [7] @ [1]))) False = None"
       "VerifyProof 0 [7] [Some [1], None] (Some (sha256 (sha256 (sha256 [7] @ [1])))) False = None"
    by (simp_all add: VerifyProof_def Let_def hashPair_def buf_of_def)
  then show ?thesis using merkle_proof_binds by blast
qed

lemma two_leaves:
  "newMerkleTree [a, b] False =
     \<lparr>nodes = [None, Some (sha256 (sha256 a @ sha256 b)), Some (sha256 a), Some (sha256 b)], leafCount = 2\<rparr>"
proof -
  have "nextPowerOf2 2 = 2" by (simp add: nextPowerOf2_def bits_Len.simps)
  then show ?thesis
    by (simp add: newMerkleTree_def leaf_nodes_def Let_def hashPair_def buf_of_def numeral_2_eq_2)
qed

theorem inner_node_accepted_witness:
  "VerifyProof 0 (sha256 [1] @ sha256 [2]) [] (MerkleTree_Root (newMerkleTree [[1], [2]] False)) False = None \<and>
   sha256 [1] @ sha256 [2] \<notin> set [[1], [2]]"
proof -
  have "length (sha256 [1] @ sha256 [2]) = 64" by simp
  then have "sha256 [1] @ sha256 [2] \<notin> set [[1], [2]]" by (metis (no_types) list.set_intros list.size(3,4) numeral_eq_one_iff One_nat_def empty_iff insert_iff list.set(1,2) add_0 semiring_norm(83))
  then show ?thesis
    using inner_node_accepted[of 0 0 "[[1], [2]]" False] by (simp add: two_leaves buf_of_def proof_loop.simps)
qed

end
