(* ===== verification/Sign_State.thy ===== *)
theory Sign_State
  imports Xerrors Trx_Ctx
begin

text \<open>
  The validator's key file with its protection against double signing (\<open>types/crypto/sfile_pv.go\<close>). Canonical sign
  bytes, the protocol buffer codec, the private key's signature and the JSON form of the state file are the consensus
  engine's and libraries'; they are the fields of \<open>pv_ext\<close>. The disk is the content of the state file, which is
  replaced atomically.
\<close>

section \<open>Messages\<close>

record Vote =
  vType :: int
  vHeight :: int
  vRound :: int
  vBlockID :: bytes
  vTimestamp :: int
  vSignature :: bytes

record Proposal_msg =
  pHeight :: int
  pRound :: int
  pPolRound :: int
  pBlockID :: bytes
  pTimestamp :: int
  pSignature :: bytes

record CanonicalVote =
  cvType :: int
  cvHeight :: int
  cvRound :: int
  cvBlockID :: bytes
  cvTimestamp :: int
  cvChainID :: string

record CanonicalProposal =
  cpHeight :: int
  cpRound :: int
  cpPolRound :: int
  cpBlockID :: bytes
  cpTimestamp :: int
  cpChainID :: string

record SFilePVLastSignState =
  lsHeight :: int
  lsRound :: int
  lsStep :: int
  lsSignature :: "bytes option"
  lsSignBytes :: "bytes option"

record pv_ext =
  xVoteSignBytes :: "string \<Rightarrow> Vote \<Rightarrow> bytes"
  xProposalSignBytes :: "string \<Rightarrow> Proposal_msg \<Rightarrow> bytes"
  xUnmarshalVote :: "bytes \<Rightarrow> CanonicalVote option"
  xUnmarshalProposal :: "bytes \<Rightarrow> CanonicalProposal option"
  xSign :: "bytes \<Rightarrow> bytes \<Rightarrow> goerror + bytes"
  xMarshalState :: "SFilePVLastSignState \<Rightarrow> goerror + bytes"
  xUnmarshalState :: "bytes \<Rightarrow> SFilePVLastSignState option"

definition stepNone :: int where "stepNone = 0"
definition stepPropose :: int where "stepPropose = 1"
definition stepPrevote :: int where "stepPrevote = 2"
definition stepPrecommit :: int where "stepPrecommit = 3"

definition voteToStep :: "Vote \<Rightarrow> int go" where
  "voteToStep vote = (if vType vote = 1 then Ret stepPrevote else if vType vote = 2 then Ret stepPrecommit else Panic)"

section \<open>The sign state\<close>

definition CheckHRS :: "SFilePVLastSignState \<Rightarrow> int \<Rightarrow> int \<Rightarrow> int \<Rightarrow> (goerror + bool) go" where
  "CheckHRS lss height round step =
     (if lsHeight lss > height then Ret (Inl (EFmt ''height regression''))
      else if lsHeight lss = height \<and> lsRound lss > round then Ret (Inl (EFmt ''round regression''))
      else if lsHeight lss = height \<and> lsRound lss = round \<and> lsStep lss > step then Ret (Inl (EFmt ''step regression''))
      else if lsHeight lss = height \<and> lsRound lss = round \<and> lsStep lss = step then
        (if lsSignBytes lss \<noteq> None then (if lsSignature lss = None then Panic else Ret (Inr True))
         else Ret (Inl (EFmt ''no SignBytes found'')))
      else Ret (Inr False))"

record SFilePV =
  pvPrivKey :: bytes
  pvFilePath :: string
  LastSignState :: SFilePVLastSignState

definition NewSFilePV :: "bytes \<Rightarrow> string \<Rightarrow> SFilePV" where
  "NewSFilePV privKey stateFilePath =
     \<lparr>pvPrivKey = privKey, pvFilePath = stateFilePath,
      LastSignState = \<lparr>lsHeight = 0, lsRound = 0, lsStep = stepNone, lsSignature = None, lsSignBytes = None\<rparr>\<rparr>"

text \<open>Saving returns the file's new content; a missing path and a failing encoder panic.\<close>

definition LastSignState_Save :: "pv_ext \<Rightarrow> SFilePV \<Rightarrow> bytes go" where
  "LastSignState_Save X pv =
     (if pvFilePath pv = [] then Panic
      else (case xMarshalState X (LastSignState pv) of Inl _ \<Rightarrow> Panic | Inr f \<Rightarrow> Ret f))"

text \<open>Loading from a state file; a file that cannot be decoded ends the process.\<close>

definition loadState :: "pv_ext \<Rightarrow> SFilePV \<Rightarrow> bytes \<Rightarrow> SFilePV option" where
  "loadState X pv f = map_option (\<lambda>lss. pv\<lparr>LastSignState := lss\<rparr>) (xUnmarshalState X f)"

definition ResetWith :: "pv_ext \<Rightarrow> SFilePV \<Rightarrow> (SFilePV \<times> bytes) go" where
  "ResetWith X pv =
     (let pv1 = pv\<lparr>LastSignState := \<lparr>lsHeight = 0, lsRound = 0, lsStep = 0, lsSignature = None, lsSignBytes = None\<rparr>\<rparr>
      in case LastSignState_Save X pv1 of Panic \<Rightarrow> Panic | Ret f \<Rightarrow> Ret (pv1, f))"

definition saveSigned :: "pv_ext \<Rightarrow> SFilePV \<Rightarrow> int \<Rightarrow> int \<Rightarrow> int \<Rightarrow> bytes \<Rightarrow> bytes \<Rightarrow> (SFilePV \<times> bytes) go" where
  "saveSigned X pv height round step signBytes sig =
     (let pv1 = pv\<lparr>LastSignState := \<lparr>lsHeight = height, lsRound = round, lsStep = step,
                    lsSignature = Some sig, lsSignBytes = Some signBytes\<rparr>\<rparr>
      in case LastSignState_Save X pv1 of Panic \<Rightarrow> Panic | Ret f \<Rightarrow> Ret (pv1, f))"

text \<open>Two messages are compared with both timestamps set to the same value.\<close>

definition checkVotesOnlyDifferByTimestamp :: "pv_ext \<Rightarrow> bytes \<Rightarrow> bytes \<Rightarrow> (int \<times> bool) go" where
  "checkVotesOnlyDifferByTimestamp X lastSignBytes newSignBytes =
     (case (xUnmarshalVote X lastSignBytes, xUnmarshalVote X newSignBytes) of
        (Some lastVote, Some newVote) \<Rightarrow>
          Ret (cvTimestamp lastVote, newVote\<lparr>cvTimestamp := 0\<rparr> = lastVote\<lparr>cvTimestamp := 0\<rparr>)
      | _ \<Rightarrow> Panic)"

definition checkProposalsOnlyDifferByTimestamp :: "pv_ext \<Rightarrow> bytes \<Rightarrow> bytes \<Rightarrow> (int \<times> bool) go" where
  "checkProposalsOnlyDifferByTimestamp X lastSignBytes newSignBytes =
     (case (xUnmarshalProposal X lastSignBytes, xUnmarshalProposal X newSignBytes) of
        (Some lastP, Some newP) \<Rightarrow>
          Ret (cpTimestamp lastP, newP\<lparr>cpTimestamp := 0\<rparr> = lastP\<lparr>cpTimestamp := 0\<rparr>)
      | _ \<Rightarrow> Panic)"

text \<open>
  The part \<open>signVote\<close> and \<open>signProposal\<close> share: the new validator, the new content of the state file if it was
  written, and an error or the timestamp (if it was replaced) and signature for the message.
\<close>

definition sign_bytes ::
  "pv_ext \<Rightarrow> (bytes \<Rightarrow> bytes \<Rightarrow> (int \<times> bool) go) \<Rightarrow> SFilePV \<Rightarrow> int \<Rightarrow> int \<Rightarrow> int \<Rightarrow> bytes \<Rightarrow>
     (SFilePV \<times> bytes option \<times> (goerror + int option \<times> bytes)) go" where
  "sign_bytes X differ pv height round step signBytes =
     (let lss = LastSignState pv in
      case CheckHRS lss height round step of
        Panic \<Rightarrow> Panic
      | Ret (Inl e) \<Rightarrow> Ret (pv, None, Inl e)
      | Ret (Inr True) \<Rightarrow>
          (case (lsSignBytes lss, lsSignature lss) of
             (Some lastBytes, Some sig) \<Rightarrow>
               (if signBytes = lastBytes then Ret (pv, None, Inr (None, sig))
                else (case differ lastBytes signBytes of
                        Panic \<Rightarrow> Panic
                      | Ret (timestamp, True) \<Rightarrow> Ret (pv, None, Inr (Some timestamp, sig))
                      | Ret (_, False) \<Rightarrow> Ret (pv, None, Inl (EFmt ''conflicting data''))))
           | _ \<Rightarrow> Panic)
      | Ret (Inr False) \<Rightarrow>
          (case xSign X (pvPrivKey pv) signBytes of
             Inl e \<Rightarrow> Ret (pv, None, Inl e)
           | Inr sig \<Rightarrow> (case saveSigned X pv height round step signBytes sig of
                          Panic \<Rightarrow> Panic
                        | Ret (pv1, f) \<Rightarrow> Ret (pv1, Some f, Inr (None, sig)))))"

definition signVote :: "pv_ext \<Rightarrow> string \<Rightarrow> SFilePV \<Rightarrow> Vote \<Rightarrow> (SFilePV \<times> bytes option \<times> (goerror + Vote)) go" where
  "signVote X chainID pv vote =
     (case voteToStep vote of
        Panic \<Rightarrow> Panic
      | Ret step \<Rightarrow>
          (case sign_bytes X (checkVotesOnlyDifferByTimestamp X) pv (vHeight vote) (vRound vote) step (xVoteSignBytes X chainID vote) of
             Panic \<Rightarrow> Panic
           | Ret (pv1, f, Inl e) \<Rightarrow> Ret (pv1, f, Inl e)
           | Ret (pv1, f, Inr (None, sig)) \<Rightarrow> Ret (pv1, f, Inr (vote\<lparr>vSignature := sig\<rparr>))
           | Ret (pv1, f, Inr (Some t, sig)) \<Rightarrow> Ret (pv1, f, Inr (vote\<lparr>vTimestamp := t, vSignature := sig\<rparr>))))"

definition signProposal :: "pv_ext \<Rightarrow> string \<Rightarrow> SFilePV \<Rightarrow> Proposal_msg \<Rightarrow> (SFilePV \<times> bytes option \<times> (goerror + Proposal_msg)) go" where
  "signProposal X chainID pv p =
     (case sign_bytes X (checkProposalsOnlyDifferByTimestamp X) pv (pHeight p) (pRound p) stepPropose (xProposalSignBytes X chainID p) of
        Panic \<Rightarrow> Panic
      | Ret (pv1, f, Inl e) \<Rightarrow> Ret (pv1, f, Inl e)
      | Ret (pv1, f, Inr (None, sig)) \<Rightarrow> Ret (pv1, f, Inr (p\<lparr>pSignature := sig\<rparr>))
      | Ret (pv1, f, Inr (Some t, sig)) \<Rightarrow> Ret (pv1, f, Inr (p\<lparr>pTimestamp := t, pSignature := sig\<rparr>)))"

definition SignVote :: "pv_ext \<Rightarrow> string \<Rightarrow> SFilePV \<Rightarrow> Vote \<Rightarrow> (SFilePV \<times> bytes option \<times> (xerror + Vote)) go" where
  "SignVote X chainID pv vote =
     (case signVote X chainID pv vote of
        Panic \<Rightarrow> Panic
      | Ret (pv1, f, Inl e) \<Rightarrow> Ret (pv1, f, Inl (NewOrdinary (''error signing vote: '' @ goError e)))
      | Ret (pv1, f, Inr v) \<Rightarrow> Ret (pv1, f, Inr v))"

definition SignProposal :: "pv_ext \<Rightarrow> string \<Rightarrow> SFilePV \<Rightarrow> Proposal_msg \<Rightarrow> (SFilePV \<times> bytes option \<times> (xerror + Proposal_msg)) go" where
  "SignProposal X chainID pv p =
     (case signProposal X chainID pv p of
        Panic \<Rightarrow> Panic
      | Ret (pv1, f, Inl e) \<Rightarrow> Ret (pv1, f, Inl (NewOrdinary (''error signing proposal: '' @ goError e)))
      | Ret (pv1, f, Inr v) \<Rightarrow> Ret (pv1, f, Inr v))"

section \<open>What the libraries promise\<close>

definition canon_vote :: "string \<Rightarrow> Vote \<Rightarrow> CanonicalVote" where
  "canon_vote c v = \<lparr>cvType = vType v, cvHeight = vHeight v, cvRound = vRound v, cvBlockID = vBlockID v,
     cvTimestamp = vTimestamp v, cvChainID = c\<rparr>"

definition canon_proposal :: "string \<Rightarrow> Proposal_msg \<Rightarrow> CanonicalProposal" where
  "canon_proposal c p = \<lparr>cpHeight = pHeight p, cpRound = pRound p, cpPolRound = pPolRound p, cpBlockID = pBlockID p,
     cpTimestamp = pTimestamp p, cpChainID = c\<rparr>"

text \<open>
  Sign bytes are a decodable encoding of the canonical message and of nothing else; signatures and sign bytes are not
  empty; the JSON form of a state without empty byte strings decodes to that state.
\<close>

definition pv_lawful :: "pv_ext \<Rightarrow> bool" where
  "pv_lawful X \<longleftrightarrow>
     (\<forall>c v. xUnmarshalVote X (xVoteSignBytes X c v) = Some (canon_vote c v) \<and> xVoteSignBytes X c v \<noteq> []) \<and>
     (\<forall>c v v'. canon_vote c v = canon_vote c v' \<longrightarrow> xVoteSignBytes X c v = xVoteSignBytes X c v') \<and>
     (\<forall>c p. xUnmarshalProposal X (xProposalSignBytes X c p) = Some (canon_proposal c p) \<and> xProposalSignBytes X c p \<noteq> []) \<and>
     (\<forall>c p p'. canon_proposal c p = canon_proposal c p' \<longrightarrow> xProposalSignBytes X c p = xProposalSignBytes X c p') \<and>
     (\<forall>k b s. xSign X k b = Inr s \<longrightarrow> s \<noteq> []) \<and>
     (\<forall>s f. xMarshalState X s = Inr f \<longrightarrow> lsSignature s \<noteq> Some [] \<longrightarrow> lsSignBytes s \<noteq> Some [] \<longrightarrow> xUnmarshalState X f = Some s)"

lemma pv_lawfulD:
  assumes "pv_lawful X"
  shows "xUnmarshalVote X (xVoteSignBytes X c v) = Some (canon_vote c v)" "xVoteSignBytes X c v \<noteq> []"
    "canon_vote c v = canon_vote c v' \<Longrightarrow> xVoteSignBytes X c v = xVoteSignBytes X c v'"
    "xUnmarshalProposal X (xProposalSignBytes X c p) = Some (canon_proposal c p)" "xProposalSignBytes X c p \<noteq> []"
    "canon_proposal c p = canon_proposal c p' \<Longrightarrow> xProposalSignBytes X c p = xProposalSignBytes X c p'"
    "xSign X k b = Inr s \<Longrightarrow> s \<noteq> []"
    "xMarshalState X st = Inr f \<Longrightarrow> lsSignature st \<noteq> Some [] \<Longrightarrow> lsSignBytes st \<noteq> Some [] \<Longrightarrow> xUnmarshalState X f = Some st"
  using assms unfolding pv_lawful_def by blast+

section \<open>Runs with crashes\<close>

datatype signed_msg = SVote Vote | SProposal Proposal_msg

text \<open>The process, the content of the state file, and the messages that were returned with a signature.\<close>

record pv_sys =
  sysPV :: SFilePV
  sysDisk :: bytes
  sysLog :: "signed_msg list"

definition pv_after :: "pv_sys \<Rightarrow> SFilePV \<Rightarrow> bytes option \<Rightarrow> (xerror + signed_msg) \<Rightarrow> pv_sys" where
  "pv_after s pv f r = s\<lparr>sysPV := pv, sysDisk := (case f of None \<Rightarrow> sysDisk s | Some x \<Rightarrow> x),
     sysLog := (case r of Inl _ \<Rightarrow> sysLog s | Inr m \<Rightarrow> sysLog s @ [m])\<rparr>"

text \<open>
  A step answers a request, or the process dies and starts again from the state file: at any moment, or while a
  request writes the file, which then holds the old or the new state and no signature is returned.
\<close>

inductive pv_step :: "pv_ext \<Rightarrow> string \<Rightarrow> pv_sys \<Rightarrow> pv_sys \<Rightarrow> bool" for X c where
  vote: "SignVote X c (sysPV s) v = Ret (pv, f, r) \<Longrightarrow> pv_step X c s (pv_after s pv f (map_sum id SVote r))"
| proposal: "SignProposal X c (sysPV s) p = Ret (pv, f, r) \<Longrightarrow> pv_step X c s (pv_after s pv f (map_sum id SProposal r))"
| restart: "loadState X (sysPV s) (sysDisk s) = Some pv \<Longrightarrow> pv_step X c s (s\<lparr>sysPV := pv\<rparr>)"
| vote_crash: "SignVote X c (sysPV s) v = Ret (pv, Some f, r) \<Longrightarrow> loadState X (sysPV s) f = Some pv' \<Longrightarrow>
    pv_step X c s (s\<lparr>sysPV := pv', sysDisk := f\<rparr>)"
| proposal_crash: "SignProposal X c (sysPV s) p = Ret (pv, Some f, r) \<Longrightarrow> loadState X (sysPV s) f = Some pv' \<Longrightarrow>
    pv_step X c s (s\<lparr>sysPV := pv', sysDisk := f\<rparr>)"

inductive pv_run :: "pv_ext \<Rightarrow> string \<Rightarrow> pv_sys \<Rightarrow> pv_sys \<Rightarrow> bool" for X c where
  pv_refl: "pv_run X c s s"
| pv_next: "pv_run X c s s' \<Longrightarrow> pv_step X c s' s'' \<Longrightarrow> pv_run X c s s''"

text \<open>Height, round and step of a message, its sign bytes and its signature.\<close>

fun msg_hrs :: "signed_msg \<Rightarrow> int \<times> int \<times> int" where
  "msg_hrs (SVote v) = (vHeight v, vRound v, if vType v = 1 then stepPrevote else stepPrecommit)"
| "msg_hrs (SProposal p) = (pHeight p, pRound p, stepPropose)"

fun msg_bytes :: "pv_ext \<Rightarrow> string \<Rightarrow> signed_msg \<Rightarrow> bytes" where
  "msg_bytes X c (SVote v) = xVoteSignBytes X c v"
| "msg_bytes X c (SProposal p) = xProposalSignBytes X c p"

fun msg_sig :: "signed_msg \<Rightarrow> bytes" where
  "msg_sig (SVote v) = vSignature v"
| "msg_sig (SProposal p) = pSignature p"

fun msg_wf :: "signed_msg \<Rightarrow> bool" where
  "msg_wf (SVote v) = (vType v = 1 \<or> vType v = 2)"
| "msg_wf (SProposal p) = True"

definition ls_hrs :: "SFilePVLastSignState \<Rightarrow> int \<times> int \<times> int" where
  "ls_hrs l = (lsHeight l, lsRound l, lsStep l)"

fun hrs_less :: "int \<times> int \<times> int \<Rightarrow> int \<times> int \<times> int \<Rightarrow> bool" where
  "hrs_less (h, r, s) (h', r', s') \<longleftrightarrow> h < h' \<or> h = h' \<and> (r < r' \<or> r = r' \<and> s < s')"

text \<open>A state that records the message \<open>m\<close>.\<close>

definition records :: "pv_ext \<Rightarrow> string \<Rightarrow> SFilePVLastSignState \<Rightarrow> signed_msg \<Rightarrow> bool" where
  "records X c l m \<longleftrightarrow> msg_wf m \<and> ls_hrs l = msg_hrs m \<and> lsSignBytes l = Some (msg_bytes X c m) \<and> lsSignature l = Some (msg_sig m)"

definition ls_ok :: "pv_ext \<Rightarrow> string \<Rightarrow> SFilePVLastSignState \<Rightarrow> bool" where
  "ls_ok X c l \<longleftrightarrow> lsStep l = stepNone \<and> lsSignBytes l = None \<and> lsSignature l = None \<or>
     (\<exists>m. records X c l m \<and> msg_sig m \<noteq> [])"

definition log_ok :: "pv_ext \<Rightarrow> string \<Rightarrow> SFilePVLastSignState \<Rightarrow> signed_msg list \<Rightarrow> bool" where
  "log_ok X c l ms \<longleftrightarrow>
     (\<forall>m \<in> set ms. hrs_less (msg_hrs m) (ls_hrs l) \<or> records X c l m) \<and>
     (\<forall>m \<in> set ms. \<forall>m' \<in> set ms. msg_hrs m = msg_hrs m' \<longrightarrow> msg_bytes X c m = msg_bytes X c m' \<and> msg_sig m = msg_sig m') \<and>
     (\<forall>m \<in> set ms. msg_wf m)"

definition pv_inv :: "pv_ext \<Rightarrow> string \<Rightarrow> pv_sys \<Rightarrow> bool" where
  "pv_inv X c s \<longleftrightarrow> xUnmarshalState X (sysDisk s) = Some (LastSignState (sysPV s)) \<and>
     ls_ok X c (LastSignState (sysPV s)) \<and> log_ok X c (LastSignState (sysPV s)) (sysLog s)"

section \<open>No conflicting signatures\<close>

lemma CheckHRS_cases:
  assumes "CheckHRS l h r st = Ret x"
  obtains e where "x = Inl e"
  | "x = Inr True" "ls_hrs l = (h, r, st)" "lsSignBytes l \<noteq> None" "lsSignature l \<noteq> None"
  | "x = Inr False" "hrs_less (ls_hrs l) (h, r, st)"
  using assms by (fastforce simp: CheckHRS_def ls_hrs_def split: if_splits)

lemma sign_bytes_cases:
  assumes "sign_bytes X differ pv h r st b = Ret (pv', f, res)"
  obtains e where "pv' = pv" "f = None" "res = Inl e"
  | lb sig where "pv' = pv" "f = None" "ls_hrs (LastSignState pv) = (h, r, st)" "lsSignBytes (LastSignState pv) = Some lb"
      "lsSignature (LastSignState pv) = Some sig" "b = lb" "res = Inr (None, sig)"
  | lb sig t where "pv' = pv" "f = None" "ls_hrs (LastSignState pv) = (h, r, st)" "lsSignBytes (LastSignState pv) = Some lb"
      "lsSignature (LastSignState pv) = Some sig" "differ lb b = Ret (t, True)" "res = Inr (Some t, sig)"
  | sig fl where "hrs_less (ls_hrs (LastSignState pv)) (h, r, st)" "xSign X (pvPrivKey pv) b = Inr sig"
      "LastSignState pv' = \<lparr>lsHeight = h, lsRound = r, lsStep = st, lsSignature = Some sig, lsSignBytes = Some b\<rparr>"
      "f = Some fl" "xMarshalState X (LastSignState pv') = Inr fl" "res = Inr (None, sig)"
proof -
  obtain x where x: "CheckHRS (LastSignState pv) h r st = Ret x" using assms by (auto simp: sign_bytes_def Let_def split: go.splits)
  then show ?thesis
  proof (cases rule: CheckHRS_cases)
    case (1 e)
    then show ?thesis using assms x that(1)[of e] by (auto simp: sign_bytes_def)
  next
    case 2
    then show ?thesis using assms x that(1-3) by (auto simp: sign_bytes_def Let_def split: if_splits go.splits bool.splits)
  next
    case 3
    then show ?thesis using assms x that(1,4)
      by (auto simp: sign_bytes_def saveSigned_def LastSignState_Save_def Let_def split: if_splits go.splits sum.splits)
  qed
qed

text \<open>What a request does to the sign state: nothing, and then a returned message is the recorded one, or the state moves to the message.\<close>

definition signed_as :: "pv_ext \<Rightarrow> string \<Rightarrow> SFilePV \<Rightarrow> SFilePV \<Rightarrow> bytes option \<Rightarrow> (xerror + signed_msg) \<Rightarrow> bool" where
  "signed_as X c pv pv' f r \<longleftrightarrow>
     pv' = pv \<and> f = None \<and> (\<forall>m. r = Inr m \<longrightarrow> records X c (LastSignState pv) m) \<or>
     (\<exists>fl m. f = Some fl \<and> r = Inr m \<and> hrs_less (ls_hrs (LastSignState pv)) (msg_hrs m) \<and> records X c (LastSignState pv') m \<and>
        msg_sig m \<noteq> [] \<and> xUnmarshalState X fl = Some (LastSignState pv'))"

lemma SignVote_signed:
  assumes X: "pv_lawful X" and l: "ls_ok X c (LastSignState pv)" and s: "SignVote X c pv v = Ret (pv', f, r)"
  shows "signed_as X c pv pv' f (map_sum id SVote r)"
proof -
  obtain st where st: "voteToStep v = Ret st" using s by (auto simp: SignVote_def signVote_def split: go.splits)
  then have wf: "vType v = 1 \<or> vType v = 2" "st = (if vType v = 1 then stepPrevote else stepPrecommit)"
    by (auto simp: voteToStep_def split: if_splits)
  obtain res where b: "sign_bytes X (checkVotesOnlyDifferByTimestamp X) pv (vHeight v) (vRound v) st (xVoteSignBytes X c v) = Ret (pv', f, res)"
    using s st by (auto simp: SignVote_def signVote_def split: go.splits sum.splits option.splits)
  have sb: "xVoteSignBytes X c (v\<lparr>vSignature := q\<rparr>) = xVoteSignBytes X c v" for q
    by (intro pv_lawfulD(3)[OF X]) (simp add: canon_vote_def)
  from b show ?thesis
  proof (cases rule: sign_bytes_cases)
    case (1 e)
    then show ?thesis using s st b by (auto simp: SignVote_def signVote_def signed_as_def)
  next
    case (2 lb sig)
    then have "r = Inr (v\<lparr>vSignature := sig\<rparr>)" using s st b by (auto simp: SignVote_def signVote_def)
    then show ?thesis using 2 wf sb by (auto simp: signed_as_def records_def)
  next
    case (3 lb sig t)
    have r: "r = Inr (v\<lparr>vTimestamp := t, vSignature := sig\<rparr>)" using 3 s st b by (auto simp: SignVote_def signVote_def)
    obtain m where m: "records X c (LastSignState pv) m" using l 3 by (auto simp: ls_ok_def)
    then have "msg_hrs m = (vHeight v, vRound v, st)" "lb = msg_bytes X c m" using 3 by (auto simp: records_def)
    then obtain v0 where v0: "lb = xVoteSignBytes X c v0" using wf by (cases m) (auto simp: stepPropose_def stepPrevote_def stepPrecommit_def)
    have "canon_vote c (v\<lparr>vTimestamp := t, vSignature := sig\<rparr>) = canon_vote c v0"
      using 3(6) by (simp add: checkVotesOnlyDifferByTimestamp_def v0 pv_lawfulD(1)[OF X] canon_vote_def)
    then have "xVoteSignBytes X c (v\<lparr>vTimestamp := t, vSignature := sig\<rparr>) = lb" using pv_lawfulD(3)[OF X] v0 by blast
    then show ?thesis using 3 r wf by (auto simp: signed_as_def records_def)
  next
    case (4 sig fl)
    then have r: "r = Inr (v\<lparr>vSignature := sig\<rparr>)" using s st b by (auto simp: SignVote_def signVote_def)
    have n: "sig \<noteq> []" using pv_lawfulD(7)[OF X 4(2)] .
    have "xUnmarshalState X fl = Some (LastSignState pv')"
      using pv_lawfulD(8)[OF X 4(5)] n pv_lawfulD(2)[OF X] 4(3) by simp
    then show ?thesis using 4 r n wf sb by (auto simp: signed_as_def records_def ls_hrs_def)
  qed
qed

lemma SignProposal_signed:
  assumes X: "pv_lawful X" and l: "ls_ok X c (LastSignState pv)" and s: "SignProposal X c pv v = Ret (pv', f, r)"
  shows "signed_as X c pv pv' f (map_sum id SProposal r)"
proof -
  obtain res where b: "sign_bytes X (checkProposalsOnlyDifferByTimestamp X) pv (pHeight v) (pRound v) stepPropose (xProposalSignBytes X c v) = Ret (pv', f, res)"
    using s by (auto simp: SignProposal_def signProposal_def split: go.splits sum.splits option.splits)
  have sb: "xProposalSignBytes X c (v\<lparr>pSignature := q\<rparr>) = xProposalSignBytes X c v" for q
    by (intro pv_lawfulD(6)[OF X]) (simp add: canon_proposal_def)
  from b show ?thesis
  proof (cases rule: sign_bytes_cases)
    case (1 e)
    then show ?thesis using s b by (auto simp: SignProposal_def signProposal_def signed_as_def)
  next
    case (2 lb sig)
    then have "r = Inr (v\<lparr>pSignature := sig\<rparr>)" using s b by (auto simp: SignProposal_def signProposal_def)
    then show ?thesis using 2 sb by (auto simp: signed_as_def records_def)
  next
    case (3 lb sig t)
    have r: "r = Inr (v\<lparr>pTimestamp := t, pSignature := sig\<rparr>)" using 3 s b by (auto simp: SignProposal_def signProposal_def)
    obtain m where m: "records X c (LastSignState pv) m" using l 3 by (auto simp: ls_ok_def)
    then have "msg_hrs m = (pHeight v, pRound v, stepPropose)" "lb = msg_bytes X c m" using 3 by (auto simp: records_def)
    then obtain v0 where v0: "lb = xProposalSignBytes X c v0"
      by (cases m) (auto simp: stepPropose_def stepPrevote_def stepPrecommit_def split: if_splits)
    have "canon_proposal c (v\<lparr>pTimestamp := t, pSignature := sig\<rparr>) = canon_proposal c v0"
      using 3(6) by (simp add: checkProposalsOnlyDifferByTimestamp_def v0 pv_lawfulD(4)[OF X] canon_proposal_def)
    then have "xProposalSignBytes X c (v\<lparr>pTimestamp := t, pSignature := sig\<rparr>) = lb" using pv_lawfulD(6)[OF X] v0 by blast
    then show ?thesis using 3 r by (auto simp: signed_as_def records_def)
  next
    case (4 sig fl)
    then have r: "r = Inr (v\<lparr>pSignature := sig\<rparr>)" using s b by (auto simp: SignProposal_def signProposal_def)
    have n: "sig \<noteq> []" using pv_lawfulD(7)[OF X 4(2)] .
    have "xUnmarshalState X fl = Some (LastSignState pv')"
      using pv_lawfulD(8)[OF X 4(5)] n pv_lawfulD(5)[OF X] 4(3) by simp
    then show ?thesis using 4 r n sb by (auto simp: signed_as_def records_def ls_hrs_def)
  qed
qed

lemma hrs_less_trans: "hrs_less a b \<Longrightarrow> hrs_less b d \<Longrightarrow> hrs_less a d"
  by (cases a; cases b; cases d) auto

lemma hrs_less_irrefl: "\<not> hrs_less a a"
  by (cases a) auto

text \<open>The log stays consistent when the state moves on, and when a recorded message is added.\<close>

lemma log_okD:
  assumes "log_ok X c l ms" "m \<in> set ms"
  shows "hrs_less (msg_hrs m) (ls_hrs l) \<or> records X c l m" "msg_wf m"
    "m' \<in> set ms \<Longrightarrow> msg_hrs m = msg_hrs m' \<Longrightarrow> msg_bytes X c m = msg_bytes X c m' \<and> msg_sig m = msg_sig m'"
  using assms unfolding log_ok_def by blast+

lemma log_ok_move:
  assumes "log_ok X c l ms" "hrs_less (ls_hrs l) (ls_hrs l')"
  shows "log_ok X c l' ms"
proof -
  have "hrs_less (msg_hrs m) (ls_hrs l')" if "m \<in> set ms" for m
  proof -
    have "hrs_less (msg_hrs m) (ls_hrs l) \<or> msg_hrs m = ls_hrs l" using log_okD(1)[OF assms(1) that] by (auto simp: records_def)
    then show ?thesis using assms(2) hrs_less_trans by metis
  qed
  then show ?thesis using assms(1) unfolding log_ok_def by blast
qed

lemma log_ok_add:
  assumes "log_ok X c l ms" and r: "records X c l m"
  shows "log_ok X c l (ms @ [m])"
proof -
  have "msg_bytes X c m' = msg_bytes X c m \<and> msg_sig m' = msg_sig m" if "m' \<in> set ms" "msg_hrs m' = msg_hrs m" for m'
  proof -
    have "\<not> hrs_less (msg_hrs m') (ls_hrs l)" using that r hrs_less_irrefl by (simp add: records_def)
    then have "records X c l m'" using log_okD(1)[OF assms(1) that(1)] by blast
    then show ?thesis using r by (simp add: records_def)
  qed
  note old = this
  have m: "x = m \<or> x \<in> set ms" if "x \<in> set (ms @ [m])" for x using that by auto
  show ?thesis unfolding log_ok_def
  proof (intro conjI ballI impI)
    fix x assume "x \<in> set (ms @ [m])"
    then show "hrs_less (msg_hrs x) (ls_hrs l) \<or> records X c l x" using m log_okD(1)[OF assms(1)] r by blast
  next
    fix x y assume x: "x \<in> set (ms @ [m])" and y: "y \<in> set (ms @ [m])" and e: "msg_hrs x = msg_hrs y"
    consider "x = m" "y = m" | "x = m" "y \<in> set ms" | "x \<in> set ms" "y = m" | "x \<in> set ms" "y \<in> set ms"
      using m[OF x] m[OF y] by blast
    then have "msg_bytes X c x = msg_bytes X c y \<and> msg_sig x = msg_sig y"
    proof cases
      case 2 then show ?thesis using old[of y] e by metis
    next
      case 3 then show ?thesis using old[of x] e by metis
    next
      case 4 show ?thesis by (rule log_okD(3)[OF assms(1) 4 e])
    qed simp
    then show "msg_bytes X c x = msg_bytes X c y" "msg_sig x = msg_sig y" by blast+
  next
    fix x assume "x \<in> set (ms @ [m])"
    then show "msg_wf x" using m log_okD(2)[OF assms(1)] r by (auto simp: records_def)
  qed
qed

lemma signed_as_inv:
  assumes i: "pv_inv X c s" and g: "signed_as X c (sysPV s) pv' f r"
  shows "pv_inv X c (pv_after s pv' f r)"
    "f = Some fl \<Longrightarrow> pv_inv X c (s\<lparr>sysPV := pv', sysDisk := fl\<rparr>)"
proof -
  have log: "log_ok X c (LastSignState (sysPV s)) (sysLog s)" using i by (simp add: pv_inv_def)
  consider (same) "pv' = sysPV s" "f = None" "\<And>m. r = Inr m \<Longrightarrow> records X c (LastSignState (sysPV s)) m"
    | (new) fl m where "f = Some fl" "r = Inr m" "hrs_less (ls_hrs (LastSignState (sysPV s))) (ls_hrs (LastSignState pv'))"
       "records X c (LastSignState pv') m" "msg_sig m \<noteq> []" "xUnmarshalState X fl = Some (LastSignState pv')"
    using g unfolding signed_as_def by (auto simp: records_def)
  then have "pv_inv X c (pv_after s pv' f r) \<and> (f = Some fl \<longrightarrow> pv_inv X c (s\<lparr>sysPV := pv', sysDisk := fl\<rparr>))"
  proof cases
    case same
    then show ?thesis using i log_ok_add[OF log] by (cases r) (auto simp: pv_inv_def pv_after_def)
  next
    case new
    then have "log_ok X c (LastSignState pv') (sysLog s)" using log_ok_move[OF log] by blast
    then show ?thesis using new log_ok_add[OF _ new(4)] by (auto simp: pv_inv_def pv_after_def ls_ok_def)
  qed
  then show "pv_inv X c (pv_after s pv' f r)" "f = Some fl \<Longrightarrow> pv_inv X c (s\<lparr>sysPV := pv', sysDisk := fl\<rparr>)" by blast+
qed

lemma pv_step_inv:
  assumes X: "pv_lawful X" and i: "pv_inv X c s" and t: "pv_step X c s s'"
  shows "pv_inv X c s'"
proof -
  have l: "ls_ok X c (LastSignState (sysPV s))" using i by (simp add: pv_inv_def)
  from t show ?thesis
  proof cases
    case (vote v pv f r)
    then show ?thesis using signed_as_inv(1)[OF i SignVote_signed[OF X l]] by blast
  next
    case (proposal p pv f r)
    then show ?thesis using signed_as_inv(1)[OF i SignProposal_signed[OF X l]] by blast
  next
    case (restart pv)
    then show ?thesis using i by (auto simp: loadState_def pv_inv_def)
  next
    case (vote_crash v pv f r pv')
    then have "pv_inv X c (s\<lparr>sysPV := pv, sysDisk := f\<rparr>)" using signed_as_inv(2)[OF i SignVote_signed[OF X l vote_crash(2)]] by blast
    then show ?thesis using vote_crash by (auto simp: loadState_def pv_inv_def)
  next
    case (proposal_crash p pv f r pv')
    then have "pv_inv X c (s\<lparr>sysPV := pv, sysDisk := f\<rparr>)" using signed_as_inv(2)[OF i SignProposal_signed[OF X l proposal_crash(2)]] by blast
    then show ?thesis using proposal_crash by (auto simp: loadState_def pv_inv_def)
  qed
qed

lemma pv_run_inv: "pv_run X c s s' \<Longrightarrow> pv_lawful X \<Longrightarrow> pv_inv X c s \<Longrightarrow> pv_inv X c s'"
  by (induction rule: pv_run.induct) (auto intro: pv_step_inv)

lemma pv_start_inv:
  assumes "pv_lawful X" "LastSignState_Save X (NewSFilePV k path) = Ret f"
  shows "pv_inv X c \<lparr>sysPV = NewSFilePV k path, sysDisk = f, sysLog = []\<rparr>"
  using assms pv_lawfulD(8)[OF assms(1), of "LastSignState (NewSFilePV k path)" f]
  by (auto simp: LastSignState_Save_def pv_inv_def log_ok_def ls_ok_def NewSFilePV_def split: if_splits sum.splits)

text \<open>
  (C0) A validator never signs conflicting messages: in every run from a new validator whose state was saved, with
  arbitrary requests, crashes and restarts, two votes that were returned with a signature for the same height, round
  and type are the same vote with the same signature, and so are two proposals for the same height and round.
\<close>
theorem no_double_sign:
  assumes X: "pv_lawful X" and f: "LastSignState_Save X (NewSFilePV k path) = Ret f"
    and r: "pv_run X c \<lparr>sysPV = NewSFilePV k path, sysDisk = f, sysLog = []\<rparr> s"
  shows "(SVote v \<in> set (sysLog s) \<and> SVote v' \<in> set (sysLog s) \<and>
      vHeight v = vHeight v' \<and> vRound v = vRound v' \<and> vType v = vType v' \<longrightarrow> v = v') \<and>
    (SProposal p \<in> set (sysLog s) \<and> SProposal p' \<in> set (sysLog s) \<and>
      pHeight p = pHeight p' \<and> pRound p = pRound p' \<longrightarrow> p = p')"
proof -
  have log: "log_ok X c (LastSignState (sysPV s)) (sysLog s)"
    using pv_run_inv[OF r X pv_start_inv[OF X f]] by (simp add: pv_inv_def)
  have "v = v'" if "SVote v \<in> set (sysLog s)" "SVote v' \<in> set (sysLog s)"
      "vHeight v = vHeight v'" "vRound v = vRound v'" "vType v = vType v'"
  proof -
    have "xVoteSignBytes X c v = xVoteSignBytes X c v'" "vSignature v = vSignature v'"
      using log_okD(3)[OF log that(1,2)] that(3-5) by simp_all
    then have "canon_vote c v = canon_vote c v'" using pv_lawfulD(1)[OF X] by (metis option.inject)
    then show ?thesis using \<open>vSignature v = vSignature v'\<close> by (cases v; cases v') (simp add: canon_vote_def)
  qed
  moreover have "p = p'" if "SProposal p \<in> set (sysLog s)" "SProposal p' \<in> set (sysLog s)" "pHeight p = pHeight p'" "pRound p = pRound p'"
  proof -
    have "xProposalSignBytes X c p = xProposalSignBytes X c p'" "pSignature p = pSignature p'"
      using log_okD(3)[OF log that(1,2)] that(3-4) by simp_all
    then have "canon_proposal c p = canon_proposal c p'" using pv_lawfulD(4)[OF X] by (metis option.inject)
    then show ?thesis using \<open>pSignature p = pSignature p'\<close> by (cases p; cases p') (simp add: canon_proposal_def)
  qed
  ultimately show ?thesis by blast
qed

section \<open>An instance\<close>

text \<open>Concrete codecs: integers in unary notation behind a sign byte, byte strings behind their length.\<close>

definition enc_ints :: "int list \<Rightarrow> bytes" where
  "enc_ints xs = concat (map (\<lambda>i. (if i < 0 then 2 else 3) # replicate (nat \<bar>i\<bar>) 1 @ [0]) xs)"

function dec_ints :: "bytes \<Rightarrow> int list" where
  "dec_ints [] = []"
| "dec_ints (s # bs) = (let n = length (takeWhile ((=) 1) bs) in (if s = 2 then - int n else int n) # dec_ints (drop (Suc n) bs))"
  by pat_completeness auto
termination by (relation "measure length") auto

lemma dec_enc_ints: "dec_ints (enc_ints xs) = xs"
proof (induction xs)
  case (Cons i xs)
  have "takeWhile ((=) 1) (replicate n 1 @ (0::byte) # bs) = replicate n 1" for n bs by (induction n) auto
  then show ?case using Cons by (simp add: enc_ints_def Let_def)
qed (simp add: enc_ints_def)

definition ex_bytes :: "bytes \<Rightarrow> int list" where "ex_bytes b = int (length b) # map uint b"

definition ex_opt :: "bytes option \<Rightarrow> int list" where
  "ex_opt x = (case x of None \<Rightarrow> [-1] | Some b \<Rightarrow> ex_bytes b)"

fun take_opt :: "int list \<Rightarrow> bytes option \<times> int list" where
  "take_opt [] = (None, [])"
| "take_opt (n # xs) = (if n < 0 then (None, xs) else (Some (map word_of_int (take (nat n) xs)), drop (nat n) xs))"

lemma take_ex_opt: "take_opt (ex_opt x @ xs) = (x, xs)" "take_opt (ex_bytes b @ xs) = (Some b, xs)"
  by (cases x) (simp_all add: ex_opt_def ex_bytes_def map_idI)

definition ex_chars :: "string \<Rightarrow> int list" where "ex_chars c = map of_char c"

lemma ex_chars_inv: "map char_of (ex_chars c) = c"
  by (simp add: ex_chars_def map_idI)

definition pv_ex :: pv_ext where
  "pv_ex =
     \<lparr>xVoteSignBytes = (\<lambda>c v. enc_ints ([vType v, vHeight v, vRound v, vTimestamp v] @ ex_bytes (vBlockID v) @ ex_chars c)),
      xProposalSignBytes = (\<lambda>c p. enc_ints ([pHeight p, pRound p, pPolRound p, pTimestamp p] @ ex_bytes (pBlockID p) @ ex_chars c)),
      xUnmarshalVote = (\<lambda>b. case dec_ints b of t # h # r # ts # xs \<Rightarrow> (case take_opt xs of (bid, c) \<Rightarrow>
         Some \<lparr>cvType = t, cvHeight = h, cvRound = r, cvBlockID = the bid, cvTimestamp = ts, cvChainID = map char_of c\<rparr>) | _ \<Rightarrow> None),
      xUnmarshalProposal = (\<lambda>b. case dec_ints b of h # r # pr # ts # xs \<Rightarrow> (case take_opt xs of (bid, c) \<Rightarrow>
         Some \<lparr>cpHeight = h, cpRound = r, cpPolRound = pr, cpBlockID = the bid, cpTimestamp = ts, cpChainID = map char_of c\<rparr>) | _ \<Rightarrow> None),
      xSign = (\<lambda>k b. Inr [1]),
      xMarshalState = (\<lambda>s. Inr (enc_ints ([lsHeight s, lsRound s, lsStep s] @ ex_opt (lsSignature s) @ ex_opt (lsSignBytes s)))),
      xUnmarshalState = (\<lambda>f. case dec_ints f of h # r # st # xs \<Rightarrow> (case take_opt xs of (sig, ys) \<Rightarrow>
         Some \<lparr>lsHeight = h, lsRound = r, lsStep = st, lsSignature = sig, lsSignBytes = fst (take_opt ys)\<rparr>) | _ \<Rightarrow> None)\<rparr>"

lemma enc_ints_Nil: "enc_ints (x # xs) \<noteq> []"
  by (simp add: enc_ints_def)

lemma pv_ex_lawful: "pv_lawful pv_ex"
  unfolding pv_lawful_def
proof (intro conjI allI impI)
  fix s f assume "xMarshalState pv_ex s = Inr f"
  then show "xUnmarshalState pv_ex f = Some s"
    using take_ex_opt(1)[of "lsSignBytes s" "[]"] by (auto simp: pv_ex_def dec_enc_ints take_ex_opt)
next
  fix c :: string and p p' assume "canon_proposal c p = canon_proposal c p'"
  then show "xProposalSignBytes pv_ex c p = xProposalSignBytes pv_ex c p'" by (simp add: pv_ex_def canon_proposal_def)
next
  fix c :: string and v v' assume "canon_vote c v = canon_vote c v'"
  then show "xVoteSignBytes pv_ex c v = xVoteSignBytes pv_ex c v'" by (simp add: pv_ex_def canon_vote_def)
qed (auto simp: pv_ex_def dec_enc_ints take_ex_opt ex_chars_inv canon_vote_def canon_proposal_def enc_ints_Nil)

definition vote_ex :: "int \<Rightarrow> Vote" where
  "vote_ex t = \<lparr>vType = 1, vHeight = 5, vRound = 0, vBlockID = [9], vTimestamp = t, vSignature = []\<rparr>"

text \<open>Two requests that differ in the timestamp only: the second one is answered with the first one's timestamp and signature.\<close>

lemma pv_ex_run:
  "\<exists>f s. LastSignState_Save pv_ex (NewSFilePV [1] ''state'') = Ret f \<and>
     pv_run pv_ex ''beatoz'' \<lparr>sysPV = NewSFilePV [1] ''state'', sysDisk = f, sysLog = []\<rparr> s \<and>
     sysLog s = [SVote ((vote_ex 3)\<lparr>vSignature := [1]\<rparr>), SVote ((vote_ex 4)\<lparr>vTimestamp := 3, vSignature := [1]\<rparr>)]"
proof -
  define pv0 where "pv0 = NewSFilePV [1] ''state''"
  obtain f where f: "LastSignState_Save pv_ex pv0 = Ret f" by (simp add: LastSignState_Save_def pv0_def NewSFilePV_def pv_ex_def)
  define pv1 where "pv1 = pv0\<lparr>LastSignState := \<lparr>lsHeight = 5, lsRound = 0, lsStep = stepPrevote, lsSignature = Some [1],
     lsSignBytes = Some (xVoteSignBytes pv_ex ''beatoz'' (vote_ex 3))\<rparr>\<rparr>"
  obtain f1 where f1: "LastSignState_Save pv_ex pv1 = Ret f1" by (simp add: LastSignState_Save_def pv1_def pv0_def NewSFilePV_def pv_ex_def)
  have st: "voteToStep (vote_ex t) = Ret stepPrevote" for t by (simp add: voteToStep_def vote_ex_def)
  have hr: "vHeight (vote_ex t) = 5" "vRound (vote_ex t) = 0" for t by (simp_all add: vote_ex_def)
  have sg: "xSign pv_ex k b = Inr [1]" for k b by (simp add: pv_ex_def)
  have "CheckHRS (LastSignState pv0) 5 0 stepPrevote = Ret (Inr False)" by (simp add: CheckHRS_def pv0_def NewSFilePV_def)
  then have "SignVote pv_ex ''beatoz'' pv0 (vote_ex 3) = Ret (pv1, Some f1, Inr ((vote_ex 3)\<lparr>vSignature := [1]\<rparr>))"
    using f1 by (simp add: SignVote_def signVote_def st hr sign_bytes_def sg saveSigned_def Let_def pv1_def)
  then have s1: "pv_step pv_ex ''beatoz'' \<lparr>sysPV = pv0, sysDisk = f, sysLog = []\<rparr>
      \<lparr>sysPV = pv1, sysDisk = f1, sysLog = [SVote ((vote_ex 3)\<lparr>vSignature := [1]\<rparr>)]\<rparr>"
    using pv_step.vote[of pv_ex "''beatoz''" "\<lparr>sysPV = pv0, sysDisk = f, sysLog = []\<rparr>"] by (fastforce simp: pv_after_def)
  have c1: "CheckHRS (LastSignState pv1) 5 0 stepPrevote = Ret (Inr True)" by (simp add: CheckHRS_def pv1_def)
  have "xUnmarshalVote pv_ex (xVoteSignBytes pv_ex ''beatoz'' (vote_ex 4)) \<noteq> xUnmarshalVote pv_ex (xVoteSignBytes pv_ex ''beatoz'' (vote_ex 3))"
    by (simp add: pv_lawfulD(1)[OF pv_ex_lawful] canon_vote_def vote_ex_def)
  then have "xVoteSignBytes pv_ex ''beatoz'' (vote_ex 4) \<noteq> xVoteSignBytes pv_ex ''beatoz'' (vote_ex 3)" by metis
  moreover have "checkVotesOnlyDifferByTimestamp pv_ex (xVoteSignBytes pv_ex ''beatoz'' (vote_ex 3)) (xVoteSignBytes pv_ex ''beatoz'' (vote_ex 4)) = Ret (3, True)"
    by (simp add: checkVotesOnlyDifferByTimestamp_def pv_lawfulD(1)[OF pv_ex_lawful] canon_vote_def vote_ex_def)
  ultimately have "SignVote pv_ex ''beatoz'' pv1 (vote_ex 4) = Ret (pv1, None, Inr ((vote_ex 4)\<lparr>vTimestamp := 3, vSignature := [1]\<rparr>))"
    using c1 by (simp add: SignVote_def signVote_def st hr sign_bytes_def Let_def) (simp add: pv1_def)
  then have "pv_step pv_ex ''beatoz'' \<lparr>sysPV = pv1, sysDisk = f1, sysLog = [SVote ((vote_ex 3)\<lparr>vSignature := [1]\<rparr>)]\<rparr>
      \<lparr>sysPV = pv1, sysDisk = f1, sysLog = [SVote ((vote_ex 3)\<lparr>vSignature := [1]\<rparr>), SVote ((vote_ex 4)\<lparr>vTimestamp := 3, vSignature := [1]\<rparr>)]\<rparr>"
    using pv_step.vote[of pv_ex "''beatoz''" "\<lparr>sysPV = pv1, sysDisk = f1, sysLog = [SVote ((vote_ex 3)\<lparr>vSignature := [1]\<rparr>)]\<rparr>"]
    by (fastforce simp: pv_after_def)
  then show ?thesis using f pv_run.pv_next[OF pv_run.pv_next[OF pv_run.pv_refl s1]] unfolding pv0_def by fastforce
qed

theorem no_double_sign_witness:
  "\<exists>s :: pv_sys. SVote ((vote_ex 3)\<lparr>vSignature := [1]\<rparr>) \<in> set (sysLog s) \<and> SVote ((vote_ex 4)\<lparr>vTimestamp := 3, vSignature := [1]\<rparr>) \<in> set (sysLog s) \<and>
     (vote_ex 3)\<lparr>vSignature := [1]\<rparr> = (vote_ex 4)\<lparr>vTimestamp := 3, vSignature := [1]\<rparr>"
proof -
  obtain f s where s: "LastSignState_Save pv_ex (NewSFilePV [1] ''state'') = Ret f"
    "pv_run pv_ex ''beatoz'' \<lparr>sysPV = NewSFilePV [1] ''state'', sysDisk = f, sysLog = []\<rparr> s"
    "sysLog s = [SVote ((vote_ex 3)\<lparr>vSignature := [1]\<rparr>), SVote ((vote_ex 4)\<lparr>vTimestamp := 3, vSignature := [1]\<rparr>)]"
    using pv_ex_run by blast
  have "(vote_ex 3)\<lparr>vSignature := [1]\<rparr> = (vote_ex 4)\<lparr>vTimestamp := 3, vSignature := [1]\<rparr>"
    by (rule no_double_sign[OF pv_ex_lawful s(1,2), THEN conjunct1, THEN mp]) (simp add: s(3) vote_ex_def)
  moreover have "SVote ((vote_ex 3)\<lparr>vSignature := [1]\<rparr>) \<in> set (sysLog s)"
    "SVote ((vote_ex 4)\<lparr>vTimestamp := 3, vSignature := [1]\<rparr>) \<in> set (sysLog s)" by (simp_all add: s(3))
  ultimately show ?thesis by blast
qed

end
