(* ===== verification/Node.thy ===== *)
theory Node
  imports EVM Supply Gov_Ctrler VPower_Ctrler
begin

text \<open>
  The application (\<open>node/app.go\<close>, \<open>node/trx_executor.go\<close>, \<open>node/meta_db.go\<close>): it composes the five controllers,
  executes transactions and runs blocks. What the libraries provide is collected in \<open>node_ext\<close>: the externals of
  transactions, the JSON and number libraries, the virtual machine, the address of a public key, the hash of the
  application state, the JSON form of block contexts, the key/value store, and the configuration. Every method of
  \<open>BeatozApp\<close> holds a lock, so methods are atomic steps; the preparation of transactions, which is concurrent, is in
  its own theory.
\<close>

record ('s, 'f, 'd) node_ext =
  nX :: externs
  nJ :: gov_json
  nP :: "'s geth"
  nF :: "'f fixed_ops"
  nD :: "'d decimal_ops"
  nNeg :: "'d \<Rightarrow> bool"
  nP2a :: "bytes \<Rightarrow> addr"
  nHash :: "bytes list \<Rightarrow> bytes"
  nMarshalBctx :: "bctx_json \<Rightarrow> goerror + bytes"
  nUnmarshalBctx :: "bytes \<Rightarrow> goerror + bctx_json"
  nDbSet :: "(string \<rightharpoonup> bytes) \<Rightarrow> string \<Rightarrow> bytes \<Rightarrow> goerror + (string \<rightharpoonup> bytes)"
  nRpcListen :: bool

section \<open>Metadata\<close>

record MetaDB =
  mdb :: "string \<rightharpoonup> bytes"
  mdTxn :: int
  mdTotalTxFee :: uint256

definition keyBlockContext :: string where "keyBlockContext = ''bc''"
definition keyTxn :: string where "keyTxn = ''xn''"
definition keyTxFee :: string where "keyTxFee = ''xf''"

text \<open>\<open>binary.BigEndian.Uint64\<close> panics on fewer than eight bytes.\<close>

definition OpenMetaDB :: "(string \<rightharpoonup> bytes) \<Rightarrow> MetaDB go" where
  "OpenMetaDB db =
     (case (case db keyTxn of None \<Rightarrow> Ret 0 | Some v \<Rightarrow> (case GetUint64 v of None \<Rightarrow> Panic | Some n \<Rightarrow> Ret n)) of
        Panic \<Rightarrow> Panic
      | Ret txn \<Rightarrow> Ret \<lparr>mdb = db, mdTxn = txn,
          mdTotalTxFee = (case db keyTxFee of None \<Rightarrow> 0 | Some v \<Rightarrow> SetBytes v)\<rparr>)"

definition LastBlockContext :: "('s, 'f, 'd) node_ext \<Rightarrow> MetaDB \<Rightarrow> BlockContext option go" where
  "LastBlockContext E m =
     (case mdb m keyBlockContext of
        None \<Rightarrow> Ret None
      | Some bz \<Rightarrow> (case nUnmarshalBctx E bz of
          Inl _ \<Rightarrow> Ret None
        | Inr j \<Rightarrow> (case BlockContext_UnmarshalJSON (exGasPool (nX E)) j
             \<lparr>blockInfo = jsBlockInfo j, blockSizeLimit = 0, blockGasLimit = 0, blockGasPool = 0, feeSum = 0, txsCnt = 0,
              bAppHash = [], ValUpdates = []\<rparr> of Panic \<Rightarrow> Panic | Ret b \<Rightarrow> Ret (Some b))))"

definition PutLastBlockContext :: "('s, 'f, 'd) node_ext \<Rightarrow> MetaDB \<Rightarrow> BlockContext \<Rightarrow> MetaDB \<times> goerror option" where
  "PutLastBlockContext E m b =
     (case nMarshalBctx E (BlockContext_MarshalJSON b) of
        Inl e \<Rightarrow> (m, Some e)
      | Inr bz \<Rightarrow> (case nDbSet E (mdb m) keyBlockContext bz of
          Inl e \<Rightarrow> (m, Some e) | Inr db \<Rightarrow> (m\<lparr>mdb := db\<rparr>, None)))"

definition PutTxn :: "('s, 'f, 'd) node_ext \<Rightarrow> MetaDB \<Rightarrow> int \<Rightarrow> MetaDB \<times> goerror option" where
  "PutTxn E m n = (case nDbSet E (mdb m) keyTxn (PutUint64 n) of
     Inl e \<Rightarrow> (m, Some e) | Inr db \<Rightarrow> (m\<lparr>mdb := db, mdTxn := n\<rparr>, None))"

definition PutTotalTxFee :: "('s, 'f, 'd) node_ext \<Rightarrow> MetaDB \<Rightarrow> uint256 \<Rightarrow> MetaDB \<times> goerror option" where
  "PutTotalTxFee E m f = (case nDbSet E (mdb m) keyTxFee (u256_Bytes f) of
     Inl e \<Rightarrow> (m, Some e) | Inr db \<Rightarrow> (m\<lparr>mdb := db, mdTotalTxFee := f\<rparr>, None))"

section \<open>The application\<close>

text \<open>
  The ledgers' versions are kept here, next to the controllers. \<open>vpowCommitted\<close> is the voting power ledger of the
  last commit, which the issuing routine reads.
\<close>

record 's BeatozApp =
  lastBlockCtx :: BlockContext
  currBlockCtx :: "BlockContext option"
  metaDB :: MetaDB
  govCtrler :: GovCtrler
  acctCtrler :: AcctCtrler
  supplyCtrler :: SupplyCtrler
  vpowCtrler :: VPowerCtrler
  vmCtrler :: "'s EVMCtrler"
  vpowCommitted :: vstate
  govVersion :: int
  acctVersion :: int
  supplyVersion :: int
  vpowVersion :: int

definition gov_params :: "'s BeatozApp \<Rightarrow> GovParams" where
  "gov_params app = govParams (govCtrler app)"

section \<open>Executing a transaction\<close>

text \<open>What a controller's \<open>ValidateTrx\<close> leaves in the context for its \<open>ExecuteTrx\<close>.\<close>

datatype validate_result = VRNone | VRBond bondingTrxOpt | VRReward Reward

text \<open>The account controller asserts the payload's type of a document transaction.\<close>

definition acct_trx_of :: "Trx \<Rightarrow> acct_trx go" where
  "acct_trx_of tx =
     (if txType tx = TRX_TRANSFER then Ret (AcctTransfer (txAmount tx))
      else if txType tx = TRX_SETDOC then
        (case txPayload tx of Some (TrxPayloadSetDoc n url) \<Rightarrow> Ret (AcctSetDoc n url) | _ \<Rightarrow> Panic)
      else Ret AcctOther)"

definition commonValidation :: "AcctCtrler \<Rightarrow> BlockContext \<Rightarrow> TrxContext \<Rightarrow> xerror option" where
  "commonValidation ac b ctx =
     (let tx = Tx ctx; remainedBlockGas = GetBlockGasRemained b;
          feeAmt = txGasPrice tx * NewInt (txGas tx);
          sender = heap ac (Sender ctx); payer = heap ac (Payer ctx) in
      if remainedBlockGas \<le> 0 \<or> remainedBlockGas < txGas tx then Some (Wrapf ErrInvalidGas ''blockGasLimit'')
      else (case (if bytes_Compare (Address sender) (Address payer) \<noteq> 0
                  then (case Account_CheckBalance payer feeAmt of
                          Some e \<Rightarrow> Some e
                        | None \<Rightarrow> Account_CheckBalance sender (txAmount tx))
                  else Account_CheckBalance sender (feeAmt + txAmount tx)) of
              Some e \<Rightarrow> Some e
            | None \<Rightarrow> (case Account_CheckNonce sender (txNonce tx) of
                Some e \<Rightarrow> Some (Wrap e (EFmt ''ledger''))
              | None \<Rightarrow> None)))"

definition validateTrx ::
  "('s, 'f, 'd) node_ext \<Rightarrow> 's BeatozApp \<Rightarrow> BlockContext \<Rightarrow> TrxContext \<Rightarrow> ('s BeatozApp \<times> TrxContext \<times> validate_result res) go" where
  "validateTrx E app b ctx =
     (let t = txType (Tx ctx); ac = acctCtrler app in
      case commonValidation ac b ctx of
        Some e \<Rightarrow> Ret (app, ctx, Inl e)
      | None \<Rightarrow>
      if t = TRX_PROPOSAL \<or> t = TRX_VOTING then
        (case GovCtrler_ValidateTrx (nJ E) (IsValidator (vpowCtrler app)) (govCtrler app) (Height b) ctx of
           Panic \<Rightarrow> Panic
         | Ret (Some e) \<Rightarrow> Ret (app, ctx, Inl e)
         | Ret None \<Rightarrow> Ret (app, ctx, Inr VRNone))
      else if t = TRX_TRANSFER \<or> t = TRX_SETDOC then
        (case acct_trx_of (Tx ctx) of
           Panic \<Rightarrow> Panic
         | Ret atx \<Rightarrow> Ret (app, ctx, case AcctCtrler_ValidateTrx atx of Some e \<Rightarrow> Inl e | None \<Rightarrow> Inr VRNone))
      else if t = TRX_WITHDRAW then
        Ret (app, ctx, map_sum id VRReward (SupplyCtrler_ValidateTrx (supplyCtrler app) ctx))
      else if t = TRX_STAKING \<or> t = TRX_UNSTAKING then
        (case VPowerCtrler_ValidateTrx (gov_params app) (vpowCtrler app) ctx of
           Panic \<Rightarrow> Panic
         | Ret (vp, r) \<Rightarrow> Ret (app\<lparr>vpowCtrler := vp\<rparr>, ctx, map_sum id VRBond r))
      else if t = TRX_CONTRACT then
        (case EVMCtrler_ValidateTrx (nP E) ac ctx of
           Inl e \<Rightarrow> Ret (app, ctx, Inl e)
         | Inr ctx1 \<Rightarrow> Ret (app, ctx1, Inr VRNone))
      else Ret (app, ctx, Inl ErrUnknownTrxType))"

definition exec_evm ::
  "('s, 'f, 'd) node_ext \<Rightarrow> 's BeatozApp \<Rightarrow> BlockContext \<Rightarrow> TrxContext \<Rightarrow> ('s BeatozApp \<times> BlockContext \<times> TrxContext \<times> xerror option) go" where
  "exec_evm E app b ctx =
     (case EVMCtrler_ExecuteTrx (exGasPool (nX E)) (nP E) (vmCtrler app) (acctCtrler app) b ctx of
        Panic \<Rightarrow> Panic
      | Ret (vm, ac, b1, ctx1, e) \<Rightarrow> Ret (app\<lparr>vmCtrler := vm, acctCtrler := ac\<rparr>, b1, ctx1, e))"

text \<open>The switch of \<open>runTrx\<close> over the transaction's type.\<close>

definition execTrx ::
  "('s, 'f, 'd) node_ext \<Rightarrow> 's BeatozApp \<Rightarrow> BlockContext \<Rightarrow> TrxContext \<Rightarrow> validate_result \<Rightarrow>
     ('s BeatozApp \<times> BlockContext \<times> TrxContext \<times> xerror option) go" where
  "execTrx E app b ctx vr =
     (let t = txType (Tx ctx); ac = acctCtrler app; h = Height b in
      if t = TRX_CONTRACT then exec_evm E app b ctx
      else if t = TRX_PROPOSAL \<or> t = TRX_VOTING then
        (case GovCtrler_ExecuteTrx (Validators (vpowCtrler app)) (govCtrler app) ctx of
           Panic \<Rightarrow> Panic
         | Ret (gc, e) \<Rightarrow> Ret (app\<lparr>govCtrler := gc\<rparr>, b, ctx, e))
      else if t = TRX_TRANSFER \<or> t = TRX_SETDOC then
        (if IsHandledByEVM ac ctx then exec_evm E app b ctx
         else (case acct_trx_of (Tx ctx) of
                 Panic \<Rightarrow> Panic
               | Ret atx \<Rightarrow> (case AcctCtrler_ExecuteTrx ac atx (Sender ctx) (Some (Receiver ctx)) (Exec ctx) of
                   Panic \<Rightarrow> Panic
                 | Ret (ac1, e) \<Rightarrow> Ret (app\<lparr>acctCtrler := ac1\<rparr>, b, ctx, e))))
      else if t = TRX_WITHDRAW then
        (case vr of
           VRReward rwd \<Rightarrow> (case SupplyCtrler_ExecuteTrx (supplyCtrler app) ac h ctx rwd of
             Panic \<Rightarrow> Panic
           | Ret (sc, ac1, e) \<Rightarrow> Ret (app\<lparr>supplyCtrler := sc, acctCtrler := ac1\<rparr>, b, ctx, e))
         | _ \<Rightarrow> Panic)
      else if t = TRX_STAKING \<or> t = TRX_UNSTAKING then
        (case vr of
           VRBond opt \<Rightarrow> (case VPowerCtrler_ExecuteTrx (nP2a E) (gov_params app) (vpowCtrler app) ac h ctx opt of
             Panic \<Rightarrow> Panic
           | Ret (vc, ac1, e) \<Rightarrow> Ret (app\<lparr>vpowCtrler := vc, acctCtrler := ac1\<rparr>, b, ctx, e))
         | _ \<Rightarrow> Panic)
      else Ret (app, b, ctx, Some ErrUnknownTrxType))"

definition known_type :: "Trx \<Rightarrow> bool" where
  "known_type tx \<longleftrightarrow> txType tx \<in> {TRX_CONTRACT, TRX_PROPOSAL, TRX_VOTING, TRX_TRANSFER, TRX_SETDOC, TRX_WITHDRAW,
     TRX_STAKING, TRX_UNSTAKING}"

text \<open>Fee and nonce. The block's gas is taken here for everything but contracts; an error of the pool is ignored.\<close>

definition postRunTrx ::
  "gaspool \<Rightarrow> AcctCtrler \<Rightarrow> BlockContext \<Rightarrow> TrxContext \<Rightarrow> AcctCtrler \<times> BlockContext \<times> TrxContext \<times> xerror option" where
  "postRunTrx G ac b ctx =
     (let evm = IsHandledByEVM ac ctx;
          ctx1 = (if evm then ctx else ctx\<lparr>GasUsed := txGas (Tx ctx)\<rparr>);
          b1 = (if evm then b else fst (UseBlockGas G b (txGas (Tx ctx))));
          fee = GasToFee (GasUsed ctx1) (txGasPrice (Tx ctx))
      in case Account_SubBalance (heap ac (Payer ctx)) fee of
           Inl e \<Rightarrow> (ac, b1, ctx1, Some e)
         | Inr x \<Rightarrow>
             (let ac1 = put ac (Payer ctx) x;
                  ac2 = put ac1 (Sender ctx) (Account_AddNonce (heap ac1 (Sender ctx)));
                  ac3 = setAccount ac2 (Sender ctx) (Exec ctx)
              in (if bytes_Compare (Address (heap ac3 (Sender ctx))) (Address (heap ac3 (Payer ctx))) \<noteq> 0
                  then setAccount ac3 (Payer ctx) (Exec ctx) else ac3, b1, ctx1, None)))"

text \<open>
  The deferred function assigns its error to a local variable after the result was fixed, so an error of
  \<open>postRunTrx\<close> is not returned. For an unknown type that variable is nil when the deferred function runs.
\<close>

definition runTrx ::
  "('s, 'f, 'd) node_ext \<Rightarrow> 's BeatozApp \<Rightarrow> BlockContext \<Rightarrow> TrxContext \<Rightarrow> validate_result \<Rightarrow>
     ('s BeatozApp \<times> BlockContext \<times> TrxContext \<times> xerror option) go" where
  "runTrx E app b ctx vr =
     (case execTrx E app b ctx vr of
        Panic \<Rightarrow> Panic
      | Ret (app1, b1, ctx1, e) \<Rightarrow>
          if Exec ctx1 \<or> e = None \<or> \<not> known_type (Tx ctx1) then
            (case postRunTrx (exGasPool (nX E)) (acctCtrler app1) b1 ctx1 of
               (ac, b2, ctx2, _) \<Rightarrow> Ret (app1\<lparr>acctCtrler := ac\<rparr>, b2, ctx2, e))
          else Ret (app1, b1, ctx1, e))"

definition ExecuteSync ::
  "('s, 'f, 'd) node_ext \<Rightarrow> 's BeatozApp \<Rightarrow> BlockContext \<Rightarrow> TrxContext \<Rightarrow>
     ('s BeatozApp \<times> BlockContext \<times> TrxContext \<times> xerror option) go" where
  "ExecuteSync E app b ctx =
     (case validateTrx E app b ctx of
        Panic \<Rightarrow> Panic
      | Ret (app1, ctx1, Inl e) \<Rightarrow> Ret (app1, b, ctx1, Some e)
      | Ret (app1, ctx1, Inr vr) \<Rightarrow> runTrx E app1 b ctx1 vr)"

end
