(* ===== verification/Node_Block.thy ===== *)
theory Node_Block
  imports Node
begin

text \<open>
  The methods the consensus engine calls (\<open>node/app.go\<close>): genesis, checking transactions, and the steps of a block.
  Responses carry the code and the gas numbers; events, logs and the data of a response are left out. A method that
  would wait forever, for the issuing routine, returns \<open>None\<close>.
\<close>

record Response =
  rsCode :: nat
  rsGasWanted :: int
  rsGasUsed :: int

definition CodeTypeOK :: nat where "CodeTypeOK = 0"

section \<open>Genesis\<close>

record GenesisAppState =
  AssetHolders :: "(addr \<times> uint256) list"
  gaGovParams :: "GovParams option"

text \<open>The hash of the genesis state; the protocol buffer form of the parameters is a library's.\<close>

definition GenesisAssetHolder_Hash :: "('s, 'f, 'd) node_ext \<Rightarrow> addr \<times> uint256 \<Rightarrow> bytes" where
  "GenesisAssetHolder_Hash E h = nHash E [fst h, u256_Bytes (snd h)]"

definition GenesisAppState_Hash :: "('s, 'f, 'd) node_ext \<Rightarrow> (GovParams \<Rightarrow> goerror + bytes) \<Rightarrow> GenesisAppState \<Rightarrow> (goerror + bytes) go" where
  "GenesisAppState_Hash E enc ga =
     (case gaGovParams ga of
        None \<Rightarrow> Panic
      | Some g \<Rightarrow> Ret (case enc g of
          Inl e \<Rightarrow> Inl e
        | Inr bz \<Rightarrow> Inr (nHash E (bz # map (GenesisAssetHolder_Hash E) (AssetHolders ga)))))"

record RequestInitChain =
  riChainId :: string
  riValidators :: "(bytes \<times> int) list"
  riAppState :: "goerror + GenesisAppState"
  riMaxBytes :: int
  riMaxGas :: int

definition checkRequestInitChain :: "RequestInitChain \<Rightarrow> (goerror + GenesisAppState \<times> uint256) go" where
  "checkRequestInitChain req =
     (let genVotingPower = foldl (\<lambda>t v. i64 (t + snd v)) 0 (riValidators req) in
      case riAppState req of
        Inl e \<Rightarrow> Ret (Inl e)
      | Inr ga \<Rightarrow>
          (let genTotalSupply = foldl (\<lambda>t h. t + snd h) (PowerToAmount genVotingPower) (AssetHolders ga) in
           case gaGovParams ga of
             None \<Rightarrow> Panic
           | Some g \<Rightarrow> Ret (if genTotalSupply > MaxTotalSupply g then Inl (EFmt ''error: initial supply cannot exceed max total supply'')
                            else Inr (ga, genTotalSupply))))"

definition BeatozApp_InitChain ::
  "('s, 'f, 'd) node_ext \<Rightarrow> (GovParams \<Rightarrow> goerror + bytes) \<Rightarrow> RequestInitChain \<Rightarrow> 's BeatozApp \<Rightarrow> ('s BeatozApp \<times> bytes) go" where
  "BeatozApp_InitChain E enc req app =
     (case checkRequestInitChain req of
        Panic \<Rightarrow> Panic
      | Ret (Inl _) \<Rightarrow> Panic
      | Ret (Inr (ga, supply)) \<Rightarrow>
     (case gaGovParams ga of
        None \<Rightarrow> Panic
      | Some g \<Rightarrow>
     (let app1 = app\<lparr>govCtrler := GovCtrler_InitLedger (govCtrler app) g,
                     acctCtrler := AcctCtrler_InitLedger (acctCtrler app) (AssetHolders ga),
                     supplyCtrler := SupplyCtrler_InitLedger (supplyCtrler app) supply,
                     vpowCtrler := VPowerCtrler_InitLedger (nP2a E) (vpowCtrler app) (riValidators req)\<rparr>
      in case GenesisAppState_Hash E enc ga of
           Panic \<Rightarrow> Panic
         | Ret (Inl _) \<Rightarrow> Panic
         | Ret (Inr appHash) \<Rightarrow>
             (let b = lastBlockCtx app1; b1 = SetBlockSizeLimit (b\<lparr>blockInfo := (blockInfo b)\<lparr>biChainID := riChainId req\<rparr>\<rparr>) (riMaxBytes req)
              in case setBlockGasLimit (exGasPool (nX E)) b1 (riMaxGas req) of
                   Panic \<Rightarrow> Panic
                 | Ret b2 \<Rightarrow> Ret (app1\<lparr>lastBlockCtx := b2\<lparr>bAppHash := appHash\<rparr>\<rparr>, appHash)))))"

section \<open>CheckTx\<close>

definition CheckTx_New :: "('s, 'f, 'd) node_ext \<Rightarrow> bytes \<Rightarrow> 's BeatozApp \<Rightarrow> ('s BeatozApp \<times> Response) go" where
  "CheckTx_New E txbz app =
     (case ExpectNextBlockContext (exGasPool (nX E)) (gov_params app) (lastBlockCtx app) (EmptyBlockIntervalSecs (gov_params app)) of
        Panic \<Rightarrow> Panic
      | Ret b \<Rightarrow>
     (case NewTrxContext (nX E) (gov_params app) (acctCtrler app) txbz b False of
        Panic \<Rightarrow> Panic
      | Ret (ac, Inl e) \<Rightarrow> Ret (app\<lparr>acctCtrler := ac\<rparr>, \<lparr>rsCode = Code (Wrap ErrCheckTx (EXerr e)), rsGasWanted = 0, rsGasUsed = 0\<rparr>)
      | Ret (ac, Inr ctx) \<Rightarrow>
     (case ExecuteSync E (app\<lparr>acctCtrler := ac\<rparr>) b ctx of
        Panic \<Rightarrow> Panic
      | Ret (app1, _, ctx1, Some e) \<Rightarrow>
          Ret (app1, \<lparr>rsCode = Code (Wrap ErrCheckTx (EXerr e)), rsGasWanted = txGas (Tx ctx1), rsGasUsed = 0\<rparr>)
      | Ret (app1, _, ctx1, None) \<Rightarrow>
          Ret (app1, \<lparr>rsCode = CodeTypeOK, rsGasWanted = txGas (Tx ctx1), rsGasUsed = GasUsed ctx1\<rparr>))))"

text \<open>
  The loop body of a recheck: balances and the nonce are checked, then taken from the decoded copies, which are stored
  only when everything succeeded. With a payer two copies are stored one after the other.
\<close>

definition recheck_run :: "AcctCtrler \<Rightarrow> Trx \<Rightarrow> aref \<Rightarrow> aref option \<Rightarrow> AcctCtrler \<times> xerror option" where
  "recheck_run ac tx sender payer =
     (let feeAmt = GasToFee (txGas tx) (txGasPrice tx); s = heap ac sender in
      case (case payer of
              None \<Rightarrow> Account_CheckBalance s (feeAmt + txAmount tx)
            | Some p \<Rightarrow> (case Account_CheckBalance s (txAmount tx) of
                Some e \<Rightarrow> Some e | None \<Rightarrow> Account_CheckBalance (heap ac p) feeAmt)) of
        Some e \<Rightarrow> (ac, Some e)
      | None \<Rightarrow>
     (case Account_CheckNonce s (txNonce tx) of
        Some e \<Rightarrow> (ac, Some (Wrap e (EFmt ''ledger'')))
      | None \<Rightarrow>
     (let s1 = Account_AddNonce s in
      case payer of
        None \<Rightarrow> (case Account_SubBalance s1 (feeAmt + txAmount tx) of
          Inl e \<Rightarrow> (ac, Some e)
        | Inr s2 \<Rightarrow> (setAccount (put ac sender s2) sender False, None))
      | Some p \<Rightarrow> (case Account_SubBalance s1 (txAmount tx) of
          Inl e \<Rightarrow> (ac, Some e)
        | Inr s2 \<Rightarrow> (case Account_SubBalance (heap ac p) feeAmt of
            Inl e \<Rightarrow> (ac, Some e)
          | Inr p2 \<Rightarrow> (setAccount (setAccount (put (put ac sender s2) p p2) sender False) p False, None))))))"

definition CheckTx_Recheck :: "('s, 'f, 'd) node_ext \<Rightarrow> bytes \<Rightarrow> 's BeatozApp \<Rightarrow> 's BeatozApp \<times> Response" where
  "CheckTx_Recheck E txbz app =
     (case Trx_Decode (nX E) txbz of
        Inl e \<Rightarrow> (app, \<lparr>rsCode = Code (Wrap ErrCheckTx (EXerr e)), rsGasWanted = 0, rsGasUsed = 0\<rparr>)
      | Inr tx \<Rightarrow>
     (case findAccount (acctCtrler app) (txFrom tx) False of
        (ac, None) \<Rightarrow> (app\<lparr>acctCtrler := ac\<rparr>, \<lparr>rsCode = Code ErrCheckTx, rsGasWanted = txGas tx, rsGasUsed = 0\<rparr>)
      | (ac, Some s) \<Rightarrow>
     (case (case txPayer tx of
              None \<Rightarrow> (ac, Inr None)
            | Some a \<Rightarrow> (case findAccount ac a False of
                (ac1, None) \<Rightarrow> (ac1, Inl ()) | (ac1, Some p) \<Rightarrow> (ac1, Inr (Some p)))) of
        (ac1, Inl _) \<Rightarrow> (app\<lparr>acctCtrler := ac1\<rparr>, \<lparr>rsCode = Code ErrCheckTx, rsGasWanted = txGas tx, rsGasUsed = 0\<rparr>)
      | (ac1, Inr p) \<Rightarrow>
          (case recheck_run ac1 tx s p of
             (ac2, e) \<Rightarrow> (app\<lparr>acctCtrler := ac2\<rparr>,
               \<lparr>rsCode = (case e of None \<Rightarrow> CodeTypeOK | Some x \<Rightarrow> Code (Wrap ErrCheckTx (EXerr x))),
                rsGasWanted = txGas tx, rsGasUsed = txGas tx\<rparr>)))))"

section \<open>BeginBlock\<close>

definition BeatozApp_BeginBlock :: "('s, 'f, 'd) node_ext \<Rightarrow> BlockInfo \<Rightarrow> 's BeatozApp \<Rightarrow> 's BeatozApp option go" where
  "BeatozApp_BeginBlock E bi app =
     (if biHeight bi \<noteq> i64 (Height (lastBlockCtx app) + 1) then Panic
      else (let g = gov_params app; G = exGasPool (nX E) in
      case NewBlockContext G g bi of
        Panic \<Rightarrow> Panic
      | Ret b0 \<Rightarrow>
     (case setBlockGasLimit G (SetBlockSizeLimit b0 (BlockSizeLimit g)) (BlockGasLimit g) of
        Panic \<Rightarrow> Panic
      | Ret b \<Rightarrow>
     (case GovCtrler_BeginBlock b (govCtrler app) of
        Panic \<Rightarrow> Panic
      | Ret gc \<Rightarrow>
     (case SupplyCtrler_BeginBlock g b (supplyCtrler app) of
        Panic \<Rightarrow> Panic
      | Ret None \<Rightarrow> Ret None
      | Ret (Some sc) \<Rightarrow>
     (case VPowerCtrler_BeginBlock g b (vpowCtrler app) (acctCtrler app) of
        Panic \<Rightarrow> Panic
      | Ret (vc, ac, Some e) \<Rightarrow> Panic
      | Ret (vc, ac, None) \<Rightarrow>
     (case EVMCtrler_BeginBlock (nP E) ac b (vmCtrler app) of
        Inl e \<Rightarrow> Panic
      | Inr vm \<Rightarrow> Ret (Some (app\<lparr>currBlockCtx := Some b, govCtrler := gc, supplyCtrler := sc, vpowCtrler := vc, acctCtrler := ac,
           vmCtrler := vm\<rparr>)))))))))"

section \<open>Delivering transactions\<close>

text \<open>The callback \<open>DeliverTx\<close> hands to the preparer: a context or the response of a transaction that has none.\<close>

definition prepare_tx ::
  "('s, 'f, 'd) node_ext \<Rightarrow> bytes \<Rightarrow> BlockContext \<Rightarrow> 's BeatozApp \<Rightarrow> ('s BeatozApp \<times> BlockContext \<times> (Response + TrxContext)) go" where
  "prepare_tx E txbz b app =
     (case NewTrxContext (nX E) (gov_params app) (acctCtrler app) txbz b True of
        Panic \<Rightarrow> Panic
      | Ret (ac, Inl e) \<Rightarrow>
          Ret (app\<lparr>acctCtrler := ac\<rparr>, b, Inl \<lparr>rsCode = Code (Wrap ErrDeliverTx (EXerr e)), rsGasWanted = 0, rsGasUsed = 0\<rparr>)
      | Ret (ac, Inr ctx) \<Rightarrow> Ret (app\<lparr>acctCtrler := ac\<rparr>, AddTxsCnt b 1, Inr ctx))"

text \<open>The fee of a failed transaction is not added to the block's fees.\<close>

definition asyncExecTrxContext ::
  "('s, 'f, 'd) node_ext \<Rightarrow> 's BeatozApp \<Rightarrow> BlockContext \<Rightarrow> TrxContext \<Rightarrow> ('s BeatozApp \<times> BlockContext \<times> Response) go" where
  "asyncExecTrxContext E app b ctx =
     (case ExecuteSync E app b ctx of
        Panic \<Rightarrow> Panic
      | Ret (app1, b1, ctx1, Some e) \<Rightarrow>
          Ret (app1, b1, \<lparr>rsCode = Code (Wrap ErrDeliverTx (EXerr e)), rsGasWanted = txGas (Tx ctx1), rsGasUsed = GasUsed ctx1\<rparr>)
      | Ret (app1, b1, ctx1, None) \<Rightarrow>
          Ret (app1, AddFee b1 (GasToFee (GasUsed ctx1) (GasPrice (gov_params app1))),
               \<lparr>rsCode = CodeTypeOK, rsGasWanted = txGas (Tx ctx1), rsGasUsed = GasUsed ctx1\<rparr>))"

record resultValue =
  rvIdx :: nat
  rvReq :: bytes
  rvOut :: "Response + TrxContext"

text \<open>The loop of \<open>EndBlock\<close> over the prepared transactions, with the index it expects.\<close>

fun exec_results ::
  "('s, 'f, 'd) node_ext \<Rightarrow> nat \<Rightarrow> resultValue option list \<Rightarrow> 's BeatozApp \<Rightarrow> BlockContext \<Rightarrow> ('s BeatozApp \<times> BlockContext \<times> Response list) go" where
  "exec_results E idx [] app b = Ret (app, b, [])"
| "exec_results E idx (None # rs) app b = Panic"
| "exec_results E idx (Some v # rs) app b =
     (if rvIdx v \<noteq> idx then Panic
      else (case (case rvOut v of Inl r \<Rightarrow> Ret (app, b, r) | Inr ctx \<Rightarrow> asyncExecTrxContext E app b ctx) of
              Panic \<Rightarrow> Panic
            | Ret (app1, b1, r) \<Rightarrow> (case exec_results E (Suc idx) rs app1 b1 of
                Panic \<Rightarrow> Panic
              | Ret (app2, b2, out) \<Rightarrow> Ret (app2, b2, r # out))))"

section \<open>EndBlock\<close>

record ResponseEndBlock =
  reValUpdates :: "(bytes \<times> int) list"
  reParams :: "(int \<times> int) option"

text \<open>
  The controllers' ends of the block, in the order of the source. The issuing routine has its turn before the supply
  controller waits for it.
\<close>

definition end_ctrlers ::
  "('s, 'f, 'd) node_ext \<Rightarrow> 's BeatozApp \<Rightarrow> BlockContext \<Rightarrow> ('s BeatozApp \<times> BlockContext) option go" where
  "end_ctrlers E app b =
     (let g = gov_params app in
      case GovCtrler_EndBlock (nJ E) b (govCtrler app) of
        Panic \<Rightarrow> Panic
      | Ret (gc, Some e) \<Rightarrow> Panic
      | Ret (gc, None) \<Rightarrow>
     (case AcctCtrler_EndBlock (acctCtrler app) (biProposer (blockInfo b)) (SumFee b) (TxFeeRewardRate g) (GovDeadAddress g) of
        (ac, Some e) \<Rightarrow> Panic
      | (ac, None) \<Rightarrow>
     (case mint_routine (nF E) (nD E) (nNeg E) g (vpowCommitted app) (map oval (lastValidators (vpowCtrler app))) (supplyCtrler app) of
        Panic \<Rightarrow> Panic
      | Ret sc0 \<Rightarrow>
     (case SupplyCtrler_EndBlock g b sc0 of
        Panic \<Rightarrow> Panic
      | Ret None \<Rightarrow> Ret None
      | Ret (Some (sc, Some e)) \<Rightarrow> Panic
      | Ret (Some (sc, None)) \<Rightarrow>
     (case VPowerCtrler_EndBlock g b (vpowCtrler app) ac of
        Panic \<Rightarrow> Panic
      | Ret (vc, ac1, b1, Some e) \<Rightarrow> Panic
      | Ret (vc, ac1, b1, None) \<Rightarrow>
          Ret (Some (app\<lparr>govCtrler := gc, acctCtrler := ac1, supplyCtrler := sc, vpowCtrler := vc\<rparr>, b1)))))))"

definition BeatozApp_EndBlock ::
  "('s, 'f, 'd) node_ext \<Rightarrow> resultValue option list \<Rightarrow> 's BeatozApp \<Rightarrow> ('s BeatozApp \<times> ResponseEndBlock \<times> Response list) option go" where
  "BeatozApp_EndBlock E results app =
     (case currBlockCtx app of
        None \<Rightarrow> Panic
      | Some b \<Rightarrow>
      if int (length results) \<noteq> txsCnt b then Panic
      else (case exec_results E 0 results app b of
        Panic \<Rightarrow> Panic
      | Ret (app1, b1, resps) \<Rightarrow>
     (case end_ctrlers E app1 b1 of
        Panic \<Rightarrow> Panic
      | Ret None \<Rightarrow> Ret None
      | Ret (Some (app2, b2)) \<Rightarrow>
          (let nxSize = BlockSizeLimit (gov_params app2); nxGas = BlockGasLimit (gov_params app2)
           in Ret (Some (app2\<lparr>currBlockCtx := Some b2\<rparr>,
                \<lparr>reValUpdates = ValUpdates b2,
                 reParams = (if nxSize \<noteq> blockSizeLimit b2 \<or> nxGas \<noteq> blockGasLimit b2 then Some (nxSize, nxGas) else None)\<rparr>,
                resps))))))"

section \<open>Commit\<close>

text \<open>\<open>roots\<close> are the root hashes the four ledgers report for the saved version, in the order of the controllers.\<close>

definition BeatozApp_Commit ::
  "('s, 'f, 'd) node_ext \<Rightarrow> bytes \<times> bytes \<times> bytes \<times> bytes \<Rightarrow> 's BeatozApp \<Rightarrow> ('s BeatozApp \<times> bytes) go" where
  "BeatozApp_Commit E roots app =
     (case (currBlockCtx app, roots) of
        (None, _) \<Rightarrow> Panic
      | (Some b, (rg, ra, rs, rv)) \<Rightarrow>
     (let height = Height b; ac = AcctCtrler_Commit (acctCtrler app) in
      if height \<noteq> i64 (govVersion app + 1) \<or> height \<noteq> i64 (acctVersion app + 1) \<or> height \<noteq> i64 (supplyVersion app + 1) \<or>
         height \<noteq> i64 (vpowVersion app + 1) then Panic
      else (case EVMCtrler_Commit (nP E) ac (vmCtrler app) of
        Panic \<Rightarrow> Panic
      | Ret (vm, rvm, ver) \<Rightarrow>
          if height \<noteq> ver then Panic
          else (let appHash = nHash E [rg, ra, rs, rv, rvm];
                    b1 = b\<lparr>bAppHash := appHash\<rparr>;
                    m1 = fst (PutLastBlockContext E (metaDB app) b1);
                    m2 = (if nRpcListen E \<and> txsCnt b1 > 0 then fst (PutTxn E m1 (u64 (mdTxn m1 + u64 (txsCnt b1)))) else m1);
                    m3 = (if nRpcListen E \<and> Sign (SumFee b1) > 0 then fst (PutTotalTxFee E m2 (mdTotalTxFee m2 + SumFee b1)) else m2)
                in Ret (app\<lparr>govCtrler := GovCtrler_Commit (govCtrler app), acctCtrler := ac,
                          supplyCtrler := SupplyCtrler_Commit (supplyCtrler app), vpowCtrler := VPowerCtrler_Commit (vpowCtrler app),
                          vmCtrler := vm, vpowCommitted := vexec (vpowCtrler app),
                          govVersion := height, acctVersion := height, supplyVersion := height, vpowVersion := height,
                          lastBlockCtx := b1, currBlockCtx := None, metaDB := m3\<rparr>, appHash)))))"

end
