(* ===== verification/Node_Prep.thy ===== *)
theory Node_Prep
  imports Node_Block EVM_Inv Gov_Steps Supply_Inv
begin

text \<open>
  The preparation of a block's transactions (\<open>node/trx_preparer.go\<close>): \<open>DeliverTx\<close> only queues a request for one of
  several routines, which create the transaction contexts concurrently; \<open>EndBlock\<close> waits for all of them. The
  scheduler is a step relation: in any order, a request is delivered or some routine handles the oldest
  request of its channel. A routine's turn is one step; the account controller serialises the lookups of a turn.
\<close>

section \<open>The preparer\<close>

record TrxPreparer =
  chReqParams :: "(nat \<times> bytes) list list"
  reqCount :: nat
  resultValues :: "resultValue option list"

text \<open>One channel for each processor, of capacity 5000.\<close>

definition newTrxPreparer :: "nat \<Rightarrow> TrxPreparer" where
  "newTrxPreparer procs = \<lparr>chReqParams = replicate procs [], reqCount = 0, resultValues = []\<rparr>"

definition TrxPreparer_reset :: "TrxPreparer \<Rightarrow> TrxPreparer" where
  "TrxPreparer_reset tp = tp\<lparr>reqCount := 0, resultValues := []\<rparr>"

definition ch_cap :: nat where "ch_cap = 5000"

text \<open>\<open>None\<close>: the channel is full and the caller waits for the routine.\<close>

definition TrxPreparer_Add :: "TrxPreparer \<Rightarrow> bytes \<Rightarrow> TrxPreparer option" where
  "TrxPreparer_Add tp req =
     (let idx = reqCount tp; n = idx mod length (chReqParams tp) in
      if length (chReqParams tp ! n) \<ge> ch_cap then None
      else Some (tp\<lparr>resultValues := resultValues tp @ [None], reqCount := reqCount tp + 1,
                    chReqParams := (chReqParams tp)[n := chReqParams tp ! n @ [(idx, req)]]\<rparr>))"

text \<open>A turn of routine \<open>n\<close>; \<open>None\<close> when its channel is empty.\<close>

definition trxPreparerRoutine ::
  "('s, 'f, 'd) node_ext \<Rightarrow> nat \<Rightarrow> 's BeatozApp \<times> BlockContext \<times> TrxPreparer \<Rightarrow> ('s BeatozApp \<times> BlockContext \<times> TrxPreparer) go option" where
  "trxPreparerRoutine E n s =
     (case s of (app, b, tp) \<Rightarrow>
      if n \<ge> length (chReqParams tp) then None
      else (case chReqParams tp ! n of
        [] \<Rightarrow> None
      | (idx, req) # q \<Rightarrow> Some (case prepare_tx E req b app of
          Panic \<Rightarrow> Panic
        | Ret (app1, b1, r) \<Rightarrow> Ret (app1, b1,
            tp\<lparr>chReqParams := (chReqParams tp)[n := q],
               resultValues := (resultValues tp)[idx := Some \<lparr>rvIdx = idx, rvReq = req, rvOut = r\<rparr>]\<rparr>))))"

text \<open>A run that delivers \<open>reqs\<close>, in order, and in which the routines have \<open>k\<close> turns.\<close>

inductive prep_run ::
  "('s, 'f, 'd) node_ext \<Rightarrow> 's BeatozApp \<times> BlockContext \<times> TrxPreparer \<Rightarrow> bytes list \<Rightarrow> nat \<Rightarrow> 's BeatozApp \<times> BlockContext \<times> TrxPreparer \<Rightarrow> bool"
  for E s where
  init: "prep_run E s [] 0 s"
| deliver: "prep_run E s reqs k (app, b, tp) \<Longrightarrow> TrxPreparer_Add tp req = Some tp' \<Longrightarrow> prep_run E s (reqs @ [req]) k (app, b, tp')"
| turn: "prep_run E s reqs k s' \<Longrightarrow> trxPreparerRoutine E n s' = Some (Ret s'') \<Longrightarrow> prep_run E s reqs (Suc k) s''"

section \<open>Contexts do not depend on the order\<close>

text \<open>Two outcomes for the same transaction, up to the names of account objects and the position in the block.\<close>

fun same_out :: "(Response + TrxContext) \<Rightarrow> (Response + TrxContext) \<Rightarrow> bool" where
  "same_out (Inl r) (Inl r') = (r = r')"
| "same_out (Inr x) (Inr y) = (Tx x = Tx y \<and> TxHash x = TxHash y \<and> Exec x = Exec y \<and> SenderPubKey x = SenderPubKey y \<and> GasUsed x = GasUsed y)"
| "same_out _ _ = False"

lemma findAccount_outcome:
  assumes "ainv c" "findAccount c a True = (c', r)"
  shows "r = None \<longleftrightarrow> atree c a = None"
  using findAccount_exec[OF assms] by (cases r) auto

text \<open>Looking up the three accounts succeeds or fails with an error that only the stored accounts decide.\<close>

definition lookup_err :: "(addr \<rightharpoonup> Account) \<Rightarrow> Trx \<Rightarrow> addr option \<Rightarrow> xerror option" where
  "lookup_err tr tx pa =
     (if tr (txFrom tx) = None then Some (Wrapf ErrNotFoundAccount ''sender address'')
      else (case pa of None \<Rightarrow> None | Some a \<Rightarrow> if tr a = None then Some (Wrapf ErrNotFoundAccount ''payer address'') else None))"

lemma find_accounts_outcome:
  assumes inv: "ainv c" "newb_ok c" and f: "find_accounts c tx pa True = (c', r)"
  shows "acct_ext c c' \<and> (case r of Inl e \<Rightarrow> lookup_err (atree c) tx pa = Some e
    | Inr (s, rc, p) \<Rightarrow> lookup_err (atree c) tx pa = None \<and> live c' (txFrom tx) s \<and> live c' (to_addr tx) rc \<and>
        live c' (case pa of None \<Rightarrow> txFrom tx | Some a \<Rightarrow> a) p)"
proof -
  obtain c1 s where 1: "findAccount c (txFrom tx) True = (c1, s)" by (cases "findAccount c (txFrom tx) True")
  note e1 = findAccount_exec[OF inv(1) 1] and l1 = findAccount_live[OF inv(1) 1] and n1 = newb_find[OF inv 1]
  show ?thesis
  proof (cases s)
    case None
    then show ?thesis using f 1 e1 l1 n1 by (auto simp: find_accounts_def lookup_err_def acct_ext_def)
  next
    case (Some i)
    obtain c2 rc where 2: "FindOrNewAccount c1 (to_addr tx) True = (c2, rc)" by (cases "FindOrNewAccount c1 (to_addr tx) True")
    have i1: "ainv c1" "newb_ok c1" using e1 n1 by auto
    note e2 = FindOrNew_exec[OF i1 2] and l2 = FindOrNew_live[OF i1 2]
    have i2: "ainv c2" "newb_ok c2" using e2 by auto
    have x2: "acct_ext c c2" using e1 e2 l1 l2 by (auto simp: acct_ext_def)
    obtain c3 p where 3: "find_payer c2 pa i True = (c3, p)" by (cases "find_payer c2 pa i True")
    have r: "r = (case p of Inl e \<Rightarrow> Inl e | Inr j \<Rightarrow> Inr (i, rc, j))" "c' = c3"
      using f 1 2 3 Some by (auto simp: find_accounts_def to_addr_def split: sum.splits)
    show ?thesis
    proof (cases pa)
      case pN: None
      then have "c3 = c2" "p = Inr i" using 3 by (auto simp: find_payer_def)
      then show ?thesis using pN r x2 l2 l1(2)[OF Some] e1 Some by (auto simp: lookup_err_def acct_ext_def)
    next
      case pS: (Some a)
      obtain j where 4: "findAccount c2 a True = (c3, j)" using 3 pS by (auto simp: find_payer_def split: prod.splits option.splits)
      note e3 = findAccount_exec[OF i2(1) 4] and l3 = findAccount_live[OF i2(1) 4] and n3 = newb_find[OF i2 4]
      have x3: "acct_ext c2 c3" using e3 l3 n3 by (auto simp: acct_ext_def)
      have p: "p = (case j of None \<Rightarrow> Inl (Wrapf ErrNotFoundAccount ''payer address'') | Some k \<Rightarrow> Inr k)"
        using 3 4 pS by (auto simp: find_payer_def split: option.splits)
      show ?thesis
        using acct_ext_trans[OF x2 x3] r p pS e1 e2 e3 l3 l2 l1(2)[OF Some] Some findAccount_outcome[OF i2(1) 4]
        by (cases j) (auto simp: lookup_err_def acct_ext_def)
    qed
  qed
qed

text \<open>The part of \<open>NewTrxContext\<close> before the lookups, and the context in terms of it.\<close>

definition ctx_live :: "AcctCtrler \<Rightarrow> TrxContext \<Rightarrow> bool" where
  "ctx_live c ctx \<longleftrightarrow> live c (txFrom (Tx ctx)) (Sender ctx) \<and> live c (to_addr (Tx ctx)) (Receiver ctx) \<and>
     live c (payer_addr (Tx ctx)) (Payer ctx) \<and> atree c (txFrom (Tx ctx)) \<noteq> None \<and> atree c (payer_addr (Tx ctx)) \<noteq> None"

lemma ctx_live_current: "ainv c \<Longrightarrow> newb_ok c \<Longrightarrow> ctx_live c ctx \<Longrightarrow> ctx_current c ctx"
  by (simp add: ctx_live_def ctx_current_def live_current)

lemma ctx_live_ext: "acct_ext c c' \<Longrightarrow> ctx_live c ctx \<Longrightarrow> ctx_live c' ctx"
  by (simp add: ctx_live_def acct_ext_def)

definition tx_head :: "externs \<Rightarrow> GovParams \<Rightarrow> bytes \<Rightarrow> (Trx \<times> bytes \<times> addr option) res go" where
  "tx_head X g bz =
     (case Trx_Decode X bz of
        Inl e \<Rightarrow> Ret (Inl e)
      | Inr tx \<Rightarrow>
     (case Trx_Validate tx of
        Some e \<Rightarrow> Ret (Inl e)
      | None \<Rightarrow>
      if txGas tx < MinTrxGas g then Ret (Inl (Wrapf ErrInvalidGas ''the tx has too small gas''))
      else if txGasPrice tx \<noteq> GasPrice g then Ret (Inl ErrInvalidGasPrice)
      else
     (case VerifyTrxRLP (exRlp X) (exSig2Addr X) (exSigners X) tx of
        Panic \<Rightarrow> Panic
      | Ret (Inl e) \<Rightarrow> Ret (Inl e)
      | Ret (Inr (_, pubKey)) \<Rightarrow>
          if txPayerSig tx = None then Ret (Inr (tx, pubKey, None))
          else (case VerifyPayerTrxRLP (exRlp X) (exSig2Addr X) (exSigners X) tx of
              Panic \<Rightarrow> Panic
            | Ret (Inl e) \<Rightarrow> Ret (Inl (Wrap e (EFmt ''payer signature is invalid'')))
            | Ret (Inr (a, _)) \<Rightarrow> Ret (Inr (tx, pubKey, Some a))))))"

lemma NewTrxContext_head:
  "NewTrxContext X g c bz b exec =
     (case tx_head X g bz of
        Panic \<Rightarrow> Panic
      | Ret (Inl e) \<Rightarrow> Ret (c, Inl e)
      | Ret (Inr (tx, pk, pa)) \<Rightarrow> (case find_accounts c tx pa exec of
          (c1, Inl e) \<Rightarrow> Ret (c1, Inl e)
        | (c1, Inr (s, r, p)) \<Rightarrow> Ret (c1, Inr \<lparr>Tx = tx, TxIdx = txsCnt b, TxHash = exTxHash X bz, Exec = exec, SenderPubKey = pk,
             Sender = s, Receiver = r, Payer = p, GasUsed = 0\<rparr>)))"
proof (cases "Trx_Decode X bz")
  case (Inr tx)
  show ?thesis
  proof (cases "Trx_Validate tx")
    case None
    show ?thesis
    proof (cases "txGas tx < MinTrxGas g \<or> txGasPrice tx \<noteq> GasPrice g")
      case False
      show ?thesis
      proof (cases "VerifyTrxRLP (exRlp X) (exSig2Addr X) (exSigners X) tx")
        case (Ret v)
        then show ?thesis using Inr None False
          by (cases v; cases "VerifyPayerTrxRLP (exRlp X) (exSig2Addr X) (exSigners X) tx")
             (auto simp: NewTrxContext_def tx_head_def split: sum.split)
      qed (use Inr None False in \<open>auto simp: NewTrxContext_def tx_head_def\<close>)
    qed (use Inr None in \<open>auto simp: NewTrxContext_def tx_head_def\<close>)
  qed (use Inr in \<open>simp add: NewTrxContext_def tx_head_def\<close>)
qed (simp add: NewTrxContext_def tx_head_def)

lemma tx_head_payer:
  "tx_head X g bz = Ret (Inr (tx, pk, pa)) \<Longrightarrow> (case pa of None \<Rightarrow> txFrom tx | Some a \<Rightarrow> a) = payer_addr tx"
  by (auto simp: tx_head_def payer_addr_def dest: VerifyPayer_addr split: sum.splits option.splits go.splits if_splits)

text \<open>The context or response of a transaction alone: what preparing it gives while only accounts of the given tree exist.\<close>

definition deliver_err :: "xerror \<Rightarrow> Response" where
  "deliver_err e = \<lparr>rsCode = Code (Wrap ErrDeliverTx (EXerr e)), rsGasWanted = 0, rsGasUsed = 0\<rparr>"

lemma NewTrxContext_ext:
  assumes inv: "ainv c" "newb_ok c" and n: "NewTrxContext X g c bz b True = Ret (c', r)"
  shows "acct_ext c c'" "r = Inr ctx \<Longrightarrow> ctx_live c' ctx \<and> Exec ctx"
proof -
  have "acct_ext c c' \<and> (\<forall>ctx. r = Inr ctx \<longrightarrow> ctx_live c' ctx \<and> Exec ctx)"
  proof (cases "tx_head X g bz")
    case (Ret h)
    show ?thesis
    proof (cases h)
      case (Inl e)
      then show ?thesis using n Ret inv by (auto simp: NewTrxContext_head acct_ext_def)
    next
      case (Inr t)
      obtain tx pk pa where t: "t = (tx, pk, pa)" by (cases t)
      obtain c1 o1 where f: "find_accounts c tx pa True = (c1, o1)" by (cases "find_accounts c tx pa True")
      show ?thesis
        using n Ret Inr t find_accounts_outcome[OF inv f] tx_head_payer[of X g bz tx pk pa]
        by (auto simp: NewTrxContext_head f ctx_live_def lookup_err_def acct_ext_def split: sum.splits option.splits if_splits)
    qed
  qed (use n in \<open>simp add: NewTrxContext_head\<close>)
  then show "acct_ext c c'" "r = Inr ctx \<Longrightarrow> ctx_live c' ctx \<and> Exec ctx" by blast+
qed

lemma NewTrxContext_indep:
  assumes inv: "ainv c" "newb_ok c" "ainv d" "newb_ok d" "atree d = atree c"
    and n: "NewTrxContext X g c bz b True = Ret (c', r)"
  shows "\<exists>d' r'. NewTrxContext X g d bz b' True = Ret (d', r') \<and> same_out (map_sum deliver_err id r) (map_sum deliver_err id r')"
proof (cases "tx_head X g bz")
  case (Ret h)
  show ?thesis
  proof (cases h)
    case (Inl e)
    then show ?thesis using n Ret by (auto simp: NewTrxContext_head)
  next
    case (Inr t)
    obtain tx pk pa where t: "t = (tx, pk, pa)" by (cases t)
    obtain c1 o1 where f: "find_accounts c tx pa True = (c1, o1)" by (cases "find_accounts c tx pa True")
    obtain d1 o2 where f2: "find_accounts d tx pa True = (d1, o2)" by (cases "find_accounts d tx pa True")
    show ?thesis
      using n Ret Inr t find_accounts_outcome[OF inv(1,2) f] find_accounts_outcome[OF inv(3,4) f2] inv(5)
      by (cases o1; cases o2) (auto simp: NewTrxContext_head f f2)
  qed
qed (use n in \<open>simp add: NewTrxContext_head\<close>)

section \<open>Every schedule\<close>

definition is_ctx :: "resultValue option \<Rightarrow> bool" where
  "is_ctx x = (case x of Some v \<Rightarrow> (case rvOut v of Inr _ \<Rightarrow> True | Inl _ \<Rightarrow> False) | None \<Rightarrow> False)"

lemma filter_fill:
  assumes "i < length xs" "xs ! i = None" "\<not> P None"
  shows "length (filter P (xs[i := x])) = length (filter P xs) + (if P x then 1 else 0)"
proof -
  have "xs = take i xs @ None # drop (Suc i) xs" using assms(1,2) id_take_nth_drop by metis
  then have "filter P xs = filter P (take i xs) @ filter P (drop (Suc i) xs)"
    using assms(3) by (metis filter.simps(2) filter_append)
  then show ?thesis using assms(1) by (simp add: upd_conv_take_nth_drop)
qed

text \<open>A finished slot: the right request, and the outcome the request has alone at the start of the block.\<close>

definition slot_ok :: "('s, 'f, 'd) node_ext \<Rightarrow> 's BeatozApp \<Rightarrow> BlockContext \<Rightarrow> AcctCtrler \<Rightarrow> nat \<Rightarrow> bytes \<Rightarrow> resultValue \<Rightarrow> bool" where
  "slot_ok E app0 b0 ac i req v \<longleftrightarrow> rvIdx v = i \<and> rvReq v = req \<and>
     (\<exists>app1 b1 r. prepare_tx E req b0 app0 = Ret (app1, b1, r) \<and> same_out (rvOut v) r) \<and>
     (\<forall>ctx. rvOut v = Inr ctx \<longrightarrow> ctx_live ac ctx \<and> Exec ctx)"

definition prep_inv ::
  "('s, 'f, 'd) node_ext \<Rightarrow> nat \<Rightarrow> 's BeatozApp \<Rightarrow> BlockContext \<Rightarrow> bytes list \<Rightarrow> nat \<Rightarrow> 's BeatozApp \<times> BlockContext \<times> TrxPreparer \<Rightarrow> bool" where
  "prep_inv E w app0 b0 reqs k s \<longleftrightarrow> (case s of (app, b, tp) \<Rightarrow>
     app = app0\<lparr>acctCtrler := acctCtrler app\<rparr> \<and> acct_ext (acctCtrler app0) (acctCtrler app) \<and>
     reqCount tp = length reqs \<and> length (resultValues tp) = length reqs \<and> length (chReqParams tp) = w \<and>
     (\<forall>i < length reqs. case resultValues tp ! i of
        None \<Rightarrow> (i, reqs ! i) \<in> set (chReqParams tp ! (i mod w))
      | Some v \<Rightarrow> slot_ok E app0 b0 (acctCtrler app) i (reqs ! i) v) \<and>
     (\<forall>n < w. distinct (map fst (chReqParams tp ! n)) \<and>
        (\<forall>(i, r) \<in> set (chReqParams tp ! n). i < length reqs \<and> r = reqs ! i \<and> resultValues tp ! i = None \<and> i mod w = n)) \<and>
     k = length (filter (\<lambda>x. x \<noteq> None) (resultValues tp)) \<and>
     b = b0\<lparr>txsCnt := i64 (txsCnt b0 + int (length (filter is_ctx (resultValues tp))))\<rparr>)"

lemma prep_inv_init:
  assumes "ainv (acctCtrler app0)" "newb_ok (acctCtrler app0)" "in64 (txsCnt b0)"
  shows "prep_inv E w app0 b0 [] 0 (app0, b0, newTrxPreparer w)"
  using assms by (simp add: prep_inv_def newTrxPreparer_def acct_ext_def)

lemma prep_inv_deliver:
  assumes i: "prep_inv E w app0 b0 reqs k (app, b, tp)" and a: "TrxPreparer_Add tp req = Some tp'" and w: "0 < w"
  shows "prep_inv E w app0 b0 (reqs @ [req]) k (app, b, tp')"
proof -
  let ?m = "length reqs" let ?q = "chReqParams tp"
  note i' = i[unfolded prep_inv_def prod.case]
  have l: "reqCount tp = ?m" "length (resultValues tp) = ?m" "length ?q = w" using i' by blast+
  have tp': "tp' = tp\<lparr>resultValues := resultValues tp @ [None], reqCount := ?m + 1, chReqParams := ?q[?m mod w := ?q ! (?m mod w) @ [(?m, req)]]\<rparr>"
    using a l by (auto simp: TrxPreparer_Add_def Let_def split: if_splits)
  have mw: "?m mod w < w" using w by simp
  have q: "chReqParams tp' ! n = ?q ! n @ (if n = ?m mod w then [(?m, req)] else [])" if "n < w" for n
    using that l(3) by (simp add: tp' nth_list_update)
  have fresh: "\<forall>(j, r) \<in> set (?q ! n). j < ?m" if "n < w" for n using i' that by blast
  have slots: "case resultValues tp' ! j of None \<Rightarrow> (j, (reqs @ [req]) ! j) \<in> set (chReqParams tp' ! (j mod w))
      | Some v \<Rightarrow> slot_ok E app0 b0 (acctCtrler app) j ((reqs @ [req]) ! j) v" if "j < length (reqs @ [req])" for j
  proof (cases "j = ?m")
    case True
    moreover have "resultValues tp' ! ?m = None" using l by (simp add: tp' nth_append)
    ultimately show ?thesis using mw q[of "?m mod w"] by simp
  next
    case False
    then have "j < ?m" using that by simp
    then have "case resultValues tp ! j of None \<Rightarrow> (j, reqs ! j) \<in> set (?q ! (j mod w))
        | Some v \<Rightarrow> slot_ok E app0 b0 (acctCtrler app) j (reqs ! j) v" using i' by blast
    then show ?thesis using \<open>j < ?m\<close> l q[of "j mod w"] w by (auto simp: tp' nth_append split: option.splits)
  qed
  have chans: "distinct (map fst (chReqParams tp' ! n)) \<and> (\<forall>(j, r) \<in> set (chReqParams tp' ! n).
      j < length (reqs @ [req]) \<and> r = (reqs @ [req]) ! j \<and> resultValues tp' ! j = None \<and> j mod w = n)" if n: "n < w" for n
  proof -
    have "distinct (map fst (?q ! n)) \<and> (\<forall>(j, r) \<in> set (?q ! n). j < ?m \<and> r = reqs ! j \<and> resultValues tp ! j = None \<and> j mod w = n)"
      using i' n by blast
    then show ?thesis using q[OF n] fresh[OF n] l by (auto simp: tp' nth_append)
  qed
  show ?thesis unfolding prep_inv_def prod.case
    using i' l slots chans by (intro conjI) (simp_all add: tp' is_ctx_def)
qed

lemma slot_ok_ext: "slot_ok E app0 b0 ac i req v \<Longrightarrow> acct_ext ac ac' \<Longrightarrow> slot_ok E app0 b0 ac' i req v"
  by (auto simp: slot_ok_def intro: ctx_live_ext)

text \<open>Preparing a request later gives what it gives at the start.\<close>

lemma prepare_tx_later:
  assumes app: "app = app0\<lparr>acctCtrler := acctCtrler app\<rparr>" and x: "acct_ext (acctCtrler app0) (acctCtrler app)"
    and i: "ainv (acctCtrler app0)" "newb_ok (acctCtrler app0)"
    and p: "prepare_tx E req b app = Ret (app1, b1, r)"
  shows "app1 = app0\<lparr>acctCtrler := acctCtrler app1\<rparr> \<and> acct_ext (acctCtrler app) (acctCtrler app1) \<and>
    slot_ok E app0 b0 (acctCtrler app1) j req \<lparr>rvIdx = j, rvReq = req, rvOut = r\<rparr> \<and>
    b1 = b\<lparr>txsCnt := (case r of Inl _ \<Rightarrow> txsCnt b | Inr _ \<Rightarrow> i64 (txsCnt b + 1))\<rparr>"
proof -
  have ia: "ainv (acctCtrler app)" "newb_ok (acctCtrler app)" using x by (auto simp: acct_ext_def)
  have g: "gov_params app = gov_params app0" unfolding gov_params_def by (subst app) simp
  obtain ac q where n: "NewTrxContext (nX E) (gov_params app0) (acctCtrler app) req b True = Ret (ac, q)"
    using p g by (auto simp: prepare_tx_def split: go.splits sum.splits)
  have r: "app1 = app\<lparr>acctCtrler := ac\<rparr>" "r = map_sum deliver_err id q" "b1 = (case q of Inl _ \<Rightarrow> b | Inr _ \<Rightarrow> AddTxsCnt b 1)"
    using p n g by (auto simp: prepare_tx_def deliver_err_def split: sum.splits)
  note e = NewTrxContext_ext[OF ia n]
  have "atree (acctCtrler app0) = atree (acctCtrler app)" using x by (simp add: acct_ext_def)
  then obtain d' q' where d: "NewTrxContext (nX E) (gov_params app0) (acctCtrler app0) req b0 True = Ret (d', q')"
      "same_out (map_sum deliver_err id q) (map_sum deliver_err id q')"
    using NewTrxContext_indep[OF ia i _ n] by blast
  have "\<exists>a' b'. prepare_tx E req b0 app0 = Ret (a', b', map_sum deliver_err id q')"
    using d(1) by (cases q') (auto simp: prepare_tx_def deliver_err_def)
  then have "slot_ok E app0 b0 ac j req \<lparr>rvIdx = j, rvReq = req, rvOut = r\<rparr>"
    using d(2) e(2) r(2) by (cases q) (auto simp: slot_ok_def)
  moreover have "app1 = app0\<lparr>acctCtrler := ac\<rparr>" unfolding r(1) by (subst app) simp
  moreover have "b1 = b\<lparr>txsCnt := (case r of Inl _ \<Rightarrow> txsCnt b | Inr _ \<Rightarrow> i64 (txsCnt b + 1))\<rparr>"
    using r(2,3) by (cases q) (auto simp: AddTxsCnt_def)
  ultimately show ?thesis using e(1) r(1) by simp
qed

lemma prep_inv_turn:
  assumes i: "prep_inv E w app0 b0 reqs k (app, b, tp)" and t: "trxPreparerRoutine E n (app, b, tp) = Some (Ret (app1, b1, tp1))"
    and i0: "ainv (acctCtrler app0)" "newb_ok (acctCtrler app0)"
  shows "prep_inv E w app0 b0 reqs (Suc k) (app1, b1, tp1)"
proof -
  note i' = i[unfolded prep_inv_def prod.case]
  let ?q = "chReqParams tp" let ?rv = "resultValues tp"
  have l: "length ?rv = length reqs" "length ?q = w" "reqCount tp = length reqs" using i' by blast+
  have n: "n < w" using t l by (auto simp: trxPreparerRoutine_def split: if_splits)
  obtain j req rest where h: "?q ! n = (j, req) # rest"
    using t by (auto simp: trxPreparerRoutine_def split: if_splits list.splits)
  have c: "distinct (map fst (?q ! n))" "\<forall>(x, r) \<in> set (?q ! n). x < length reqs \<and> r = reqs ! x \<and> ?rv ! x = None \<and> x mod w = n"
    using i' n by blast+
  have j: "j < length reqs" "req = reqs ! j" "?rv ! j = None" "j mod w = n" "j \<notin> fst ` set rest" using c h by auto
  obtain r where p: "prepare_tx E req b app = Ret (app1, b1, r)"
      and tp1: "tp1 = tp\<lparr>chReqParams := ?q[n := rest], resultValues := ?rv[j := Some \<lparr>rvIdx = j, rvReq = req, rvOut = r\<rparr>]\<rparr>"
    using t n l h by (auto simp: trxPreparerRoutine_def split: go.splits)
  have a: "app = app0\<lparr>acctCtrler := acctCtrler app\<rparr>" "acct_ext (acctCtrler app0) (acctCtrler app)" using i' by blast+
  note late = prepare_tx_later[OF a i0 p, of b0 j]
  have x: "acct_ext (acctCtrler app0) (acctCtrler app1)" using late a(2) acct_ext_trans by blast
  have slots: "case resultValues tp1 ! m of None \<Rightarrow> (m, reqs ! m) \<in> set (chReqParams tp1 ! (m mod w))
      | Some v \<Rightarrow> slot_ok E app0 b0 (acctCtrler app1) m (reqs ! m) v" if m: "m < length reqs" for m
  proof (cases "m = j")
    case True
    then show ?thesis using late j l m by (simp add: tp1)
  next
    case False
    have o: "case ?rv ! m of None \<Rightarrow> (m, reqs ! m) \<in> set (?q ! (m mod w)) | Some v \<Rightarrow> slot_ok E app0 b0 (acctCtrler app) m (reqs ! m) v"
      using i' m by blast
    show ?thesis
    proof (cases "?rv ! m")
      case None
      then show ?thesis using o False h l n by (cases "m mod w = n") (auto simp: tp1)
    next
      case (Some v)
      then show ?thesis using o False late slot_ok_ext by (fastforce simp: tp1)
    qed
  qed
  have chans: "distinct (map fst (chReqParams tp1 ! m)) \<and> (\<forall>(x, r) \<in> set (chReqParams tp1 ! m).
      x < length reqs \<and> r = reqs ! x \<and> resultValues tp1 ! x = None \<and> x mod w = m)" if m: "m < w" for m
  proof -
    have o: "distinct (map fst (?q ! m)) \<and> (\<forall>(x, r) \<in> set (?q ! m). x < length reqs \<and> r = reqs ! x \<and> ?rv ! x = None \<and> x mod w = m)"
      using i' m by blast
    show ?thesis
    proof (cases "m = n")
      case True
      then show ?thesis using o h l n j(5) by (auto simp: tp1 nth_list_update rev_image_eqI)
    next
      case False
      then have ne: "x \<noteq> j" if "(x, r) \<in> set (?q ! m)" for x r using o j(4) that by auto
      have "?rv[j := y] ! x = ?rv ! x" if "(x, r) \<in> set (?q ! m)" for x r y using ne[OF that] by simp
      then show ?thesis using o False l m by (auto simp: tp1)
    qed
  qed
  have "length (filter (\<lambda>x. x \<noteq> None) (resultValues tp1)) = Suc k"
    using i' filter_fill[of j ?rv "\<lambda>x. x \<noteq> None"] j l by (simp add: tp1)
  moreover have "b1 = b0\<lparr>txsCnt := i64 (txsCnt b0 + int (length (filter is_ctx (resultValues tp1))))\<rparr>"
  proof -
    have "b = b0\<lparr>txsCnt := i64 (txsCnt b0 + int (length (filter is_ctx ?rv)))\<rparr>" using i' by blast
    moreover have "length (filter is_ctx (resultValues tp1)) = length (filter is_ctx ?rv) + (case r of Inl _ \<Rightarrow> 0 | Inr _ \<Rightarrow> 1)"
      using filter_fill[of j ?rv is_ctx] j l by (cases r) (simp_all add: tp1 is_ctx_def)
    ultimately show ?thesis using late by (cases r) (simp_all add: algebra_simps)
  qed
  ultimately show ?thesis unfolding prep_inv_def prod.case
    using late x l slots chans by (intro conjI) (simp_all add: tp1)
qed

lemma prep_run_inv:
  assumes "prep_run E (app0, b0, newTrxPreparer w) reqs k s" "ainv (acctCtrler app0)" "newb_ok (acctCtrler app0)" "in64 (txsCnt b0)" "0 < w"
  shows "prep_inv E w app0 b0 reqs k s"
  using assms(1)
proof induction
  case init
  then show ?case using prep_inv_init assms(2-4) by blast
next
  case (deliver reqs k app b tp req tp')
  then show ?case using prep_inv_deliver assms(5) by blast
next
  case (turn reqs k s' n s'')
  then show ?case using prep_inv_turn assms(2,3) by (cases s'; cases s'') blast
qed

lemma all_done:
  assumes "length (filter (\<lambda>x. x \<noteq> None) xs) = length xs" "i < length xs"
  shows "\<exists>v. xs ! i = Some v"
proof -
  have "xs ! i \<noteq> None" using assms length_filter_less[of "xs ! i" xs "\<lambda>x. x \<noteq> None"] by auto
  then show ?thesis by auto
qed

text \<open>
  (C0) Waiting for the preparer ends: in every schedule the routines have at most as many turns as requests were
  delivered; as long as there were fewer, some routine has a turn; and once there were as many, every channel is empty
  and every slot is filled with the result of its own request.
\<close>
theorem preparer_settles:
  assumes "prep_run E (app0, b0, newTrxPreparer w) reqs k (app, b, tp)" "ainv (acctCtrler app0)" "newb_ok (acctCtrler app0)"
    and "in64 (txsCnt b0)" "0 < w"
  shows "k \<le> length reqs \<and> (k < length reqs \<longleftrightarrow> (\<exists>n. trxPreparerRoutine E n (app, b, tp) \<noteq> None)) \<and>
    (k = length reqs \<longrightarrow> length (resultValues tp) = length reqs \<and>
       (\<forall>i < length reqs. \<exists>v. resultValues tp ! i = Some v \<and> rvIdx v = i \<and> rvReq v = reqs ! i))"
proof -
  note inv = prep_run_inv[OF assms] note i' = inv[unfolded prep_inv_def prod.case]
  have l: "length (resultValues tp) = length reqs" "length (chReqParams tp) = w" using i' by blast+
  have k: "k = length (filter (\<lambda>x. x \<noteq> None) (resultValues tp))" using i' by blast
  have le: "k \<le> length reqs" using k l(1) length_filter_le[of "\<lambda>x. x \<noteq> None" "resultValues tp"] by simp
  have full: "\<exists>v. resultValues tp ! i = Some v \<and> rvIdx v = i \<and> rvReq v = reqs ! i" if kk: "k = length reqs" and ii: "i < length reqs" for i
  proof -
    obtain v where v: "resultValues tp ! i = Some v" using all_done[of "resultValues tp" i] kk ii k l by auto
    have "case resultValues tp ! i of None \<Rightarrow> (i, reqs ! i) \<in> set (chReqParams tp ! (i mod w))
        | Some v \<Rightarrow> slot_ok E app0 b0 (acctCtrler app) i (reqs ! i) v" using i' ii by blast
    then show ?thesis using v by (simp add: slot_ok_def)
  qed
  have "\<exists>n. trxPreparerRoutine E n (app, b, tp) \<noteq> None" if "k < length reqs"
  proof -
    have "\<exists>i < length reqs. resultValues tp ! i = None"
    proof (rule ccontr)
      assume no: "\<not> (\<exists>i < length reqs. resultValues tp ! i = None)"
      then have "x \<noteq> None" if "x \<in> set (resultValues tp)" for x using that no l(1) by (metis in_set_conv_nth)
      then have "filter (\<lambda>x. x \<noteq> None) (resultValues tp) = resultValues tp" by (intro filter_True) blast
      then show False using that k l(1) by simp
    qed
    then obtain i where i: "i < length reqs" "resultValues tp ! i = None" by blast
    then have "(i, reqs ! i) \<in> set (chReqParams tp ! (i mod w))" using i' by fastforce
    then obtain x q where "chReqParams tp ! (i mod w) = x # q" by (cases "chReqParams tp ! (i mod w)") auto
    then show ?thesis using l(2) assms(5) by (intro exI[of _ "i mod w"]) (cases x, simp add: trxPreparerRoutine_def not_le)
  qed
  moreover have "k < length reqs" if tn: "trxPreparerRoutine E n (app, b, tp) \<noteq> None" for n
  proof -
    obtain j r q where n: "n < w" "chReqParams tp ! n = (j, r) # q"
      using tn l(2) by (auto simp: trxPreparerRoutine_def split: if_splits list.splits)
    have "\<forall>(i, r) \<in> set (chReqParams tp ! n). i < length reqs \<and> r = reqs ! i \<and> resultValues tp ! i = None \<and> i mod w = n"
      using i' n(1) by blast
    then have "j < length reqs" "resultValues tp ! j = None" using n(2) by auto
    then show ?thesis using full[of j] le by fastforce
  qed
  ultimately show ?thesis using le l full by blast
qed

text \<open>
  (C0) The schedule does not matter: when the preparer has settled, the result of every request is what preparing it
  alone at the start of the block gives, up to the names of account objects and the position; no account was changed,
  every context holds the live objects of its accounts, and the block's transaction count is the number of contexts.
\<close>
theorem preparer_order_free:
  assumes "prep_run E (app0, b0, newTrxPreparer w) reqs (length reqs) (app, b, tp)" "ainv (acctCtrler app0)" "newb_ok (acctCtrler app0)"
    and "in64 (txsCnt b0)" "0 < w" and "i < length reqs"
  shows "\<exists>v app1 b1 r. resultValues tp ! i = Some v \<and> prepare_tx E (reqs ! i) b0 app0 = Ret (app1, b1, r) \<and> same_out (rvOut v) r \<and>
    (\<forall>ctx. rvOut v = Inr ctx \<longrightarrow> ctx_live (acctCtrler app) ctx) \<and> atree (acctCtrler app) = atree (acctCtrler app0) \<and>
    txsCnt b = i64 (txsCnt b0 + int (length (filter is_ctx (resultValues tp))))"
proof -
  note i' = prep_run_inv[OF assms(1-5), unfolded prep_inv_def prod.case]
  obtain v where v: "resultValues tp ! i = Some v" using all_done[of "resultValues tp" i] i' assms(6) by auto
  have "case resultValues tp ! i of None \<Rightarrow> (i, reqs ! i) \<in> set (chReqParams tp ! (i mod w))
      | Some v \<Rightarrow> slot_ok E app0 b0 (acctCtrler app) i (reqs ! i) v" using i' assms(6) by blast
  then have s: "slot_ok E app0 b0 (acctCtrler app) i (reqs ! i) v" using v by simp
  have t: "txsCnt b = i64 (txsCnt b0 + int (length (filter is_ctx (resultValues tp))))"
  proof -
    have "b = b0\<lparr>txsCnt := i64 (txsCnt b0 + int (length (filter is_ctx (resultValues tp))))\<rparr>" using i' by blast
    then show ?thesis by (metis BlockContext.select_convs(6) BlockContext.surjective BlockContext.update_convs(6))
  qed
  have "acct_ext (acctCtrler app0) (acctCtrler app)" using i' by blast
  then have "atree (acctCtrler app) = atree (acctCtrler app0)" by (simp add: acct_ext_def)
  then show ?thesis using s v t unfolding slot_ok_def by blast
qed

text \<open>
  (C0) One delivered transaction without a context stops the chain: when all requests of a block were prepared
  and one of them has no context, for instance because its sender has no account at the start of the block,
  \<open>EndBlock\<close> panics, although the code after the check is written to answer such a transaction with its error.
\<close>
theorem unprepared_tx_halts:
  assumes "prep_run E (app0, b0, newTrxPreparer w) reqs (length reqs) (app, b, tp)" "ainv (acctCtrler app0)" "newb_ok (acctCtrler app0)"
    and "txsCnt b0 = 0" "0 < w" "length reqs < 2 ^ 63"
    and "i < length reqs" "prepare_tx E (reqs ! i) b0 app0 = Ret (app1, b1, Inl e)"
  shows "BeatozApp_EndBlock E (resultValues tp) (app\<lparr>currBlockCtx := Some b\<rparr>) = Panic"
proof -
  have z: "in64 (txsCnt b0)" using assms(4) by simp
  note i' = prep_run_inv[OF assms(1-3) z assms(5), unfolded prep_inv_def prod.case]
  have l: "length (resultValues tp) = length reqs" using i' by blast
  obtain v where v: "resultValues tp ! i = Some v" using all_done[of "resultValues tp" i] i' assms(7) by auto
  have "case resultValues tp ! i of None \<Rightarrow> (i, reqs ! i) \<in> set (chReqParams tp ! (i mod w))
      | Some v \<Rightarrow> slot_ok E app0 b0 (acctCtrler app) i (reqs ! i) v" using i' assms(7) by blast
  then have "\<exists>r. rvOut v = Inl r" using v assms(8) by (cases "rvOut v") (auto simp: slot_ok_def)
  then have "\<not> is_ctx (resultValues tp ! i)" using v by (auto simp: is_ctx_def)
  then have "length (filter is_ctx (resultValues tp)) < length (resultValues tp)"
    using assms(7) l by (metis length_filter_less nth_mem)
  then have lt: "int (length (filter is_ctx (resultValues tp))) < int (length reqs)" using l by simp
  have "int (length reqs) < 2 ^ 63" using assms(6) by (metis of_nat_less_iff of_nat_numeral of_nat_power)
  then have "i64 (int (length (filter is_ctx (resultValues tp)))) = int (length (filter is_ctx (resultValues tp)))"
    using lt by (intro i64_id) (simp add: in64_def)
  moreover have "b = b0\<lparr>txsCnt := i64 (txsCnt b0 + int (length (filter is_ctx (resultValues tp))))\<rparr>" using i' by blast
  ultimately have "int (length (resultValues tp)) \<noteq> txsCnt b" using lt l assms(4) by simp
  then show ?thesis by (simp add: BeatozApp_EndBlock_def)
qed

section \<open>An instance\<close>

definition node_ex :: "((addr \<Rightarrow> uint256) \<times> (addr \<Rightarrow> int), int, rat) node_ext" where
  "node_ex = \<lparr>nX = externs_ex (replicate 65 0), nJ = J_ex, nP = geth_ex, nF = fx_ex, nD = dec_ex, nNeg = (\<lambda>x. x < 0), nP2a = (\<lambda>_. addr_ex 1),
     nHash = concat, nMarshalBctx = (\<lambda>_. Inr []), nUnmarshalBctx = (\<lambda>_. Inl (EFmt [])), nDbSet = (\<lambda>db k v. Inr (db(k \<mapsto> v))), nRpcListen = True\<rparr>"

definition app_ex :: "AcctCtrler \<Rightarrow> ((addr \<Rightarrow> uint256) \<times> (addr \<Rightarrow> int)) BeatozApp" where
  "app_ex ac = \<lparr>lastBlockCtx = bctx_ex, currBlockCtx = None, metaDB = \<lparr>mdb = Map.empty, mdTxn = 0, mdTotalTxFee = 0\<rparr>,
     govCtrler = NewGovCtrler \<lparr>gitem = Some DefaultGovParams, props = Map.empty, fprops = Map.empty\<rparr>, acctCtrler = ac,
     supplyCtrler = NewSupplyCtrler \<lparr>stotal = None, rewards = Map.empty\<rparr>, vpowCtrler = vc_ex, vmCtrler = evm_ex, vpowCommitted = vexec vc_ex,
     govVersion = 0, acctVersion = 0, supplyVersion = 0, vpowVersion = 0\<rparr>"

lemma app_ex_fields [simp]: "acctCtrler (app_ex ac) = ac" "gov_params (app_ex ac) = DefaultGovParams" "nX node_ex = externs_ex (replicate 65 0)"
  by (simp_all add: app_ex_def gov_params_def NewGovCtrler_def node_ex_def)

lemma app_ex_acct [simp]: "(app_ex ac)\<lparr>acctCtrler := ac'\<rparr> = app_ex ac'"
  by (simp add: app_ex_def)

lemma head_ex: "tx_head (externs_ex (replicate 65 0)) DefaultGovParams bz = Ret (Inr (tx_ex (replicate 65 0), [3], None))"
  using gov_ex
  by (simp add: tx_head_def tx_ex_decode tx_ex_valid)
    (simp add: tx_ex_def externs_ex_def VerifyTrxRLP_def opt_bytes_def getSigner_def verify_with_def verifyV0_def
      signer_args_def check_addr_def addr_ex_def Let_def)

text \<open>Preparing the example's transaction: its sender's account decides.\<close>

lemma prepare_ex:
  assumes "ainv ac" "newb_ok ac"
  shows "\<exists>ac' r. prepare_tx node_ex bz b (app_ex ac) = Ret (app_ex ac', if atree ac (addr_ex 1) = None then b else AddTxsCnt b 1, r) \<and>
    ainv ac' \<and> newb_ok ac' \<and> atree ac' = atree ac \<and> ((\<exists>e. r = Inl e) \<longleftrightarrow> atree ac (addr_ex 1) = None)"
proof -
  let ?tx = "tx_ex (replicate 65 0)"
  obtain c1 o1 where f: "find_accounts ac ?tx None True = (c1, o1)" by (cases "find_accounts ac ?tx None True")
  have "txFrom ?tx = addr_ex 1" by (simp add: tx_ex_def)
  then show ?thesis using find_accounts_outcome[OF assms f]
    by (cases o1) (auto simp: prepare_tx_def NewTrxContext_head head_ex f lookup_err_def acct_ext_def split: if_splits)
qed

text \<open>Two requests, handled by the second routine first.\<close>

lemma prep_ex_run:
  assumes "ainv ac" "newb_ok ac"
  shows "\<exists>app b tp. prep_run node_ex (app_ex ac, bctx_ex\<lparr>txsCnt := 0\<rparr>, newTrxPreparer 2) [[7], [8]] 2 (app, b, tp)"
proof -
  let ?b = "bctx_ex\<lparr>txsCnt := 0\<rparr>" let ?s = "(app_ex ac, ?b, newTrxPreparer 2)"
  define tp2 where "tp2 = \<lparr>chReqParams = [[(0, [7])], [(1, [8])]], reqCount = 2, resultValues = [None, None]\<rparr>"
  have 1: "prep_run node_ex ?s ([] @ [[7]]) 0 (app_ex ac, ?b, \<lparr>chReqParams = [[(0, [7])], []], reqCount = 1, resultValues = [None]\<rparr>)"
    by (rule prep_run.deliver[OF prep_run.init]) (simp add: TrxPreparer_Add_def newTrxPreparer_def ch_cap_def numeral_2_eq_2)
  have 2: "prep_run node_ex ?s (([] @ [[7]]) @ [[8]]) 0 (app_ex ac, ?b, tp2)"
    by (rule prep_run.deliver[OF 1]) (simp add: TrxPreparer_Add_def tp2_def ch_cap_def)
  obtain ac1 b1 r1 where 3: "prepare_tx node_ex [8] ?b (app_ex ac) = Ret (app_ex ac1, b1, r1)" "ainv ac1" "newb_ok ac1"
    using prepare_ex[OF assms, of "[8]" ?b] by blast
  obtain ac2 b2 r2 where 4: "prepare_tx node_ex [7] b1 (app_ex ac1) = Ret (app_ex ac2, b2, r2)"
    using prepare_ex[OF 3(2,3), of "[7]" b1] by blast
  have "trxPreparerRoutine node_ex 1 (app_ex ac, ?b, tp2) = Some (Ret (app_ex ac1, b1,
      \<lparr>chReqParams = [[(0, [7])], []], reqCount = 2, resultValues = [None, Some \<lparr>rvIdx = 1, rvReq = [8], rvOut = r1\<rparr>]\<rparr>))"
    using 3(1) by (simp add: trxPreparerRoutine_def tp2_def)
  from prep_run.turn[OF 2 this]
  have 5: "prep_run node_ex ?s [[7], [8]] (Suc 0) (app_ex ac1, b1,
      \<lparr>chReqParams = [[(0, [7])], []], reqCount = 2, resultValues = [None, Some \<lparr>rvIdx = 1, rvReq = [8], rvOut = r1\<rparr>]\<rparr>)" by simp
  have "\<exists>tp. trxPreparerRoutine node_ex 0 (app_ex ac1, b1, \<lparr>chReqParams = [[(0, [7])], []], reqCount = 2,
      resultValues = [None, Some \<lparr>rvIdx = 1, rvReq = [8], rvOut = r1\<rparr>]\<rparr>) = Some (Ret (app_ex ac2, b2, tp))"
    using 4 by (simp add: trxPreparerRoutine_def)
  then obtain tp where "trxPreparerRoutine node_ex 0 (app_ex ac1, b1, \<lparr>chReqParams = [[(0, [7])], []], reqCount = 2,
      resultValues = [None, Some \<lparr>rvIdx = 1, rvReq = [8], rvOut = r1\<rparr>]\<rparr>) = Some (Ret (app_ex ac2, b2, tp))" by blast
  from prep_run.turn[OF 5 this] have "prep_run node_ex ?s [[7], [8]] 2 (app_ex ac2, b2, tp)" by (simp add: numeral_2_eq_2)
  then show ?thesis by blast
qed

lemma length_ex: "length [[7::byte], [8]] = 2" by simp

theorem preparer_settles_witness:
  "\<exists>app b tp. prep_run node_ex (app_ex (accts_ex 10), bctx_ex\<lparr>txsCnt := 0\<rparr>, newTrxPreparer 2) [[7], [8]] 2 (app, b, tp) \<and>
     (\<exists>v. resultValues tp ! 1 = Some v \<and> rvIdx v = 1 \<and> rvReq v = [8])"
proof -
  obtain app b tp where r: "prep_run node_ex (app_ex (accts_ex 10), bctx_ex\<lparr>txsCnt := 0\<rparr>, newTrxPreparer 2) [[7], [8]] 2 (app, b, tp)"
    using prep_ex_run[OF accts_ex_ok] by blast
  have "\<forall>i < 2. \<exists>v. resultValues tp ! i = Some v \<and> rvIdx v = i \<and> rvReq v = [[7], [8]] ! i"
    using preparer_settles[OF r] accts_ex_ok[of 10] unfolding length_ex by auto
  then have "\<exists>v. resultValues tp ! 1 = Some v \<and> rvIdx v = 1 \<and> rvReq v = [[7], [8]] ! 1" by (rule allE[of _ 1]) simp
  then have "\<exists>v. resultValues tp ! 1 = Some v \<and> rvIdx v = 1 \<and> rvReq v = [8]" by simp
  then show ?thesis using r by blast
qed

theorem preparer_order_free_witness:
  "\<exists>app b tp v ctx. prep_run node_ex (app_ex (accts_ex 10), bctx_ex\<lparr>txsCnt := 0\<rparr>, newTrxPreparer 2) [[7], [8]] 2 (app, b, tp) \<and>
     resultValues tp ! 0 = Some v \<and> rvOut v = Inr ctx \<and> ctx_live (acctCtrler app) ctx"
proof -
  obtain app b tp where r: "prep_run node_ex (app_ex (accts_ex 10), bctx_ex\<lparr>txsCnt := 0\<rparr>, newTrxPreparer 2) [[7], [8]] 2 (app, b, tp)"
    using prep_ex_run[OF accts_ex_ok] by blast
  have a: "atree (accts_ex 10) (addr_ex 1) \<noteq> None" by (simp add: accts_ex_def NewAcctCtrler_def)
  have p: "\<exists>a c. prepare_tx node_ex [7] (bctx_ex\<lparr>txsCnt := 0\<rparr>) (app_ex (accts_ex 10)) = Ret (a, c, Inl e) \<Longrightarrow> False" for e
    using prepare_ex[OF accts_ex_ok, of "[7]" "bctx_ex\<lparr>txsCnt := 0\<rparr>" 10] a by auto
  have "\<exists>v app1 b1 r. resultValues tp ! 0 = Some v \<and> prepare_tx node_ex [7] (bctx_ex\<lparr>txsCnt := 0\<rparr>) (app_ex (accts_ex 10)) = Ret (app1, b1, r) \<and>
      same_out (rvOut v) r \<and> (\<forall>ctx. rvOut v = Inr ctx \<longrightarrow> ctx_live (acctCtrler app) ctx)"
    using preparer_order_free[OF r[folded length_ex], of 0] accts_ex_ok[of 10] unfolding length_ex by auto
  then obtain v app1 b1 r where v: "resultValues tp ! 0 = Some v" "prepare_tx node_ex [7] (bctx_ex\<lparr>txsCnt := 0\<rparr>) (app_ex (accts_ex 10)) = Ret (app1, b1, r)"
      "same_out (rvOut v) r" "\<forall>ctx. rvOut v = Inr ctx \<longrightarrow> ctx_live (acctCtrler app) ctx" by blast
  have "\<exists>ctx. rvOut v = Inr ctx" using v p by (cases "rvOut v"; cases r) auto
  then show ?thesis using v r by blast
qed

theorem unprepared_tx_halts_witness:
  "\<exists>app b tp. prep_run node_ex (app_ex (NewAcctCtrler Map.empty), bctx_ex\<lparr>txsCnt := 0\<rparr>, newTrxPreparer 2) [[7], [8]] 2 (app, b, tp) \<and>
     BeatozApp_EndBlock node_ex (resultValues tp) (app\<lparr>currBlockCtx := Some b\<rparr>) = Panic"
proof -
  have i: "ainv (NewAcctCtrler Map.empty)" "newb_ok (NewAcctCtrler Map.empty)" by (simp_all add: ainv_def newb_ok_def NewAcctCtrler_def)
  obtain app b tp where r: "prep_run node_ex (app_ex (NewAcctCtrler Map.empty), bctx_ex\<lparr>txsCnt := 0\<rparr>, newTrxPreparer 2) [[7], [8]] 2 (app, b, tp)"
    using prep_ex_run[OF i] by blast
  obtain ac' b' e where "prepare_tx node_ex [7] (bctx_ex\<lparr>txsCnt := 0\<rparr>) (app_ex (NewAcctCtrler Map.empty)) = Ret (app_ex ac', b', Inl e)"
    using prepare_ex[OF i, of "[7]" "bctx_ex\<lparr>txsCnt := 0\<rparr>"] by (auto simp: NewAcctCtrler_def)
  then have "BeatozApp_EndBlock node_ex (resultValues tp) (app\<lparr>currBlockCtx := Some b\<rparr>) = Panic"
    using unprepared_tx_halts[OF r[folded length_ex], of 0] i unfolding length_ex by auto
  then show ?thesis using r by blast
qed

end
