(* ===== verification/Spec2Isabelle.thy ===== *)
theory Spec2Isabelle
  imports Xerrors Bytes_Codec Units Ledger_Keys Ledger_Spec Valset Limiter Account_Inv Gov_Params Gov_Steps Supply_Inv EVM_Inv Merkle Sign_State Node_Prep
begin

text \<open>
  A verification development of the beatoz-go node.
\<close>

end
